theory Spec2Isabelle
  imports Main
begin

section \<open>Strings, arrays and values of the scripting runtime\<close>

text \<open>
  A string of the runtime is a sequence of UTF-16 code units; a code unit is modelled by
  its number, an integer. \<open>str\<close> reads an ASCII literal, so that \<open>str ''key: 5''\<close> is the
  string the source writes as \<^verbatim>\<open>'key: 5'\<close>.
\<close>

type_synonym jschar = int
type_synonym jsstring = "jschar list"

definition str :: "string \<Rightarrow> jsstring" where
  "str s = map of_char s"

abbreviation LF :: jschar where "LF \<equiv> 10"
abbreviation SPACE :: jschar where "SPACE \<equiv> 32"
abbreviation DQUOTE :: jschar where "DQUOTE \<equiv> 34"
abbreviation HASH :: jschar where "HASH \<equiv> 35"
abbreviation SQUOTE :: jschar where "SQUOTE \<equiv> 39"
abbreviation COMMA :: jschar where "COMMA \<equiv> 44"
abbreviation MINUS :: jschar where "MINUS \<equiv> 45"
abbreviation DOT :: jschar where "DOT \<equiv> 46"
abbreviation COLON :: jschar where "COLON \<equiv> 58"
abbreviation LBRACKET :: jschar where "LBRACKET \<equiv> 91"
abbreviation RBRACKET :: jschar where "RBRACKET \<equiv> 93"

text \<open>
  The class \<^verbatim>\<open>\s\<close> of the regular expressions, which is also the set that
  \<^verbatim>\<open>trim()\<close> strips: TAB, LF, VT, FF, CR, SPACE, NBSP, U+1680, U+2000..U+200A,
  U+2028, U+2029, U+202F, U+205F, U+3000 and U+FEFF. \<^verbatim>\<open>\S\<close> is its complement.
\<close>

definition isSpace :: "jschar \<Rightarrow> bool" where
  "isSpace c \<longleftrightarrow>
     c = 9 \<or> c = 10 \<or> c = 11 \<or> c = 12 \<or> c = 13 \<or> c = 32 \<or> c = 160 \<or> c = 5760 \<or>
     (8192 \<le> c \<and> c \<le> 8202) \<or> c = 8232 \<or> c = 8233 \<or> c = 8239 \<or> c = 8287 \<or>
     c = 12288 \<or> c = 65279"

text \<open>The line terminators LF, CR, U+2028, U+2029: the characters that \<^verbatim>\<open>.\<close> does not match.\<close>

definition isLineTerm :: "jschar \<Rightarrow> bool" where
  "isLineTerm c \<longleftrightarrow> c = 10 \<or> c = 13 \<or> c = 8232 \<or> c = 8233"

definition trim :: "jsstring \<Rightarrow> jsstring" where
  "trim s = rev (dropWhile isSpace (rev (dropWhile isSpace s)))"

definition startsWith :: "jsstring \<Rightarrow> jsstring \<Rightarrow> bool" where
  "startsWith s p \<longleftrightarrow> take (length p) s = p"

definition endsWith :: "jsstring \<Rightarrow> jsstring \<Rightarrow> bool" where
  "endsWith s p \<longleftrightarrow> length p \<le> length s \<and> drop (length s - length p) s = p"

text \<open>\<^verbatim>\<open>s.search(/\S/)\<close>: the index of the first character that is not white space, or -1.\<close>

definition searchNonSpace :: "jsstring \<Rightarrow> int" where
  "searchNonSpace s =
     (if list_all isSpace s then - 1 else int (length (takeWhile isSpace s)))"

text \<open>\<^verbatim>\<open>s.split(d)\<close> for a one-character separator, and \<^verbatim>\<open>xs.join(sep)\<close>.\<close>

fun splitOn :: "jschar \<Rightarrow> jsstring \<Rightarrow> jsstring list" where
  "splitOn d [] = [[]]"
| "splitOn d (c # cs) =
     (if c = d then [] # splitOn d cs
      else (case splitOn d cs of [] \<Rightarrow> [[c]] | l # ls \<Rightarrow> (c # l) # ls))"

fun joinWith :: "jsstring \<Rightarrow> jsstring list \<Rightarrow> jsstring" where
  "joinWith sep [] = []"
| "joinWith sep [x] = x"
| "joinWith sep (x # y # ys) = x @ sep @ joinWith sep (y # ys)"

text \<open>\<^verbatim>\<open>' '.repeat(n)\<close>; the source only calls it with \<open>n \<ge> 0\<close>.\<close>

definition spaces :: "int \<Rightarrow> jsstring" where
  "spaces n = replicate (nat n) SPACE"

text \<open>
  Reading \<^verbatim>\<open>lines[i]\<close> and calling a method on it: outside the array the element
  is \<^verbatim>\<open>undefined\<close> and the method call throws a TypeError.
\<close>

datatype error = TypeError

definition getLine :: "jsstring list \<Rightarrow> int \<Rightarrow> error + jsstring" where
  "getLine lines i =
     (if 0 \<le> i \<and> i < int (length lines) then Inr (lines ! nat i) else Inl TypeError)"

text \<open>
  The values a field is set to: a boolean, a string, or a number. \<open>VNum n\<close> is an
  integer-valued number of magnitude below \<open>10^21\<close>, which \<^verbatim>\<open>String(value)\<close> renders
  in plain decimal.
\<close>

datatype jsvalue = VBool bool | VStr jsstring | VNum int

function showNat :: "nat \<Rightarrow> jsstring" where
  "showNat n = (if n < 10 then [48 + int n] else showNat (n div 10) @ [48 + int (n mod 10)])"
  by pat_completeness auto
termination
  by (relation "measure id") auto

definition showInt :: "int \<Rightarrow> jsstring" where
  "showInt i = (if i < 0 then MINUS # showNat (nat (- i)) else showNat (nat i))"

section \<open>The regular expressions of the navigator and the patcher\<close>

fun lastIndexOf :: "jschar \<Rightarrow> jsstring \<Rightarrow> nat option" where
  "lastIndexOf c [] = None"
| "lastIndexOf c (x # xs) =
     (case lastIndexOf c xs of
        Some i \<Rightarrow> Some (Suc i)
      | None \<Rightarrow> if x = c then Some 0 else None)"

text \<open>
  \<^verbatim>\<open>(\S+):\<close> on a maximal run \<open>tok\<close> of non-space characters: the greedy \<^verbatim>\<open>\S+\<close>
  gives characters back until a colon follows it, so it ends before the last colon of
  \<open>tok\<close> that is not its first character. \<open>keyCut\<close> is the index of that colon.
\<close>

definition keyCut :: "jsstring \<Rightarrow> nat option" where
  "keyCut tok =
     (case tok of [] \<Rightarrow> None
      | c # r \<Rightarrow> (case lastIndexOf COLON r of None \<Rightarrow> None | Some i \<Rightarrow> Some (Suc i)))"

text \<open>\<^verbatim>\<open>line.match(/^\s*(\S+):\s*/)\<close>: the captured key \<^verbatim>\<open>m[1]\<close>.\<close>

definition matchKey :: "jsstring \<Rightarrow> jsstring option" where
  "matchKey line =
     (let tok = takeWhile (\<lambda>c. \<not> isSpace c) (dropWhile isSpace line)
      in case keyCut tok of None \<Rightarrow> None | Some i \<Rightarrow> Some (take i tok))"

text \<open>\<^verbatim>\<open>line.match(/^(\s+)(\S+):\s*/)\<close>: the captures \<^verbatim>\<open>(m[1], m[2])\<close>.\<close>

definition matchIndentedKey :: "jsstring \<Rightarrow> (jsstring \<times> jsstring) option" where
  "matchIndentedKey line =
     (let ws = takeWhile isSpace line;
          tok = takeWhile (\<lambda>c. \<not> isSpace c) (dropWhile isSpace line)
      in if ws = [] then None
         else case keyCut tok of None \<Rightarrow> None | Some i \<Rightarrow> Some (ws, take i tok))"

text \<open>
  \<^verbatim>\<open>original.match(/^(\s*\S+:\s*)(.*)$/)\<close>: the captures \<^verbatim>\<open>(m[1], m[2])\<close>. The
  prefix is the leading white space, the key up to its colon and the white space after
  the colon; the rest runs to the end of the string and must hold no line terminator.
\<close>

definition matchKeyValue :: "jsstring \<Rightarrow> (jsstring \<times> jsstring) option" where
  "matchKeyValue original =
     (let ws = takeWhile isSpace original;
          body = dropWhile isSpace original;
          tok = takeWhile (\<lambda>c. \<not> isSpace c) body
      in case keyCut tok of
           None \<Rightarrow> None
         | Some i \<Rightarrow>
             (let after = drop (Suc i) body;
                  rest = dropWhile isSpace after
              in if list_ex isLineTerm rest then None
                 else Some (ws @ take (Suc i) body @ takeWhile isSpace after, rest)))"

text \<open>
  \<^verbatim>\<open>rest.match(/(\s*#.*)$/)\<close>, the comment being \<^verbatim>\<open>m[1]\<close> or the empty string.
  The dot stops at a line terminator and the dollar is the end of the string, so the
  hash is the first one after the last line terminator; the leftmost match starts at the
  white space that precedes it.
\<close>

definition matchTrailingComment :: "jsstring \<Rightarrow> jsstring" where
  "matchTrailingComment rest =
     (let lastLine = rev (takeWhile (\<lambda>c. \<not> isLineTerm c) (rev rest));
          pre = take (length rest - length lastLine) rest @ takeWhile (\<lambda>c. c \<noteq> HASH) lastLine;
          post = dropWhile (\<lambda>c. c \<noteq> HASH) lastLine
      in if post = [] then [] else rev (takeWhile isSpace (rev pre)) @ post)"

section \<open>Indentation tree navigator\<close>

text \<open>A line that the scans skip: blank, or a comment.\<close>

definition skipLine :: "jsstring \<Rightarrow> bool" where
  "skipLine line \<longleftrightarrow> trim line = [] \<or> startsWith (trim line) [HASH]"

function findChildKeyFrom ::
  "jsstring list \<Rightarrow> int \<Rightarrow> int \<Rightarrow> int \<Rightarrow> jsstring \<Rightarrow> error + int" where
  "findChildKeyFrom lines i end parentIndent key =
     (if i < end then
        (case getLine lines i of
           Inl e \<Rightarrow> Inl e
         | Inr line \<Rightarrow>
             if skipLine line then findChildKeyFrom lines (i + 1) end parentIndent key
             else if searchNonSpace line \<le> parentIndent then Inr (- 1)
             else if matchKey line = Some key \<and> searchNonSpace line = parentIndent + 2
               then Inr i
             else findChildKeyFrom lines (i + 1) end parentIndent key)
      else Inr (- 1))"
  by pat_completeness auto
termination
  by (relation "measure (\<lambda>(lines, i, end, parentIndent, key). nat (end - i))") auto

definition findChildKey ::
  "jsstring list \<Rightarrow> int \<Rightarrow> int \<Rightarrow> int \<Rightarrow> jsstring \<Rightarrow> error + int" where
  "findChildKey lines start end parentIndent key =
     findChildKeyFrom lines (start + 1) end parentIndent key"

function findBlockEndFrom :: "jsstring list \<Rightarrow> int \<Rightarrow> int \<Rightarrow> int \<Rightarrow> error + int" where
  "findBlockEndFrom lines i indent maxEnd =
     (if i < maxEnd then
        (case getLine lines i of
           Inl e \<Rightarrow> Inl e
         | Inr line \<Rightarrow>
             if skipLine line then findBlockEndFrom lines (i + 1) indent maxEnd
             else if searchNonSpace line \<le> indent then Inr i
             else findBlockEndFrom lines (i + 1) indent maxEnd)
      else Inr maxEnd)"
  by pat_completeness auto
termination
  by (relation "measure (\<lambda>(lines, i, indent, maxEnd). nat (maxEnd - i))") auto

definition findBlockEnd :: "jsstring list \<Rightarrow> int \<Rightarrow> int \<Rightarrow> int \<Rightarrow> error + int" where
  "findBlockEnd lines start indent maxEnd = findBlockEndFrom lines (start + 1) indent maxEnd"

section \<open>Scalar patcher\<close>

definition formatValue :: "jsstring \<Rightarrow> jsstring \<Rightarrow> jsvalue \<Rightarrow> jsstring" where
  "formatValue rest comment v =
     (case v of
        VBool b \<Rightarrow> (if b then str ''true'' else str ''false'')
      | VStr s \<Rightarrow>
          (let valPart = trim (take (length rest - length comment) rest);
               isQuoted = (startsWith valPart [DQUOTE] \<and> endsWith valPart [DQUOTE]) \<or>
                          (startsWith valPart [SQUOTE] \<and> endsWith valPart [SQUOTE])
           in if isQuoted \<or> COLON \<in> set s \<or> HASH \<in> set s \<or> SPACE \<in> set s
              then [DQUOTE] @ s @ [DQUOTE] else s)
      | VNum n \<Rightarrow> showInt n)"

definition replaceLineValue :: "jsstring list \<Rightarrow> int \<Rightarrow> jsvalue \<Rightarrow> error + jsstring list" where
  "replaceLineValue lines idx v =
     (case getLine lines idx of
        Inl e \<Rightarrow> Inl e
      | Inr original \<Rightarrow>
          (case matchKeyValue original of
             None \<Rightarrow> Inr lines
           | Some (prefix, rest) \<Rightarrow>
               (let comment = matchTrailingComment rest;
                    formatted = formatValue rest comment v
                in Inr (lines[nat idx := prefix @ formatted @ comment]))))"


section \<open>Field insertion and the field update of the schedule document\<close>

text \<open>Sequencing of calls that may throw.\<close>

definition ebind :: "error + 'a \<Rightarrow> ('a \<Rightarrow> error + 'b) \<Rightarrow> error + 'b" where
  "ebind m f = (case m of Inl e \<Rightarrow> Inl e | Inr x \<Rightarrow> f x)"

text \<open>
  \<^verbatim>\<open>lines.splice(start, deleteCount, ...items)\<close> for integer arguments: a negative start
  counts from the end, and both arguments are clamped to the array.
\<close>

definition splice :: "'a list \<Rightarrow> int \<Rightarrow> int \<Rightarrow> 'a list \<Rightarrow> 'a list" where
  "splice xs start deleteCount items =
     (let n = int (length xs);
          s = (if start < 0 then max (n + start) 0 else min start n);
          d = min (max deleteCount 0) (n - s)
      in take (nat s) xs @ items @ drop (nat (s + d)) xs)"

text \<open>The formatting of a new value in \<open>insertTimelineField\<close> (script.js 4438-4441).\<close>

definition formatInserted :: "jsvalue \<Rightarrow> jsstring" where
  "formatInserted v =
     (case v of
        VBool b \<Rightarrow> (if b then str ''true'' else str ''false'')
      | VStr s \<Rightarrow> (if COLON \<in> set s then [DQUOTE] @ s @ [DQUOTE] else s)
      | VNum n \<Rightarrow> showInt n)"

definition insertTimelineField ::
  "jsstring list \<Rightarrow> int \<Rightarrow> int \<Rightarrow> int \<Rightarrow> jsstring \<Rightarrow> jsvalue \<Rightarrow> jsstring list
     \<Rightarrow> error + jsstring list" where
  "insertTimelineField lines targetStart targetEnd targetIndent field v fieldParts =
     (let indent = spaces (targetIndent + 2);
          formatted = formatInserted v
      in if length fieldParts = 1
         then Inr (splice lines targetEnd 0 [indent @ field @ str '': '' @ formatted])
         else ebind (findChildKey lines targetStart targetEnd targetIndent (fieldParts ! 0))
           (\<lambda>parentLine.
              if parentLine \<ge> 0 then
                ebind (getLine lines parentLine) (\<lambda>pl.
                  let parentIndent = searchNonSpace pl in
                  ebind (findBlockEnd lines parentLine parentIndent targetEnd) (\<lambda>parentEnd.
                    let childIndent = spaces (parentIndent + 2) in
                    Inr (splice lines parentEnd 0
                           [childIndent @ (fieldParts ! 1) @ str '': '' @ formatted])))
              else
                Inr (splice lines targetEnd 0
                       [indent @ (fieldParts ! 0) @ str '':'',
                        indent @ str ''  '' @ (fieldParts ! 1) @ str '': '' @ formatted])))"

text \<open>
  The search for \<^verbatim>\<open>custom:\<close> at the start of a line (script.js 4271-4277): the
  index of the first such line, counted from \<open>i\<close>, or -1.
\<close>

fun findCustomLine :: "jsstring list \<Rightarrow> int \<Rightarrow> int" where
  "findCustomLine [] i = - 1"
| "findCustomLine (line # ls) i =
     (if startsWith line (str ''custom:'') then i else findCustomLine ls (i + 1))"

text \<open>
  The search for the preset under \<^verbatim>\<open>presets:\<close> (script.js 4280-4298): the pair
  \<open>(sectionStart, sectionIndent)\<close>, with \<open>sectionStart = -1\<close> when the loop ends or
  leaves the presets block without a match.
\<close>

fun findPresetLine :: "jsstring \<Rightarrow> jsstring list \<Rightarrow> int \<Rightarrow> bool \<Rightarrow> int \<times> int" where
  "findPresetLine presetName [] i inPresets = (- 1, 0)"
| "findPresetLine presetName (line # ls) i inPresets =
     (if startsWith line (str ''presets:'') then findPresetLine presetName ls (i + 1) True
      else if inPresets \<and> (line \<noteq> [] \<and> \<not> isSpace (hd line)) \<and> \<not> startsWith line [HASH]
        then (- 1, 0)
      else if inPresets then
        (case matchIndentedKey line of
           Some (ws, k) \<Rightarrow>
             if k = presetName then (i, int (length ws))
             else findPresetLine presetName ls (i + 1) inPresets
         | None \<Rightarrow> findPresetLine presetName ls (i + 1) inPresets)
      else findPresetLine presetName ls (i + 1) inPresets)"

definition locateSectionStart :: "jsstring \<Rightarrow> jsstring list \<Rightarrow> int \<times> int" where
  "locateSectionStart presetName lines =
     (if presetName = str ''custom'' then (findCustomLine lines 0, 0)
      else findPresetLine presetName lines 0 False)"

text \<open>
  Step 3 of \<open>updateTimelineField\<close> (script.js 4319-4329): the line of the targeted
  block; \<open>None\<close> is the early return taken when the section has no \<^verbatim>\<open>periods:\<close> key.
\<close>

definition locateTarget ::
  "jsstring list \<Rightarrow> int \<Rightarrow> int \<Rightarrow> int \<Rightarrow> jsstring \<Rightarrow> error + int option" where
  "locateTarget lines sectionStart sectionEnd sectionIndent periodKey =
     (if periodKey = str ''default''
      then ebind (findChildKey lines sectionStart sectionEnd sectionIndent (str ''default''))
             (\<lambda>targetStart. Inr (Some targetStart))
      else ebind (findChildKey lines sectionStart sectionEnd sectionIndent (str ''periods''))
        (\<lambda>periodsLine.
           if periodsLine < 0 then Inr None
           else ebind (getLine lines periodsLine) (\<lambda>pl.
             let periodsIndent = searchNonSpace pl in
             ebind (findBlockEnd lines periodsLine periodsIndent sectionEnd) (\<lambda>periodsEnd.
               ebind (findChildKey lines periodsLine periodsEnd periodsIndent periodKey)
                 (\<lambda>targetStart. Inr (Some targetStart))))))"

text \<open>Step 4 (script.js 4337-4349): the line of the field inside the target, or -1.\<close>

definition locateField ::
  "jsstring list \<Rightarrow> int \<Rightarrow> int \<Rightarrow> int \<Rightarrow> jsstring list \<Rightarrow> error + int" where
  "locateField lines targetStart targetEnd targetIndent fieldParts =
     (if length fieldParts = 1
      then findChildKey lines targetStart targetEnd targetIndent (fieldParts ! 0)
      else ebind (findChildKey lines targetStart targetEnd targetIndent (fieldParts ! 0))
        (\<lambda>parentLine.
           if parentLine \<ge> 0 then
             ebind (getLine lines parentLine) (\<lambda>pl.
               let parentIndent = searchNonSpace pl in
               ebind (findBlockEnd lines parentLine parentIndent targetEnd) (\<lambda>parentEnd.
                 findChildKey lines parentLine parentEnd parentIndent (fieldParts ! 1)))
           else Inr (- 1)))"

text \<open>
  \<open>updateTimelineField\<close> on the text of the editor: the result is the text of the editor
  after the call. An early \<^verbatim>\<open>return\<close> leaves the editor as it was; otherwise the
  editor receives the joined lines. The loop that finds the end of the section
  (script.js 4304-4313) is the loop of \<open>findBlockEnd\<close> run up to the end of the document.
\<close>

definition updateTimelineField ::
  "jsstring \<Rightarrow> jsstring \<Rightarrow> jsstring \<Rightarrow> jsvalue \<Rightarrow> jsstring \<Rightarrow> error + jsstring" where
  "updateTimelineField presetName periodKey field v yaml =
     (let lines = splitOn LF yaml;
          (sectionStart, sectionIndent) = locateSectionStart presetName lines
      in if sectionStart < 0 then Inr yaml
         else
           ebind (findBlockEndFrom lines (sectionStart + 1) sectionIndent (int (length lines)))
             (\<lambda>sectionEnd.
           let fieldParts = splitOn DOT field in
           ebind (locateTarget lines sectionStart sectionEnd sectionIndent periodKey)
             (\<lambda>target.
           case target of
             None \<Rightarrow> Inr yaml
           | Some targetStart \<Rightarrow>
               if targetStart < 0 then Inr yaml
               else
                 ebind (getLine lines targetStart) (\<lambda>tline.
                 let targetIndent = searchNonSpace tline in
                 ebind (findBlockEnd lines targetStart targetIndent sectionEnd) (\<lambda>targetEnd.
                 ebind (locateField lines targetStart targetEnd targetIndent fieldParts)
                   (\<lambda>lineIdx.
                 ebind (if lineIdx < 0
                        then insertTimelineField lines targetStart targetEnd targetIndent
                               field v fieldParts
                        else replaceLineValue lines lineIdx v)
                   (\<lambda>lines'. Inr (joinWith [LF] lines'))))))))"

section \<open>Section operations on day plans and periods\<close>

text \<open>
  The search of \<open>findPresetSection\<close> under \<^verbatim>\<open>presets:\<close> (script.js 5173-5182); it
  differs from the one of \<open>updateTimelineField\<close> by the test that the line is not blank.
\<close>

fun findPresetSectionLine :: "jsstring \<Rightarrow> jsstring list \<Rightarrow> int \<Rightarrow> bool \<Rightarrow> int \<times> int" where
  "findPresetSectionLine presetName [] i inPresets = (- 1, 0)"
| "findPresetSectionLine presetName (line # ls) i inPresets =
     (if startsWith line (str ''presets:'')
        then findPresetSectionLine presetName ls (i + 1) True
      else if inPresets \<and> (line \<noteq> [] \<and> \<not> isSpace (hd line)) \<and> \<not> startsWith line [HASH] \<and>
              trim line \<noteq> []
        then (- 1, 0)
      else if inPresets then
        (case matchIndentedKey line of
           Some (ws, k) \<Rightarrow>
             if k = presetName then (i, int (length ws))
             else findPresetSectionLine presetName ls (i + 1) inPresets
         | None \<Rightarrow> findPresetSectionLine presetName ls (i + 1) inPresets)
      else findPresetSectionLine presetName ls (i + 1) inPresets)"

text \<open>\<open>findPresetSection\<close>: \<open>None\<close> is \<^verbatim>\<open>null\<close>, \<open>Some (start, end, indent)\<close> the section.\<close>

definition findPresetSection ::
  "jsstring list \<Rightarrow> jsstring \<Rightarrow> error + (int \<times> int \<times> int) option" where
  "findPresetSection lines presetName =
     (let (start, indent) =
            (if presetName = str ''custom'' then (findCustomLine lines 0, 0)
             else findPresetSectionLine presetName lines 0 False)
      in if start < 0 then Inr None
         else ebind (findBlockEndFrom lines (start + 1) indent (int (length lines)))
                (\<lambda>end. Inr (Some (start, end, indent))))"

text \<open>
  \<^verbatim>\<open>line.match(/^(\s*)-\s*(\S+)\s*$/)\<close>: the captures \<^verbatim>\<open>(m[1], m[2])\<close> of a list
  item that holds one token and nothing after it.
\<close>

definition matchListItem :: "jsstring \<Rightarrow> (jsstring \<times> jsstring) option" where
  "matchListItem line =
     (case dropWhile isSpace line of
        [] \<Rightarrow> None
      | c # r \<Rightarrow>
          if c = MINUS then
            (let r2 = dropWhile isSpace r;
                 tok = takeWhile (\<lambda>c. \<not> isSpace c) r2;
                 rest = dropWhile (\<lambda>c. \<not> isSpace c) r2
             in if tok \<noteq> [] \<and> list_all isSpace rest
                then Some (takeWhile isSpace line, tok) else None)
          else None)"

text \<open>
  \<^verbatim>\<open>line.match(/^(\s*periods:\s*)\[([^\]]*)\]/)\<close>: the captures \<^verbatim>\<open>(m[1], m[2])\<close>, the
  second one running to the first closing bracket.
\<close>

definition matchInlinePeriods :: "jsstring \<Rightarrow> (jsstring \<times> jsstring) option" where
  "matchInlinePeriods line =
     (let ws = takeWhile isSpace line;
          r = dropWhile isSpace line
      in if startsWith r (str ''periods:'') then
           (let r1 = drop 8 r;
                ws2 = takeWhile isSpace r1
            in case dropWhile isSpace r1 of
                 [] \<Rightarrow> None
               | c # r3 \<Rightarrow>
                   if c = LBRACKET \<and> RBRACKET \<in> set r3
                   then Some (ws @ str ''periods:'' @ ws2, takeWhile (\<lambda>c. c \<noteq> RBRACKET) r3)
                   else None)
         else None)"

text \<open>\<^verbatim>\<open>s.replace(/^["']|["']$/g, '')\<close>: a quote at the start and a quote at the end go.\<close>

definition stripQuotes :: "jsstring \<Rightarrow> jsstring" where
  "stripQuotes s =
     (let s1 = (case s of [] \<Rightarrow> [] | c # r \<Rightarrow> if c = DQUOTE \<or> c = SQUOTE then r else s)
      in if s1 \<noteq> [] \<and> (last s1 = DQUOTE \<or> last s1 = SQUOTE) then butlast s1 else s1)"

text \<open>The new text of an inline list line without the period (script.js 5220-5226).\<close>

definition rewriteInline :: "jsstring \<Rightarrow> jsstring \<Rightarrow> jsstring \<Rightarrow> jsstring" where
  "rewriteInline pre content periodKey =
     (let items = filter (\<lambda>s. stripQuotes s \<noteq> [] \<and> stripQuotes s \<noteq> periodKey)
                    (map trim (splitOn COMMA content))
      in if length items > 0
         then pre @ [LBRACKET] @ joinWith (str '', '') items @ [RBRACKET]
         else pre @ str ''[]'')"

text \<open>
  The loop of \<open>removePeriodFromDayPlans\<close> (script.js 5209-5228). The bound \<open>dpEnd\<close> was
  computed before the loop and is not adjusted when a line is removed.
\<close>

function removePeriodLoop ::
  "jsstring list \<Rightarrow> int \<Rightarrow> int \<Rightarrow> jsstring \<Rightarrow> error + jsstring list" where
  "removePeriodLoop lines i dpEnd periodKey =
     (if i < dpEnd then
        (case getLine lines i of
           Inl e \<Rightarrow> Inl e
         | Inr line \<Rightarrow>
             if skipLine line then removePeriodLoop lines (i + 1) dpEnd periodKey
             else if (case matchListItem line of
                        Some (ws, item) \<Rightarrow> item = periodKey | None \<Rightarrow> False)
               then removePeriodLoop (splice lines i 1 []) i dpEnd periodKey
             else
               (case matchInlinePeriods line of
                  Some (pre, content) \<Rightarrow>
                    removePeriodLoop (lines[nat i := rewriteInline pre content periodKey])
                      (i + 1) dpEnd periodKey
                | None \<Rightarrow> removePeriodLoop lines (i + 1) dpEnd periodKey))
      else Inr lines)"
  by pat_completeness auto
termination
  by (relation "measure (\<lambda>(lines, i, dpEnd, periodKey). nat (dpEnd - i) + length lines)")
     (auto simp: getLine_def splice_def Let_def split: if_splits)

definition removePeriodFromDayPlans ::
  "jsstring list \<Rightarrow> int \<times> int \<times> int \<Rightarrow> jsstring \<Rightarrow> error + jsstring list" where
  "removePeriodFromDayPlans lines sectionInfo periodKey =
     (case sectionInfo of (start, end, indent) \<Rightarrow>
        ebind (findChildKey lines start end indent (str ''day_plans'')) (\<lambda>dayPlansLine.
          if dayPlansLine < 0 then Inr lines
          else
            ebind (getLine lines dayPlansLine) (\<lambda>dl.
            let dpIndent = searchNonSpace dl in
            ebind (findBlockEnd lines start indent (int (length lines))) (\<lambda>sectionEnd.
            ebind (findBlockEnd lines dayPlansLine dpIndent sectionEnd) (\<lambda>dpEnd.
              removePeriodLoop lines (dayPlansLine + 1) dpEnd periodKey)))))"

text \<open>
  The removal of the period's block in \<open>deleteTlPeriod\<close> (script.js 4827-4837): the
  lines after the removal.
\<close>

definition removePeriodBlock ::
  "jsstring list \<Rightarrow> int \<times> int \<times> int \<Rightarrow> jsstring \<Rightarrow> error + jsstring list" where
  "removePeriodBlock lines sectionInfo periodKey =
     (case sectionInfo of (start, end, indent) \<Rightarrow>
        ebind (findChildKey lines start end indent (str ''periods'')) (\<lambda>periodsLine.
          if periodsLine \<ge> 0 then
            ebind (getLine lines periodsLine) (\<lambda>pl.
            let periodsIndent = searchNonSpace pl in
            ebind (findBlockEnd lines periodsLine periodsIndent end) (\<lambda>periodsEnd.
            ebind (findChildKey lines periodsLine periodsEnd periodsIndent periodKey) (\<lambda>periodLine.
              if periodLine \<ge> 0 then
                ebind (getLine lines periodLine) (\<lambda>ql.
                let periodIndent = searchNonSpace ql in
                ebind (findBlockEnd lines periodLine periodIndent periodsEnd) (\<lambda>periodEnd.
                  Inr (splice lines periodLine (periodEnd - periodLine) [])))
              else Inr lines)))
          else Inr lines))"

text \<open>
  \<open>deleteTlPeriod\<close> on the text of the editor. The document reader and the dialog are
  outside this file: \<open>configFound\<close> says that the reader found the preset, \<open>refs\<close> is the
  list of day plans whose period list holds the period according to the reader, and
  \<open>confirmed\<close> is the answer to the dialog. The result is the text of the editor after
  the call; \<open>Inl\<close> is a call that throws, which leaves the editor as it was.
\<close>

definition deleteTlPeriod ::
  "jsstring \<Rightarrow> jsstring \<Rightarrow> bool \<Rightarrow> jsstring list \<Rightarrow> bool \<Rightarrow> jsstring \<Rightarrow> error + jsstring" where
  "deleteTlPeriod presetName periodKey configFound refs confirmed yaml =
     (if \<not> configFound then Inr yaml
      else if \<not> confirmed then Inr yaml
      else
        (let lines = splitOn LF yaml in
         ebind (findPresetSection lines presetName) (\<lambda>sectionInfo.
           case sectionInfo of
             None \<Rightarrow> Inr yaml
           | Some sec \<Rightarrow>
               ebind (removePeriodBlock lines sec periodKey) (\<lambda>lines1.
               ebind (if length refs > 0 then
                        ebind (findPresetSection lines1 presetName) (\<lambda>updatedSection.
                          case updatedSection of
                            Some usec \<Rightarrow> removePeriodFromDayPlans lines1 usec periodKey
                          | None \<Rightarrow> Inr lines1)
                      else Inr lines1) (\<lambda>lines2.
                 Inr (joinWith [LF] lines2))))))"




section \<open>Frequency rule parser\<close>

text \<open>
  \<^verbatim>\<open>trimmed.match(/^\[([^\]]+)\]$/)\<close>: the captured label \<^verbatim>\<open>m[1]\<close>, a non-empty
  string without a closing bracket between an opening and a closing bracket.
\<close>

definition matchGroupName :: "jsstring \<Rightarrow> jsstring option" where
  "matchGroupName t =
     (case t of
        [] \<Rightarrow> None
      | c # r \<Rightarrow>
          if c = LBRACKET \<and> r \<noteq> [] \<and> last r = RBRACKET \<and> butlast r \<noteq> [] \<and>
             RBRACKET \<notin> set (butlast r)
          then Some (butlast r) else None)"

text \<open>
  \<^verbatim>\<open>trimmed.match(/^(.+?)\s*=>\s*(.*)$/)\<close>. \<open>aliasTail s\<close> matches
  \<^verbatim>\<open>\s*=>\s*(.*)$\<close> at the start of \<open>s\<close> and gives the capture. The lazy \<^verbatim>\<open>.+?\<close>
  takes one character first and is extended by one character, never a line terminator,
  as long as the tail does not match.
\<close>

definition aliasTail :: "jsstring \<Rightarrow> jsstring option" where
  "aliasTail s =
     (let s1 = dropWhile isSpace s
      in if startsWith s1 (str ''=>'')
         then (let r = dropWhile isSpace (drop 2 s1)
               in if list_ex isLineTerm r then None else Some r)
         else None)"

fun matchAliasFrom :: "jsstring \<Rightarrow> jsstring \<Rightarrow> (jsstring \<times> jsstring) option" where
  "matchAliasFrom pre [] = (case aliasTail [] of Some a \<Rightarrow> Some (pre, a) | None \<Rightarrow> None)"
| "matchAliasFrom pre (c # s) =
     (case aliasTail (c # s) of
        Some a \<Rightarrow> Some (pre, a)
      | None \<Rightarrow> if isLineTerm c then None else matchAliasFrom (pre @ [c]) s)"

definition matchAlias :: "jsstring \<Rightarrow> (jsstring \<times> jsstring) option" where
  "matchAlias t =
     (case t of [] \<Rightarrow> None
      | c # s \<Rightarrow> if isLineTerm c then None else matchAliasFrom [c] s)"

datatype groupType = GroupName | Alias | AliasGroup | Plain

text \<open>
  A word group. Fields that the source leaves undefined are \<open>None\<close>, the empty list or
  \<open>False\<close>: \<open>name\<close> outside a group-name group, \<open>keywords\<close> in an alias group,
  \<open>items\<close> in a keyword group, and the three related-group fields before a flush sets them.
\<close>

record wordGroup =
  gtype :: groupType
  name :: "jsstring option"
  "keywords" :: "jsstring list"
  items :: "(jsstring \<times> jsstring) list"
  startLine :: nat
  precedingComments :: "jsstring list"
  isRelatedGroup :: bool
  relatedGroupIndex :: "nat option"
  relatedGroupTotal :: "nat option"

record frequencyData =
  globalFilter :: "jsstring list"
  wordGroups :: "wordGroup list"
  originalText :: jsstring

datatype ruleSection = Global | Groups

record parseState =
  result :: frequencyData
  currentSection :: "ruleSection option"
  currentGroup :: "wordGroup option"
  lastLineWasAlias :: bool
  relatedGroupsBuffer :: "wordGroup list"
  pendingComments :: "jsstring list"

definition flushRelatedGroups :: "parseState \<Rightarrow> parseState" where
  "flushRelatedGroups st =
     (let buf = relatedGroupsBuffer st
      in if length buf > 0 then
           (let marked =
                  (if length buf > 1
                   then map (\<lambda>(idx, g). g\<lparr>isRelatedGroup := True,
                                           relatedGroupIndex := Some idx,
                                           relatedGroupTotal := Some (length buf)\<rparr>)
                            (enumerate 0 buf)
                   else buf)
            in st\<lparr>result := (result st)\<lparr>wordGroups := wordGroups (result st) @ marked\<rparr>,
                  relatedGroupsBuffer := []\<rparr>)
         else st)"

text \<open>\<^verbatim>\<open>if (currentGroup) relatedGroupsBuffer.push(currentGroup)\<close>\<close>

definition pushCurrentGroup :: "parseState \<Rightarrow> parseState" where
  "pushCurrentGroup st =
     (case currentGroup st of
        None \<Rightarrow> st
      | Some g \<Rightarrow> st\<lparr>relatedGroupsBuffer := relatedGroupsBuffer st @ [g]\<rparr>)"

definition newGroup :: "groupType \<Rightarrow> nat \<Rightarrow> jsstring list \<Rightarrow> wordGroup" where
  "newGroup t i pending =
     \<lparr>gtype = t, name = None, keywords = [], items = [], startLine = i,
      precedingComments = pending, isRelatedGroup = False,
      relatedGroupIndex = None, relatedGroupTotal = None\<rparr>"

text \<open>A bracketed label that starts a group-name group (script.js 1362-1377).\<close>

definition startGroupName :: "nat \<Rightarrow> jsstring \<Rightarrow> parseState \<Rightarrow> parseState" where
  "startGroupName i nm st =
     (let st1 = flushRelatedGroups (pushCurrentGroup st)
      in st1\<lparr>currentGroup := Some ((newGroup GroupName i (pendingComments st1))\<lparr>name := Some nm\<rparr>),
             pendingComments := [],
             lastLineWasAlias := False\<rparr>)"

text \<open>A line \<^verbatim>\<open>keyword => alias\<close> (script.js 1382-1407).\<close>

definition parseAliasLine :: "nat \<Rightarrow> jsstring \<Rightarrow> jsstring \<Rightarrow> parseState \<Rightarrow> parseState" where
  "parseAliasLine i keyword alias st =
     (let st1 =
        (case currentGroup st of
           Some g \<Rightarrow>
             if lastLineWasAlias st \<and> (gtype g = Alias \<or> gtype g = AliasGroup)
             then st\<lparr>currentGroup :=
                       Some (g\<lparr>gtype := AliasGroup, items := items g @ [(keyword, alias)]\<rparr>)\<rparr>
             else (let st0 = pushCurrentGroup st
                   in st0\<lparr>currentGroup :=
                            Some ((newGroup Alias i (pendingComments st0))
                                    \<lparr>items := [(keyword, alias)]\<rparr>),
                          pendingComments := []\<rparr>)
         | None \<Rightarrow>
             st\<lparr>currentGroup :=
                  Some ((newGroup Alias i (pendingComments st))\<lparr>items := [(keyword, alias)]\<rparr>),
                pendingComments := []\<rparr>)
      in st1\<lparr>lastLineWasAlias := True\<rparr>)"

text \<open>A bare keyword (script.js 1410-1425).\<close>

definition parseKeywordLine :: "nat \<Rightarrow> jsstring \<Rightarrow> parseState \<Rightarrow> parseState" where
  "parseKeywordLine i trimmed st =
     (let st1 =
        (if currentGroup st = None \<or>
            (case currentGroup st of
               Some g \<Rightarrow> gtype g = Alias \<or> gtype g = AliasGroup | None \<Rightarrow> False)
         then (let st0 = pushCurrentGroup st
               in st0\<lparr>currentGroup := Some (newGroup Plain i (pendingComments st0)),
                      pendingComments := []\<rparr>)
         else st)
      in st1\<lparr>currentGroup :=
               map_option (\<lambda>g. g\<lparr>keywords := keywords g @ [trimmed]\<rparr>) (currentGroup st1),
             lastLineWasAlias := False\<rparr>)"

text \<open>One round of the loop over the lines (script.js 1315-1429).\<close>

definition parseLine :: "nat \<Rightarrow> jsstring \<Rightarrow> parseState \<Rightarrow> parseState" where
  "parseLine i line st =
     (let trimmed = trim line
      in if startsWith trimmed [HASH] \<and> currentSection st = Some Groups
           then st\<lparr>pendingComments := pendingComments st @ [line]\<rparr>
         else if startsWith trimmed [HASH] then st
         else if trimmed = [] then
           (let st1 = (case currentGroup st of
                         Some g \<Rightarrow> st\<lparr>relatedGroupsBuffer := relatedGroupsBuffer st @ [g],
                                       currentGroup := None\<rparr>
                       | None \<Rightarrow> st);
                st2 = (flushRelatedGroups st1)\<lparr>lastLineWasAlias := False\<rparr>
            in if currentSection st2 = Some Groups
               then st2\<lparr>pendingComments := pendingComments st2 @ [[]]\<rparr>
               else st2)
         else if trimmed = str ''[GLOBAL_FILTER]'' then st\<lparr>currentSection := Some Global\<rparr>
         else if trimmed = str ''[WORD_GROUPS]'' then st\<lparr>currentSection := Some Groups\<rparr>
         else if currentSection st = Some Global
           then st\<lparr>result := (result st)\<lparr>globalFilter := globalFilter (result st) @ [trimmed]\<rparr>\<rparr>
         else if currentSection st = Some Groups then
           (case (case matchGroupName trimmed of
                    Some nm \<Rightarrow>
                      if nm \<in> set [str ''GLOBAL_FILTER'', str ''WORD_GROUPS''] then None
                      else Some nm
                  | None \<Rightarrow> None) of
              Some nm \<Rightarrow> startGroupName i nm st
            | None \<Rightarrow>
                (case matchAlias trimmed of
                   Some (k, a) \<Rightarrow> parseAliasLine i (trim k) (trim a) st
                 | None \<Rightarrow> parseKeywordLine i trimmed st))
         else st)"

fun parseLines :: "nat \<Rightarrow> jsstring list \<Rightarrow> parseState \<Rightarrow> parseState" where
  "parseLines i [] st = st"
| "parseLines i (line # ls) st = parseLines (Suc i) ls (parseLine i line st)"

definition initialState :: "jsstring \<Rightarrow> parseState" where
  "initialState text' =
     \<lparr>result = \<lparr>globalFilter = [], wordGroups = [], originalText = text'\<rparr>,
      currentSection = None, currentGroup = None, lastLineWasAlias = False,
      relatedGroupsBuffer = [], pendingComments = []\<rparr>"

definition parseFrequencyText :: "jsstring \<Rightarrow> frequencyData" where
  "parseFrequencyText text' =
     result (flushRelatedGroups (pushCurrentGroup
               (parseLines 0 (splitOn LF text') (initialState text'))))"

section \<open>Frequency rule builder\<close>

definition isCommentOrBlank :: "jsstring \<Rightarrow> bool" where
  "isCommentOrBlank line \<longleftrightarrow> startsWith (trim line) [HASH] \<or> trim line = []"

text \<open>The lines of one group: its preceding comments, then its body (script.js 1500-1524).\<close>

definition emitGroup :: "wordGroup \<Rightarrow> jsstring list" where
  "emitGroup g =
     precedingComments g @
     (case gtype g of
        GroupName \<Rightarrow>
          (case name g of
             Some nm \<Rightarrow> if nm \<noteq> [] then [[LBRACKET] @ nm @ [RBRACKET]] else []
           | None \<Rightarrow> []) @ keywords g
      | Alias \<Rightarrow> map (\<lambda>(k, a). k @ str '' => '' @ a) (items g)
      | AliasGroup \<Rightarrow> map (\<lambda>(k, a). k @ str '' => '' @ a) (items g)
      | Plain \<Rightarrow> keywords g)"

text \<open>The blank line after a group, or none (script.js 1529-1547).\<close>

definition separator :: "wordGroup \<Rightarrow> wordGroup option \<Rightarrow> jsstring list" where
  "separator g nextGroup =
     (let isLastGroup = (nextGroup = None);
          bothAreRelatedGroups =
            (isRelatedGroup g \<and> (case nextGroup of Some n \<Rightarrow> isRelatedGroup n | None \<Rightarrow> False));
          nextHasComments =
            (case nextGroup of Some n \<Rightarrow> precedingComments n \<noteq> [] | None \<Rightarrow> False)
      in if bothAreRelatedGroups then []
         else if \<not> isLastGroup \<and> \<not> nextHasComments then [[]]
         else if isLastGroup then [[]]
         else [])"

fun emitGroups :: "wordGroup list \<Rightarrow> jsstring list" where
  "emitGroups [] = []"
| "emitGroups (g # gs) =
     emitGroup g @ separator g (case gs of [] \<Rightarrow> None | n # _ \<Rightarrow> Some n) @ emitGroups gs"

text \<open>The head of the default template (script.js 1554-1556).\<close>

definition templateHeader :: jsstring where
  "templateHeader =
     str ''# '' @ replicate 63 9552 @ [LF] @
     str ''#'' @ replicate 20 SPACE @ str ''TrendRadar '' @
       [39057, 29575, 35789, 37197, 32622, 25991, 20214] @ [LF] @
     str ''# '' @ replicate 63 9552 @ [LF, LF]"

definition buildFrequencyText :: "frequencyData \<Rightarrow> jsstring" where
  "buildFrequencyText data =
     (if originalText data \<noteq> [] then
        (let lines = splitOn LF (originalText data);
             header = takeWhile (\<lambda>l. trim l \<noteq> str ''[GLOBAL_FILTER]'') lines;
             afterMarker = drop (length header + 1) lines;
             leading = takeWhile isCommentOrBlank afterMarker;
             oldGlobal = takeWhile (\<lambda>l. trim l \<noteq> str ''[WORD_GROUPS]'')
                            (dropWhile isCommentOrBlank afterMarker)
         in joinWith [LF]
              (header @ [str ''[GLOBAL_FILTER]''] @ leading @ globalFilter data @
               filter isCommentOrBlank oldGlobal @ [str ''[WORD_GROUPS]''] @
               emitGroups (wordGroups data)))
      else
        templateHeader @ str ''[GLOBAL_FILTER]'' @ [LF] @
        concat (map (\<lambda>f. f @ [LF]) (globalFilter data)) @ [LF, LF] @
        str ''[WORD_GROUPS]'' @ [LF, LF] @
        concat (map (\<lambda>l. l @ [LF]) (emitGroups (wordGroups data))))"

text \<open>What the round trip compares: type, label, keywords, alias pairs and the flag.\<close>

definition groupShape ::
  "wordGroup \<Rightarrow> groupType \<times> jsstring option \<times> jsstring list \<times> (jsstring \<times> jsstring) list \<times> bool" where
  "groupShape g = (gtype g, name g, keywords g, items g, isRelatedGroup g)"

section \<open>Related-group marking\<close>

text \<open>
  A group without the related-group fields; a run of at least two groups that carry the
  flag, their position in the run and the length of the run; and a group list that is a
  sequence of unflagged single groups and of such runs.
\<close>

definition unflagged :: "wordGroup \<Rightarrow> bool" where
  "unflagged g \<longleftrightarrow>
     \<not> isRelatedGroup g \<and> relatedGroupIndex g = None \<and> relatedGroupTotal g = None"

definition relatedRun :: "wordGroup list \<Rightarrow> bool" where
  "relatedRun run \<longleftrightarrow>
     2 \<le> length run \<and>
     (\<forall>i < length run. isRelatedGroup (run ! i) \<and> relatedGroupIndex (run ! i) = Some i \<and>
                        relatedGroupTotal (run ! i) = Some (length run))"

definition wellMarked :: "wordGroup list \<Rightarrow> bool" where
  "wellMarked gs \<longleftrightarrow>
     (\<exists>runs. gs = concat runs \<and>
            (\<forall>run \<in> set runs. (\<exists>g. run = [g] \<and> unflagged g) \<or> relatedRun run))"

definition parseInv :: "parseState \<Rightarrow> bool" where
  "parseInv st \<longleftrightarrow>
     wellMarked (wordGroups (result st)) \<and>
     (\<forall>g \<in> set (relatedGroupsBuffer st). unflagged g) \<and>
     (\<forall>g. currentGroup st = Some g \<longrightarrow> unflagged g)"

section \<open>Kinds of rule lines\<close>

text \<open>
  A line that the parser, inside the word-groups section, reads as \<^verbatim>\<open>keyword => alias\<close>
  with the captures \<open>k\<close> and \<open>a\<close>, a line that it reads as a bare keyword, and a line
  that it reads as the bracketed label \<open>nm\<close> of a group. \<open>rulePrefix\<close> is the two section
  markers, each on its own line.
\<close>

definition isAliasLine :: "jsstring \<Rightarrow> jsstring \<Rightarrow> jsstring \<Rightarrow> bool" where
  "isAliasLine l k a \<longleftrightarrow>
     LF \<notin> set l \<and> trim l \<noteq> [] \<and> \<not> startsWith (trim l) [HASH] \<and>
     trim l \<noteq> str ''[GLOBAL_FILTER]'' \<and> trim l \<noteq> str ''[WORD_GROUPS]'' \<and>
     matchGroupName (trim l) = None \<and> matchAlias (trim l) = Some (k, a)"

definition isKeywordLine :: "jsstring \<Rightarrow> bool" where
  "isKeywordLine l \<longleftrightarrow>
     LF \<notin> set l \<and> trim l \<noteq> [] \<and> \<not> startsWith (trim l) [HASH] \<and>
     trim l \<noteq> str ''[GLOBAL_FILTER]'' \<and> trim l \<noteq> str ''[WORD_GROUPS]'' \<and>
     matchGroupName (trim l) = None \<and> matchAlias (trim l) = None"

definition isLabelLine :: "jsstring \<Rightarrow> jsstring \<Rightarrow> bool" where
  "isLabelLine l nm \<longleftrightarrow>
     LF \<notin> set l \<and> trim l \<noteq> [] \<and> \<not> startsWith (trim l) [HASH] \<and>
     trim l \<noteq> str ''[GLOBAL_FILTER]'' \<and> trim l \<noteq> str ''[WORD_GROUPS]'' \<and>
     matchGroupName (trim l) = Some nm \<and>
     nm \<notin> set [str ''GLOBAL_FILTER'', str ''WORD_GROUPS'']"

definition rulePrefix :: jsstring where
  "rulePrefix = str ''[GLOBAL_FILTER]'' @ [LF] @ str ''[WORD_GROUPS]'' @ [LF]"

definition groupsState :: "jsstring \<Rightarrow> parseState" where
  "groupsState t = (initialState t)\<lparr>currentSection := Some Groups\<rparr>"

section \<open>Sample documents\<close>

definition navDoc :: "jsstring list" where
  "navDoc = [str ''presets:'', str ''  a:'', str '''', str ''    # note'', str ''    x: 1'',
             str ''    y: 2'', str ''  b:'', str ''    y: 3'']"

definition navDeep :: "jsstring list" where
  \<open>navDeep = [str ''custom:'', str ''  periods:'', str ''    morning:'', str ''      start: "08:00"'',
               str ''# a note at the left margin'', str '''', str ''  day_plans:'', str ''    workday:'',
               str ''week_map:'']\<close>

definition patchDoc :: "jsstring list" where
  "patchDoc = [str ''a:'', str ''  key: 5  # keep me'', str ''  other: x'']"

definition shapelessDoc :: "jsstring list" where
  "shapelessDoc = [str '''', str ''# a comment'', str ''  - item'', str ''key: 1'']"

definition tlNoCustom :: jsstring where
  \<open>tlNoCustom = str ''presets:\<newline>  office:\<newline>    periods:\<newline>      morning:\<newline>        start: "08:00"''\<close>

definition tlNoPeriods :: jsstring where
  \<open>tlNoPeriods = str ''custom:\<newline>  morning:\<newline>    start: "08:00"''\<close>

definition tlDayPlan :: jsstring where
  \<open>tlDayPlan = str ''custom:\<newline>  periods:\<newline>    morning:\<newline>      start: "08:00"\<newline>  day_plans:\<newline>    workday:\<newline>      periods: [morning]''\<close>

definition tlCustom :: jsstring where
  \<open>tlCustom = str ''custom:\<newline>  periods:\<newline>    morning:\<newline>      start: "08:00"\<newline>  day_plans: {}''\<close>




definition dpQuoted :: jsstring where
  \<open>dpQuoted = str ''custom:\<newline>  periods:\<newline>    morning:\<newline>      name: "Morning"\<newline>    evening:\<newline>      name: "Evening"\<newline>  day_plans:\<newline>    workday:\<newline>      periods:\<newline>        - "morning"\<newline>        - "evening"\<newline>    weekend:\<newline>      periods: ["morning"]\<newline>  week_map:\<newline>    1: workday\<newline>''\<close>

definition dpLast :: jsstring where
  \<open>dpLast = str ''custom:\<newline>  periods:\<newline>    morning:\<newline>      name: "Morning"\<newline>  day_plans:\<newline>    workday:\<newline>      periods:\<newline>        - morning''\<close>

definition ruleDoc :: jsstring where
  \<open>ruleDoc = str ''[GLOBAL_FILTER]\<newline>spam\<newline>\<newline>[WORD_GROUPS]\<newline># comment A\<newline>foo\<newline>bar\<newline>\<newline>/x|y/ => Z\<newline>''\<close>

section \<open>Basic facts about the string functions\<close>

declare findChildKeyFrom.simps [simp del]
declare findBlockEndFrom.simps [simp del]
declare showNat.simps [simp del]

lemma getLine_Inr:
  "getLine lines i = Inr l \<Longrightarrow> 0 \<le> i \<and> i < int (length lines) \<and> l = lines ! nat i"
  by (auto simp: getLine_def split: if_splits)

lemma getLine_in: "0 \<le> i \<Longrightarrow> i < int (length lines) \<Longrightarrow> getLine lines i = Inr (lines ! nat i)"
  by (simp add: getLine_def)

lemma takeWhile_block:
  "list_all P xs \<Longrightarrow> ys = [] \<or> \<not> P (hd ys) \<Longrightarrow> takeWhile P (xs @ ys) = xs"
  by (induction xs) (auto simp: takeWhile_eq_Nil_iff neq_Nil_conv)

lemma dropWhile_block:
  "list_all P xs \<Longrightarrow> ys = [] \<or> \<not> P (hd ys) \<Longrightarrow> dropWhile P (xs @ ys) = ys"
  by (induction xs) (auto simp: dropWhile_eq_self_iff neq_Nil_conv)

lemma lastIndexOf_snoc: "lastIndexOf c (xs @ [c]) = Some (length xs)"
  by (induction xs) auto

lemma lastIndexOf_None: "lastIndexOf c xs = None \<longleftrightarrow> c \<notin> set xs"
  by (induction xs) (auto split: option.splits)

lemma lastIndexOf_Some_mem: "lastIndexOf c xs = Some i \<Longrightarrow> c \<in> set xs"
  using lastIndexOf_None[of c xs] by auto

lemma keyCut_snoc: "key \<noteq> [] \<Longrightarrow> keyCut (key @ [COLON]) = Some (length key)"
  by (cases key) (auto simp: keyCut_def lastIndexOf_snoc)

lemma keyCut_None: "keyCut tok = None \<longleftrightarrow> COLON \<notin> set (tl tok)"
  by (cases tok)
     (auto simp: keyCut_def lastIndexOf_None split: option.splits dest: lastIndexOf_Some_mem)

lemma not_isSpace_COLON: "\<not> isSpace COLON"
  by (simp add: isSpace_def)

lemma not_isSpace_HASH: "\<not> isSpace HASH"
  by (simp add: isSpace_def)

lemma splitOn_nonempty: "splitOn d s \<noteq> []"
  by (induction s) (auto split: list.splits)

lemma splitOn_single: "d \<notin> set x \<Longrightarrow> splitOn d x = [x]"
  by (induction x) auto

lemma splitOn_append: "d \<notin> set x \<Longrightarrow> splitOn d (x @ d # y) = x # splitOn d y"
  by (induction x) auto

lemma splice_insert:
  "0 \<le> k \<Longrightarrow> k \<le> int (length xs) \<Longrightarrow>
   splice xs k 0 ys = take (nat k) xs @ ys @ drop (nat k) xs"
  by (simp add: splice_def Let_def min_def max_def)


section \<open>Facts about the navigator\<close>

lemma findChildKeyFrom_result:
  "findChildKeyFrom lines i e p k = Inr r \<Longrightarrow>
     r = - 1 \<or>
     (i \<le> r \<and> r < e \<and> 0 \<le> r \<and> r < int (length lines) \<and>
      \<not> skipLine (lines ! nat r) \<and> searchNonSpace (lines ! nat r) = p + 2 \<and>
      matchKey (lines ! nat r) = Some k \<and>
      (\<forall>j. i \<le> j \<and> j < r \<longrightarrow>
         skipLine (lines ! nat j) \<or>
         (p < searchNonSpace (lines ! nat j) \<and>
          \<not> (matchKey (lines ! nat j) = Some k \<and> searchNonSpace (lines ! nat j) = p + 2))))"
proof (induction lines i e p k rule: findChildKeyFrom.induct)
  case (1 lines i e p k)
  show ?case
  proof (cases "i < e")
    case False
    with "1.prems" show ?thesis by (simp add: findChildKeyFrom.simps[of lines i])
  next
    case True
    show ?thesis
    proof (cases "getLine lines i")
      case (Inl err)
      with True "1.prems" show ?thesis by (simp add: findChildKeyFrom.simps[of lines i])
    next
      case (Inr line)
      then have rng: "0 \<le> i" "i < int (length lines)" and line: "line = lines ! nat i"
        using getLine_Inr by blast+
      consider (skip) "skipLine line"
        | (stop) "\<not> skipLine line" "searchNonSpace line \<le> p"
        | (hit) "\<not> skipLine line" "\<not> searchNonSpace line \<le> p"
                "matchKey line = Some k \<and> searchNonSpace line = p + 2"
        | (advance) "\<not> skipLine line" "\<not> searchNonSpace line \<le> p"
                "\<not> (matchKey line = Some k \<and> searchNonSpace line = p + 2)"
        by blast
      then show ?thesis
      proof cases
        case skip
        with True Inr "1.prems" have rec: "findChildKeyFrom lines (i + 1) e p k = Inr r"
          by (simp add: findChildKeyFrom.simps[of lines i])
        from "1.IH"(1)[OF True Inr skip rec] show ?thesis
        proof
          assume "r = - 1" then show ?thesis by simp
        next
          assume a: "i + 1 \<le> r \<and> r < e \<and> 0 \<le> r \<and> r < int (length lines) \<and>
            \<not> skipLine (lines ! nat r) \<and> searchNonSpace (lines ! nat r) = p + 2 \<and>
            matchKey (lines ! nat r) = Some k \<and>
            (\<forall>j. i + 1 \<le> j \<and> j < r \<longrightarrow>
               skipLine (lines ! nat j) \<or>
               (p < searchNonSpace (lines ! nat j) \<and>
                \<not> (matchKey (lines ! nat j) = Some k \<and> searchNonSpace (lines ! nat j) = p + 2)))"
          have "\<forall>j. i \<le> j \<and> j < r \<longrightarrow>
               skipLine (lines ! nat j) \<or>
               (p < searchNonSpace (lines ! nat j) \<and>
                \<not> (matchKey (lines ! nat j) = Some k \<and> searchNonSpace (lines ! nat j) = p + 2))"
          proof (intro allI impI)
            fix j assume j: "i \<le> j \<and> j < r"
            show "skipLine (lines ! nat j) \<or>
               (p < searchNonSpace (lines ! nat j) \<and>
                \<not> (matchKey (lines ! nat j) = Some k \<and> searchNonSpace (lines ! nat j) = p + 2))"
            proof (cases "j = i")
              case True with skip line show ?thesis by simp
            next
              case False with j have "i + 1 \<le> j \<and> j < r" by simp
              with a show ?thesis by blast
            qed
          qed
          with a show ?thesis by simp
        qed
      next
        case stop
        with True Inr "1.prems" show ?thesis by (simp add: findChildKeyFrom.simps[of lines i])
      next
        case hit
        with True Inr "1.prems" have "r = i" by (simp add: findChildKeyFrom.simps[of lines i])
        with hit True rng line show ?thesis by auto
      next
        case advance
        with True Inr "1.prems" have rec: "findChildKeyFrom lines (i + 1) e p k = Inr r"
          by (simp add: findChildKeyFrom.simps[of lines i])
        from "1.IH"(2)[OF True Inr advance(1) advance(2) advance(3) rec] show ?thesis
        proof
          assume "r = - 1" then show ?thesis by simp
        next
          assume a: "i + 1 \<le> r \<and> r < e \<and> 0 \<le> r \<and> r < int (length lines) \<and>
            \<not> skipLine (lines ! nat r) \<and> searchNonSpace (lines ! nat r) = p + 2 \<and>
            matchKey (lines ! nat r) = Some k \<and>
            (\<forall>j. i + 1 \<le> j \<and> j < r \<longrightarrow>
               skipLine (lines ! nat j) \<or>
               (p < searchNonSpace (lines ! nat j) \<and>
                \<not> (matchKey (lines ! nat j) = Some k \<and> searchNonSpace (lines ! nat j) = p + 2)))"
          have "\<forall>j. i \<le> j \<and> j < r \<longrightarrow>
               skipLine (lines ! nat j) \<or>
               (p < searchNonSpace (lines ! nat j) \<and>
                \<not> (matchKey (lines ! nat j) = Some k \<and> searchNonSpace (lines ! nat j) = p + 2))"
          proof (intro allI impI)
            fix j assume j: "i \<le> j \<and> j < r"
            show "skipLine (lines ! nat j) \<or>
               (p < searchNonSpace (lines ! nat j) \<and>
                \<not> (matchKey (lines ! nat j) = Some k \<and> searchNonSpace (lines ! nat j) = p + 2))"
            proof (cases "j = i")
              case True with advance line show ?thesis by auto
            next
              case False with j have "i + 1 \<le> j \<and> j < r" by simp
              with a show ?thesis by blast
            qed
          qed
          with a show ?thesis by simp
        qed
      qed
    qed
  qed
qed


lemma findChildKeyFrom_total:
  "0 \<le> i \<Longrightarrow> e \<le> int (length lines) \<Longrightarrow> \<exists>r. findChildKeyFrom lines i e p k = Inr r"
proof (induction lines i e p k rule: findChildKeyFrom.induct)
  case (1 lines i e p k)
  show ?case
  proof (cases "i < e")
    case False
    then show ?thesis by (simp add: findChildKeyFrom.simps[of lines i])
  next
    case True
    with "1.prems" have g: "getLine lines i = Inr (lines ! nat i)" by (simp add: getLine_def)
    have nx: "0 \<le> i + 1" using "1.prems" by simp
    show ?thesis
    proof (cases "skipLine (lines ! nat i)")
      case sk: True
      from "1.IH"(1)[OF True g sk nx "1.prems"(2)] True g sk show ?thesis
        by (simp add: findChildKeyFrom.simps[of lines i])
    next
      case sk: False
      show ?thesis
      proof (cases "searchNonSpace (lines ! nat i) \<le> p")
        case True
        with \<open>i < e\<close> g sk show ?thesis by (simp add: findChildKeyFrom.simps[of lines i])
      next
        case st: False
        show ?thesis
        proof (cases "matchKey (lines ! nat i) = Some k \<and> searchNonSpace (lines ! nat i) = p + 2")
          case True
          with \<open>i < e\<close> g sk st show ?thesis by (simp add: findChildKeyFrom.simps[of lines i])
        next
          case hit: False
          from "1.IH"(2)[OF True g sk st hit nx "1.prems"(2)] True g sk st hit show ?thesis
            by (simp add: findChildKeyFrom.simps[of lines i])
        qed
      qed
    qed
  qed
qed

lemma findChildKeyFrom_local:
  "(\<forall>j. i \<le> j \<and> j < e \<longrightarrow> getLine lines' j = getLine lines j) \<Longrightarrow>
   findChildKeyFrom lines' i e p k = findChildKeyFrom lines i e p k"
proof (induction lines i e p k rule: findChildKeyFrom.induct)
  case (1 lines i e p k)
  show ?case
  proof (cases "i < e")
    case False
    then show ?thesis
      by (simp add: findChildKeyFrom.simps[of lines i] findChildKeyFrom.simps[of lines' i])
  next
    case True
    with "1.prems" have same: "getLine lines' i = getLine lines i" by simp
    have nx: "\<forall>j. i + 1 \<le> j \<and> j < e \<longrightarrow> getLine lines' j = getLine lines j"
      using "1.prems" by simp
    show ?thesis
    proof (cases "getLine lines i")
      case (Inl err)
      with True same show ?thesis
        by (simp add: findChildKeyFrom.simps[of lines i] findChildKeyFrom.simps[of lines' i])
    next
      case (Inr line)
      show ?thesis
      proof (cases "skipLine line")
        case sk: True
        from "1.IH"(1)[OF True Inr sk nx] True Inr same sk show ?thesis
          by (simp add: findChildKeyFrom.simps[of lines i] findChildKeyFrom.simps[of lines' i])
      next
        case sk: False
        show ?thesis
        proof (cases "searchNonSpace line \<le> p")
          case True
          with \<open>i < e\<close> Inr same sk show ?thesis
            by (simp add: findChildKeyFrom.simps[of lines i] findChildKeyFrom.simps[of lines' i])
        next
          case st: False
          show ?thesis
          proof (cases "matchKey line = Some k \<and> searchNonSpace line = p + 2")
            case True
            with \<open>i < e\<close> Inr same sk st show ?thesis
              by (simp add: findChildKeyFrom.simps[of lines i] findChildKeyFrom.simps[of lines' i])
          next
            case hit: False
            from "1.IH"(2)[OF True Inr sk st hit nx] True Inr same sk st hit show ?thesis
              by (auto simp add: findChildKeyFrom.simps[of lines i] findChildKeyFrom.simps[of lines' i])
          qed
        qed
      qed
    qed
  qed
qed

lemma findChildKeyFrom_stop:
  assumes r: "findChildKeyFrom lines i e p k = Inr r"
    and j: "i \<le> j" "j < e" "\<not> skipLine (lines ! nat j)" "searchNonSpace (lines ! nat j) \<le> p"
  shows "r = - 1 \<or> r < j"
proof (rule ccontr)
  assume n: "\<not> (r = - 1 \<or> r < j)"
  with findChildKeyFrom_result[OF r] have
    a: "searchNonSpace (lines ! nat r) = p + 2"
    and b: "\<forall>j. i \<le> j \<and> j < r \<longrightarrow>
         skipLine (lines ! nat j) \<or>
         (p < searchNonSpace (lines ! nat j) \<and>
          \<not> (matchKey (lines ! nat j) = Some k \<and> searchNonSpace (lines ! nat j) = p + 2))"
    by blast+
  show False
  proof (cases "r = j")
    case True with a j(4) show False by simp
  next
    case False
    with n have "i \<le> j \<and> j < r" using j(1) by simp
    with b j(3) j(4) show False by fastforce
  qed
qed

lemma findChildKeyFrom_pass:
  "0 \<le> i \<Longrightarrow> i \<le> m \<Longrightarrow> m \<le> e \<Longrightarrow> m \<le> int (length lines) \<Longrightarrow>
   (\<forall>j. i \<le> j \<and> j < m \<longrightarrow>
      skipLine (lines ! nat j) \<or>
      (p < searchNonSpace (lines ! nat j) \<and>
       \<not> (matchKey (lines ! nat j) = Some k \<and> searchNonSpace (lines ! nat j) = p + 2))) \<Longrightarrow>
   findChildKeyFrom lines i e p k = findChildKeyFrom lines m e p k"
proof (induction lines i e p k rule: findChildKeyFrom.induct)
  case (1 lines i e p k)
  show ?case
  proof (cases "i = m")
    case True
    then show ?thesis by simp
  next
    case False
    with "1.prems" have lt: "i < m" "i < e" by simp_all
    with "1.prems" have g: "getLine lines i = Inr (lines ! nat i)" by (simp add: getLine_def)
    have nx: "0 \<le> i + 1" "i + 1 \<le> m" using "1.prems" lt by simp_all
    have rest: "\<forall>j. i + 1 \<le> j \<and> j < m \<longrightarrow>
      skipLine (lines ! nat j) \<or>
      (p < searchNonSpace (lines ! nat j) \<and>
       \<not> (matchKey (lines ! nat j) = Some k \<and> searchNonSpace (lines ! nat j) = p + 2))"
      using "1.prems"(5) by simp
    from "1.prems"(5) lt have here: "skipLine (lines ! nat i) \<or>
      (p < searchNonSpace (lines ! nat i) \<and>
       \<not> (matchKey (lines ! nat i) = Some k \<and> searchNonSpace (lines ! nat i) = p + 2))"
      by simp
    show ?thesis
    proof (cases "skipLine (lines ! nat i)")
      case sk: True
      from "1.IH"(1)[OF lt(2) g sk nx "1.prems"(3,4) rest] lt g sk show ?thesis
        by (simp add: findChildKeyFrom.simps[of lines i])
    next
      case sk: False
      with here have st: "\<not> searchNonSpace (lines ! nat i) \<le> p"
        and hit: "\<not> (matchKey (lines ! nat i) = Some k \<and> searchNonSpace (lines ! nat i) = p + 2)"
        by auto
      from "1.IH"(2)[OF lt(2) g sk st hit nx "1.prems"(3,4) rest] lt g sk st hit show ?thesis
        by (auto simp add: findChildKeyFrom.simps[of lines i])
    qed
  qed
qed

lemma findChildKey_found:
  assumes "- 1 \<le> start" "start < m" "m < end" "m < int (length lines)"
    and "\<not> skipLine (lines ! nat m)" "searchNonSpace (lines ! nat m) = p + 2"
        "matchKey (lines ! nat m) = Some k"
    and "\<forall>j. start < j \<and> j < m \<longrightarrow>
           skipLine (lines ! nat j) \<or>
           (p < searchNonSpace (lines ! nat j) \<and>
            \<not> (matchKey (lines ! nat j) = Some k \<and> searchNonSpace (lines ! nat j) = p + 2))"
  shows "findChildKey lines start end p k = Inr m"
proof -
  have pass: "\<forall>j. start + 1 \<le> j \<and> j < m \<longrightarrow>
           skipLine (lines ! nat j) \<or>
           (p < searchNonSpace (lines ! nat j) \<and>
            \<not> (matchKey (lines ! nat j) = Some k \<and> searchNonSpace (lines ! nat j) = p + 2))"
    using assms(8) by simp
  have "findChildKeyFrom lines (start + 1) end p k = findChildKeyFrom lines m end p k"
    by (rule findChildKeyFrom_pass) (use assms pass in simp_all)
  also have "\<dots> = Inr m"
    using assms by (simp add: findChildKeyFrom.simps[of lines m] getLine_def)
  finally show ?thesis by (simp add: findChildKey_def)
qed

lemma findChildKey_stopped:
  assumes "- 1 \<le> start" "start < s" "s < end" "s < int (length lines)"
    and "\<not> skipLine (lines ! nat s)" "searchNonSpace (lines ! nat s) \<le> p"
    and "\<forall>j. start < j \<and> j < s \<longrightarrow>
           skipLine (lines ! nat j) \<or>
           (p < searchNonSpace (lines ! nat j) \<and>
            \<not> (matchKey (lines ! nat j) = Some k \<and> searchNonSpace (lines ! nat j) = p + 2))"
  shows "findChildKey lines start end p k = Inr (- 1)"
proof -
  have pass: "\<forall>j. start + 1 \<le> j \<and> j < s \<longrightarrow>
           skipLine (lines ! nat j) \<or>
           (p < searchNonSpace (lines ! nat j) \<and>
            \<not> (matchKey (lines ! nat j) = Some k \<and> searchNonSpace (lines ! nat j) = p + 2))"
    using assms(7) by simp
  have "findChildKeyFrom lines (start + 1) end p k = findChildKeyFrom lines s end p k"
    by (rule findChildKeyFrom_pass) (use assms pass in simp_all)
  also have "\<dots> = Inr (- 1)"
    using assms by (simp add: findChildKeyFrom.simps[of lines s] getLine_def)
  finally show ?thesis by (simp add: findChildKey_def)
qed

lemma findChildKey_exhausted:
  assumes "- 1 \<le> start" "end \<le> int (length lines)"
    and "\<forall>j. start < j \<and> j < end \<longrightarrow>
           skipLine (lines ! nat j) \<or>
           (p < searchNonSpace (lines ! nat j) \<and>
            \<not> (matchKey (lines ! nat j) = Some k \<and> searchNonSpace (lines ! nat j) = p + 2))"
  shows "findChildKey lines start end p k = Inr (- 1)"
proof (cases "start + 1 \<le> end")
  case False
  then show ?thesis by (simp add: findChildKey_def findChildKeyFrom.simps[of lines "start + 1"])
next
  case True
  have pass: "\<forall>j. start + 1 \<le> j \<and> j < end \<longrightarrow>
           skipLine (lines ! nat j) \<or>
           (p < searchNonSpace (lines ! nat j) \<and>
            \<not> (matchKey (lines ! nat j) = Some k \<and> searchNonSpace (lines ! nat j) = p + 2))"
    using assms(3) by simp
  have "findChildKeyFrom lines (start + 1) end p k = findChildKeyFrom lines end end p k"
    by (rule findChildKeyFrom_pass) (use assms pass True in simp_all)
  also have "\<dots> = Inr (- 1)"
    by (simp add: findChildKeyFrom.simps[of lines "end"])
  finally show ?thesis by (simp add: findChildKey_def)
qed


lemma int_range_cases: "(a::int) < j \<and> j < b \<Longrightarrow> nat j \<in> set (map nat [a + 1..b - 1])"
  by auto

section \<open>Facts about the patcher\<close>

lemma matchKeyValue_shape:
  assumes ind: "list_all isSpace ind" and key: "key \<noteq> []" "list_all (\<lambda>c. \<not> isSpace c) key"
    and ws: "list_all isSpace ws" and sep: "ws \<noteq> [] \<or> rest = []"
    and rest: "rest = [] \<or> \<not> isSpace (hd rest)" "\<not> list_ex isLineTerm rest"
  shows "matchKeyValue (ind @ key @ [COLON] @ ws @ rest) = Some (ind @ key @ [COLON] @ ws, rest)"
proof -
  let ?body = "key @ [COLON] @ ws @ rest"
  from key have hdkey: "\<not> isSpace (hd ?body)" by (cases key) auto
  have tw: "takeWhile isSpace (ind @ ?body) = ind"
    using takeWhile_block[OF ind, of ?body] hdkey by simp
  have dw: "dropWhile isSpace (ind @ ?body) = ?body"
    using dropWhile_block[OF ind, of ?body] hdkey by simp
  have tokall: "list_all (\<lambda>c. \<not> isSpace c) (key @ [COLON])"
    using key not_isSpace_COLON by simp
  have hdws: "ws @ rest = [] \<or> \<not> (\<lambda>c. \<not> isSpace c) (hd (ws @ rest))"
    using ws sep by (cases ws) auto
  have tok: "takeWhile (\<lambda>c. \<not> isSpace c) ?body = key @ [COLON]"
    using takeWhile_block[OF tokall hdws] by simp
  have after: "drop (Suc (length key)) ?body = ws @ rest" by simp
  have tk: "take (Suc (length key)) ?body = key @ [COLON]" by simp
  have r1: "dropWhile isSpace (ws @ rest) = rest" using dropWhile_block[OF ws rest(1)] .
  have r2: "takeWhile isSpace (ws @ rest) = ws" using takeWhile_block[OF ws rest(1)] .
  show ?thesis
    unfolding matchKeyValue_def Let_def tw dw tok keyCut_snoc[OF key(1)]
    using rest(2) by (simp only: option.case after tk r1 r2 if_False append_assoc)
qed

lemma matchKeyValue_line_terminator:
  assumes ind: "list_all isSpace ind" and key: "key \<noteq> []" "list_all (\<lambda>c. \<not> isSpace c) key"
    and ws: "list_all isSpace ws" and sep: "ws \<noteq> [] \<or> rest = []"
    and rest: "rest = [] \<or> \<not> isSpace (hd rest)" "list_ex isLineTerm rest"
  shows "matchKeyValue (ind @ key @ [COLON] @ ws @ rest) = None"
proof -
  let ?body = "key @ [COLON] @ ws @ rest"
  from key have hdkey: "\<not> isSpace (hd ?body)" by (cases key) auto
  have tw: "takeWhile isSpace (ind @ ?body) = ind"
    using takeWhile_block[OF ind, of ?body] hdkey by simp
  have dw: "dropWhile isSpace (ind @ ?body) = ?body"
    using dropWhile_block[OF ind, of ?body] hdkey by simp
  have tokall: "list_all (\<lambda>c. \<not> isSpace c) (key @ [COLON])"
    using key not_isSpace_COLON by simp
  have hdws: "ws @ rest = [] \<or> \<not> (\<lambda>c. \<not> isSpace c) (hd (ws @ rest))"
    using ws sep by (cases ws) auto
  have tok: "takeWhile (\<lambda>c. \<not> isSpace c) ?body = key @ [COLON]"
    using takeWhile_block[OF tokall hdws] by simp
  have after: "drop (Suc (length key)) ?body = ws @ rest" by simp
  have tk: "take (Suc (length key)) ?body = key @ [COLON]" by simp
  have r1: "dropWhile isSpace (ws @ rest) = rest" using dropWhile_block[OF ws rest(1)] .
  have r2: "takeWhile isSpace (ws @ rest) = ws" using takeWhile_block[OF ws rest(1)] .
  show ?thesis
    unfolding matchKeyValue_def Let_def tw dw tok keyCut_snoc[OF key(1)]
    using rest(2) by (simp only: option.case after tk r1 r2 if_True append_assoc)
qed

lemma lastLine_whole:
  "\<not> list_ex isLineTerm r \<Longrightarrow> rev (takeWhile (\<lambda>c. \<not> isLineTerm c) (rev r)) = r"
  by (simp add: list_ex_iff takeWhile_eq_all_conv[THEN iffD2])

lemma matchTrailingComment_one_line:
  assumes "\<not> list_ex isLineTerm r"
  shows "matchTrailingComment r =
           (if dropWhile (\<lambda>c. c \<noteq> HASH) r = [] then []
            else rev (takeWhile isSpace (rev (takeWhile (\<lambda>c. c \<noteq> HASH) r))) @
                 dropWhile (\<lambda>c. c \<noteq> HASH) r)"
  unfolding matchTrailingComment_def Let_def lastLine_whole[OF assms] by auto

lemma matchTrailingComment_none: "HASH \<notin> set r \<Longrightarrow> matchTrailingComment r = []"
proof -
  assume h: "HASH \<notin> set r"
  have "set (takeWhile (\<lambda>c. \<not> isLineTerm c) (rev r)) \<subseteq> set r"
    using set_takeWhileD[of _ "\<lambda>c. \<not> isLineTerm c" "rev r"] by auto
  with h have "HASH \<notin> set (rev (takeWhile (\<lambda>c. \<not> isLineTerm c) (rev r)))" by auto
  then have "dropWhile (\<lambda>c. c \<noteq> HASH) (rev (takeWhile (\<lambda>c. \<not> isLineTerm c) (rev r))) = []"
    by auto
  then show ?thesis by (simp add: matchTrailingComment_def Let_def)
qed

lemma matchTrailingComment_shape:
  assumes ov: "HASH \<notin> set ov" "ov = [] \<or> \<not> isSpace (last ov)"
    and w: "list_all isSpace w" and t: "\<not> list_ex isLineTerm (ov @ w @ HASH # text)"
  shows "matchTrailingComment (ov @ w @ HASH # text) = w @ HASH # text"
proof -
  have wh: "HASH \<notin> set w" using w not_isSpace_HASH by (auto simp: list_all_iff)
  have allne: "list_all (\<lambda>c. c \<noteq> HASH) (ov @ w)" using ov(1) wh by (auto simp: list_all_iff)
  have pre: "takeWhile (\<lambda>c. c \<noteq> HASH) ((ov @ w) @ HASH # text) = ov @ w"
    using takeWhile_block[OF allne, of "HASH # text"] by simp
  have post: "dropWhile (\<lambda>c. c \<noteq> HASH) ((ov @ w) @ HASH # text) = HASH # text"
    using dropWhile_block[OF allne, of "HASH # text"] by simp
  have rw: "list_all isSpace (rev w)" using w by (simp add: list_all_iff)
  have hd: "rev ov = [] \<or> \<not> isSpace (hd (rev ov))" using ov(2) by (auto simp: hd_rev)
  have "takeWhile isSpace (rev w @ rev ov) = rev w" using takeWhile_block[OF rw hd] .
  then have tr: "rev (takeWhile isSpace (rev (ov @ w))) = w" by simp
  show ?thesis unfolding matchTrailingComment_one_line[OF t] using pre post tr by simp
qed

lemma replaceLineValue_frame:
  assumes "0 \<le> idx" "idx < int (length lines)"
  shows "\<exists>new. replaceLineValue lines idx v = Inr (lines[nat idx := new])"
proof (cases "matchKeyValue (lines ! nat idx)")
  case None
  with assms have "replaceLineValue lines idx v = Inr (lines[nat idx := lines ! nat idx])"
    by (simp add: replaceLineValue_def getLine_def)
  then show ?thesis by blast
next
  case (Some pr)
  with assms show ?thesis
    by (cases pr) (auto simp add: replaceLineValue_def getLine_def Let_def)
qed

lemma replaceLineValue_shape:
  assumes rng: "0 \<le> idx" "idx < int (length lines)"
    and line: "lines ! nat idx = ind @ key @ [COLON] @ ws @ ov @ cmt"
    and ind: "list_all isSpace ind" and key: "key \<noteq> []" "list_all (\<lambda>c. \<not> isSpace c) key"
    and ws: "ws \<noteq> []" "list_all isSpace ws"
    and ov: "HASH \<notin> set ov" "ov = [] \<or> \<not> isSpace (hd ov)" "\<not> list_ex isLineTerm (ov @ cmt)"
    and cmt: "cmt = [] \<or> (\<exists>w text. cmt = w @ HASH # text \<and> list_all isSpace w \<and>
                (if ov = [] then w = [] else \<not> isSpace (last ov)))"
  shows "replaceLineValue lines idx v =
           Inr (lines[nat idx := ind @ key @ [COLON] @ ws @ formatValue (ov @ cmt) cmt v @ cmt])
         \<and> take (length (ov @ cmt) - length cmt) (ov @ cmt) = ov"
proof -
  have hdrest: "ov @ cmt = [] \<or> \<not> isSpace (hd (ov @ cmt))"
  proof (cases "ov = []")
    case False with ov(2) show ?thesis by simp
  next
    case True
    with cmt show ?thesis using not_isSpace_HASH by auto
  qed
  have m: "matchKeyValue (lines ! nat idx) = Some (ind @ key @ [COLON] @ ws, ov @ cmt)"
    unfolding line
    using matchKeyValue_shape[OF ind key ws(2) _ hdrest ov(3)] ws(1) by simp
  have c: "matchTrailingComment (ov @ cmt) = cmt"
  proof (cases "cmt = []")
    case True with ov(1) show ?thesis by (simp add: matchTrailingComment_none)
  next
    case False
    with cmt obtain w cm where wt: "cmt = w @ HASH # cm" "list_all isSpace w"
      "if ov = [] then w = [] else \<not> isSpace (last ov)" by blast
    have l: "ov = [] \<or> \<not> isSpace (last ov)" using wt(3) by (cases "ov = []") auto
    have t: "\<not> list_ex isLineTerm (ov @ w @ HASH # cm)" using ov(3) wt(1) by simp
    show ?thesis unfolding wt(1) using matchTrailingComment_shape[OF ov(1) l wt(2) t] .
  qed
  show ?thesis using rng m c by (simp add: replaceLineValue_def getLine_def Let_def)
qed



lemma replaceLineValue_keeps_others:
  assumes "replaceLineValue lines idx v = Inr lines'"
  shows "length lines' = length lines \<and> (\<forall>j < length lines. j \<noteq> nat idx \<longrightarrow> lines' ! j = lines ! j)"
proof -
  from assms have rng: "0 \<le> idx" "idx < int (length lines)"
    by (auto simp: replaceLineValue_def getLine_def split: if_splits)
  from replaceLineValue_frame[OF rng, of v] assms obtain new where
    "lines' = lines[nat idx := new]" by auto
  then show ?thesis by simp
qed

section \<open>Claims about the navigator\<close>

text \<open>
  C4. \<open>findChildKey\<close> scans only the lines strictly between \<open>start\<close> and \<open>end\<close>: its
  result is the same on any two line sequences that agree there. It returns an index \<open>r\<close>
  only when line \<open>r\<close> is indented by exactly \<open>p + 2\<close> and its key token is \<open>k\<close>, and
  then every line before it in the range was passed over: a blank or comment line, or
  a line indented deeper than \<open>p\<close> that is not such a match. An index it returns lies
  before every line, neither blank nor comment, whose indentation is at most \<open>p\<close>.
  Within the bounds of the sequence it never throws, and its result is fixed by the
  first line of the range that is not passed over: the index of that line when it is a
  match, \<open>-1\<close> when its indentation is at most \<open>p\<close>, and \<open>-1\<close> when the range has no
  such line.
\<close>

theorem findChildKey_contract:
  "(findChildKey lines start end p k = Inr r \<longrightarrow>
      (r = - 1 \<or>
       (start < r \<and> r < end \<and> 0 \<le> r \<and> r < int (length lines) \<and>
        \<not> skipLine (lines ! nat r) \<and>
        searchNonSpace (lines ! nat r) = p + 2 \<and> matchKey (lines ! nat r) = Some k \<and>
        (\<forall>j. start < j \<and> j < r \<longrightarrow>
           skipLine (lines ! nat j) \<or>
           (p < searchNonSpace (lines ! nat j) \<and>
            \<not> (matchKey (lines ! nat j) = Some k \<and> searchNonSpace (lines ! nat j) = p + 2))))) \<and>
      (\<forall>j. start < j \<and> j < end \<and> \<not> skipLine (lines ! nat j) \<and>
           searchNonSpace (lines ! nat j) \<le> p \<longrightarrow> r = - 1 \<or> r < j)) \<and>
   ((\<forall>j. start < j \<and> j < end \<longrightarrow> getLine lines' j = getLine lines j) \<longrightarrow>
      findChildKey lines' start end p k = findChildKey lines start end p k) \<and>
   (- 1 \<le> start \<and> end \<le> int (length lines) \<longrightarrow>
      (\<exists>r'. findChildKey lines start end p k = Inr r')) \<and>
   (- 1 \<le> start \<and> start < m \<and> m < end \<and> m < int (length lines) \<and>
    \<not> skipLine (lines ! nat m) \<and> searchNonSpace (lines ! nat m) = p + 2 \<and>
    matchKey (lines ! nat m) = Some k \<and>
    (\<forall>j. start < j \<and> j < m \<longrightarrow>
       skipLine (lines ! nat j) \<or>
       (p < searchNonSpace (lines ! nat j) \<and>
        \<not> (matchKey (lines ! nat j) = Some k \<and> searchNonSpace (lines ! nat j) = p + 2))) \<longrightarrow>
      findChildKey lines start end p k = Inr m) \<and>
   (- 1 \<le> start \<and> start < s \<and> s < end \<and> s < int (length lines) \<and>
    \<not> skipLine (lines ! nat s) \<and> searchNonSpace (lines ! nat s) \<le> p \<and>
    (\<forall>j. start < j \<and> j < s \<longrightarrow>
       skipLine (lines ! nat j) \<or>
       (p < searchNonSpace (lines ! nat j) \<and>
        \<not> (matchKey (lines ! nat j) = Some k \<and> searchNonSpace (lines ! nat j) = p + 2))) \<longrightarrow>
      findChildKey lines start end p k = Inr (- 1)) \<and>
   (- 1 \<le> start \<and> end \<le> int (length lines) \<and>
    (\<forall>j. start < j \<and> j < end \<longrightarrow>
       skipLine (lines ! nat j) \<or>
       (p < searchNonSpace (lines ! nat j) \<and>
        \<not> (matchKey (lines ! nat j) = Some k \<and> searchNonSpace (lines ! nat j) = p + 2))) \<longrightarrow>
      findChildKey lines start end p k = Inr (- 1))"
proof (intro conjI impI allI)
  assume r: "findChildKey lines start end p k = Inr r"
  then have r': "findChildKeyFrom lines (start + 1) end p k = Inr r"
    by (simp add: findChildKey_def)
  from findChildKeyFrom_result[OF r']
  show "r = - 1 \<or>
       (start < r \<and> r < end \<and> 0 \<le> r \<and> r < int (length lines) \<and>
        \<not> skipLine (lines ! nat r) \<and>
        searchNonSpace (lines ! nat r) = p + 2 \<and> matchKey (lines ! nat r) = Some k \<and>
        (\<forall>j. start < j \<and> j < r \<longrightarrow>
           skipLine (lines ! nat j) \<or>
           (p < searchNonSpace (lines ! nat j) \<and>
            \<not> (matchKey (lines ! nat j) = Some k \<and> searchNonSpace (lines ! nat j) = p + 2))))"
    by (elim disjE) (simp, rule disjI2, simp)
  fix j
  assume j: "start < j \<and> j < end \<and> \<not> skipLine (lines ! nat j) \<and>
           searchNonSpace (lines ! nat j) \<le> p"
  then have "start + 1 \<le> j" by simp
  from findChildKeyFrom_stop[OF r' this] j show "r = - 1 \<or> r < j" by blast
next
  assume "\<forall>j. start < j \<and> j < end \<longrightarrow> getLine lines' j = getLine lines j"
  then have "\<forall>j. start + 1 \<le> j \<and> j < end \<longrightarrow> getLine lines' j = getLine lines j" by simp
  from findChildKeyFrom_local[OF this]
  show "findChildKey lines' start end p k = findChildKey lines start end p k"
    by (simp add: findChildKey_def)
next
  assume "- 1 \<le> start \<and> end \<le> int (length lines)"
  then have "0 \<le> start + 1" "end \<le> int (length lines)" by simp_all
  from findChildKeyFrom_total[OF this]
  show "\<exists>r'. findChildKey lines start end p k = Inr r'" by (simp add: findChildKey_def)
next
  assume a: "- 1 \<le> start \<and> start < m \<and> m < end \<and> m < int (length lines) \<and>
    \<not> skipLine (lines ! nat m) \<and> searchNonSpace (lines ! nat m) = p + 2 \<and>
    matchKey (lines ! nat m) = Some k \<and>
    (\<forall>j. start < j \<and> j < m \<longrightarrow>
       skipLine (lines ! nat j) \<or>
       (p < searchNonSpace (lines ! nat j) \<and>
        \<not> (matchKey (lines ! nat j) = Some k \<and> searchNonSpace (lines ! nat j) = p + 2)))"
  show "findChildKey lines start end p k = Inr m"
    by (rule findChildKey_found) (use a in blast)+
next
  assume a: "- 1 \<le> start \<and> start < s \<and> s < end \<and> s < int (length lines) \<and>
    \<not> skipLine (lines ! nat s) \<and> searchNonSpace (lines ! nat s) \<le> p \<and>
    (\<forall>j. start < j \<and> j < s \<longrightarrow>
       skipLine (lines ! nat j) \<or>
       (p < searchNonSpace (lines ! nat j) \<and>
        \<not> (matchKey (lines ! nat j) = Some k \<and> searchNonSpace (lines ! nat j) = p + 2)))"
  show "findChildKey lines start end p k = Inr (- 1)"
    by (rule findChildKey_stopped[of start s "end" lines p k]) (use a in blast)+
next
  assume a: "- 1 \<le> start \<and> end \<le> int (length lines) \<and>
    (\<forall>j. start < j \<and> j < end \<longrightarrow>
       skipLine (lines ! nat j) \<or>
       (p < searchNonSpace (lines ! nat j) \<and>
        \<not> (matchKey (lines ! nat j) = Some k \<and> searchNonSpace (lines ! nat j) = p + 2)))"
  show "findChildKey lines start end p k = Inr (- 1)"
    by (rule findChildKey_exhausted) (use a in blast)+
qed

theorem findChildKey_contract_witness:
  "findChildKey navDoc 1 8 2 (str ''y'') = Inr 5 \<and>
   searchNonSpace (navDoc ! 5) = 4 \<and> matchKey (navDoc ! 5) = Some (str ''y'') \<and>
   skipLine (navDoc ! 2) \<and> skipLine (navDoc ! 3) \<and>
   findChildKey (navDoc[0 := str ''changed'']) 1 8 2 (str ''y'') = Inr 5 \<and>
   findChildKey navDoc 6 8 2 (str ''y'') = Inr 7 \<and>
   findChildKey navDoc 1 8 2 (str ''b'') = Inr (- 1) \<and>
   findChildKey navDeep 0 9 0 (str ''day_plans'') = Inr 6 \<and>
   findChildKey navDeep 1 9 2 (str ''evening'') = Inr (- 1) \<and>
   findChildKey navDeep 1 4 2 (str ''evening'') = Inr (- 1)"
proof -
  have h1: "findChildKey navDoc 1 8 2 (str ''y'') = Inr 5" by code_simp
  have h2: "\<forall>j. (1::int) < j \<and> j < 8 \<longrightarrow>
              getLine (navDoc[0 := str ''changed'']) j = getLine navDoc j"
    by (auto simp: getLine_def nat_eq_iff)
  have h3: "- 1 \<le> (1::int) \<and> 8 \<le> int (length navDoc)" by code_simp
  have e: "skipLine (navDoc ! 2) \<and> skipLine (navDoc ! 3) \<and>
     findChildKey navDoc 6 8 2 (str ''y'') = Inr 7 \<and>
     findChildKey navDoc 1 8 2 (str ''b'') = Inr (- 1)" by code_simp
  have p1: "\<forall>n \<in> set (map nat [0 + 1..6 - 1]).
       skipLine (navDeep ! n) \<or>
       (0 < searchNonSpace (navDeep ! n) \<and>
        \<not> (matchKey (navDeep ! n) = Some (str ''day_plans'') \<and> searchNonSpace (navDeep ! n) = 0 + 2))"
    by code_simp
  have p2: "\<forall>n \<in> set (map nat [1 + 1..6 - 1]).
       skipLine (navDeep ! n) \<or>
       (2 < searchNonSpace (navDeep ! n) \<and>
        \<not> (matchKey (navDeep ! n) = Some (str ''evening'') \<and> searchNonSpace (navDeep ! n) = 2 + 2))"
    by code_simp
  have q1: "\<forall>j. (0::int) < j \<and> j < 6 \<longrightarrow>
       skipLine (navDeep ! nat j) \<or>
       (0 < searchNonSpace (navDeep ! nat j) \<and>
        \<not> (matchKey (navDeep ! nat j) = Some (str ''day_plans'') \<and> searchNonSpace (navDeep ! nat j) = 0 + 2))"
    using p1 int_range_cases[of 0 _ 6] by blast
  have q2: "\<forall>j. (1::int) < j \<and> j < 6 \<longrightarrow>
       skipLine (navDeep ! nat j) \<or>
       (2 < searchNonSpace (navDeep ! nat j) \<and>
        \<not> (matchKey (navDeep ! nat j) = Some (str ''evening'') \<and> searchNonSpace (navDeep ! nat j) = 2 + 2))"
    using p2 int_range_cases[of 1 _ 6] by blast
  then have q3: "\<forall>j. (1::int) < j \<and> j < 4 \<longrightarrow>
       skipLine (navDeep ! nat j) \<or>
       (2 < searchNonSpace (navDeep ! nat j) \<and>
        \<not> (matchKey (navDeep ! nat j) = Some (str ''evening'') \<and> searchNonSpace (navDeep ! nat j) = 2 + 2))"
    by simp
  have f: "- 1 \<le> (0::int) \<and> (0::int) < 6 \<and> (6::int) < 9 \<and> 6 < int (length navDeep) \<and>
    \<not> skipLine (navDeep ! nat 6) \<and> searchNonSpace (navDeep ! nat 6) = 0 + 2 \<and>
    matchKey (navDeep ! nat 6) = Some (str ''day_plans'')" by code_simp
  have g: "- 1 \<le> (1::int) \<and> (1::int) < 6 \<and> (6::int) < 9 \<and> 6 < int (length navDeep) \<and>
    \<not> skipLine (navDeep ! nat 6) \<and> searchNonSpace (navDeep ! nat 6) \<le> 2" 
    "- 1 \<le> (1::int) \<and> 4 \<le> int (length navDeep)" by code_simp+
  note t1 = findChildKey_contract[of navDoc 1 8 2 "str ''y''" 5 "navDoc[0 := str ''changed'']" 0 0]
  note t2 = findChildKey_contract[of navDeep 0 9 0 "str ''day_plans''" 0 navDeep 6 0]
  note t3 = findChildKey_contract[of navDeep 1 9 2 "str ''evening''" 0 navDeep 0 6]
  note t4 = findChildKey_contract[of navDeep 1 4 2 "str ''evening''" 0 navDeep 0 0]
  from t1 h1 h2 h3
  have a: "searchNonSpace (navDoc ! nat 5) = 2 + 2" "matchKey (navDoc ! nat 5) = Some (str ''y'')"
    "findChildKey (navDoc[0 := str ''changed'']) 1 8 2 (str ''y'') = findChildKey navDoc 1 8 2 (str ''y'')"
    by simp_all
  have b: "findChildKey navDeep 0 9 0 (str ''day_plans'') = Inr 6"
    using t2[THEN conjunct2, THEN conjunct2, THEN conjunct2, THEN conjunct1] f q1 by blast
  have c: "findChildKey navDeep 1 9 2 (str ''evening'') = Inr (- 1)"
    using t3[THEN conjunct2, THEN conjunct2, THEN conjunct2, THEN conjunct2, THEN conjunct1] g(1) q2 by blast
  have d: "findChildKey navDeep 1 4 2 (str ''evening'') = Inr (- 1)"
    using t4[THEN conjunct2, THEN conjunct2, THEN conjunct2, THEN conjunct2, THEN conjunct2] g(2) q3 by blast
  from a h1 e b c d show ?thesis by simp
qed

section \<open>Claims about the patcher\<close>

text \<open>
  C8. On a line of the shape \<open>key: value\<close>, \<open>replaceLineValue\<close> returns normally and
  rewrites that line behind its unchanged key prefix. Whenever it returns, the sequence
  has the same length and every line other than the targeted one is the same as before.
  On the line \<^verbatim>\<open>key: 5  # keep me\<close>, replacing the value with 7 (as a number or as
  a string) gives \<^verbatim>\<open>key: 7  # keep me\<close>.
\<close>

theorem replaceLineValue_single_line:
  \<open>(0 \<le> idx \<and> idx < int (length lines) \<and>
    lines ! nat idx = ind @ key @ [COLON] @ ws @ rest \<and>
    list_all isSpace ind \<and> key \<noteq> [] \<and> list_all (\<lambda>c. \<not> isSpace c) key \<and>
    ws \<noteq> [] \<and> list_all isSpace ws \<and>
    (rest = [] \<or> \<not> isSpace (hd rest)) \<and> \<not> list_ex isLineTerm rest \<longrightarrow>
      (\<exists>new. replaceLineValue lines idx v = Inr (lines[nat idx := ind @ key @ [COLON] @ ws @ new]))) \<and>
   (replaceLineValue lines idx v = Inr lines' \<longrightarrow>
      length lines' = length lines \<and>
      (\<forall>j < length lines. j \<noteq> nat idx \<longrightarrow> lines' ! j = lines ! j)) \<and>
   replaceLineValue [str ''key: 5  # keep me''] 0 (VNum 7) = Inr [str ''key: 7  # keep me''] \<and>
   replaceLineValue [str ''key: 5  # keep me''] 0 (VStr (str ''7'')) = Inr [str ''key: 7  # keep me'']\<close>
proof (intro conjI impI)
  assume a: "0 \<le> idx \<and> idx < int (length lines) \<and>
    lines ! nat idx = ind @ key @ [COLON] @ ws @ rest \<and>
    list_all isSpace ind \<and> key \<noteq> [] \<and> list_all (\<lambda>c. \<not> isSpace c) key \<and>
    ws \<noteq> [] \<and> list_all isSpace ws \<and>
    (rest = [] \<or> \<not> isSpace (hd rest)) \<and> \<not> list_ex isLineTerm rest"
  then have m: "matchKeyValue (lines ! nat idx) = Some (ind @ key @ [COLON] @ ws, rest)"
    using matchKeyValue_shape[of ind key ws rest] by simp
  with a show "\<exists>new. replaceLineValue lines idx v = Inr (lines[nat idx := ind @ key @ [COLON] @ ws @ new])"
    by (intro exI[of _ "formatValue rest (matchTrailingComment rest) v @ matchTrailingComment rest"])
       (simp add: replaceLineValue_def getLine_def Let_def)
next
  assume "replaceLineValue lines idx v = Inr lines'"
  from replaceLineValue_keeps_others[OF this]
  show "length lines' = length lines" "\<forall>j < length lines. j \<noteq> nat idx \<longrightarrow> lines' ! j = lines ! j"
    by simp_all
next
  show "replaceLineValue [str ''key: 5  # keep me''] 0 (VNum 7) = Inr [str ''key: 7  # keep me'']"
    by code_simp
  show "replaceLineValue [str ''key: 5  # keep me''] 0 (VStr (str ''7'')) = Inr [str ''key: 7  # keep me'']"
    by code_simp
qed

theorem replaceLineValue_single_line_witness:
  "replaceLineValue patchDoc 1 (VNum 7) = Inr [str ''a:'', str ''  key: 7  # keep me'', str ''  other: x'']"
proof -
  have h: "0 \<le> (1::int) \<and> 1 < int (length patchDoc) \<and>
    patchDoc ! nat 1 = str ''  '' @ str ''key'' @ [COLON] @ str '' '' @ str ''5  # keep me'' \<and>
    list_all isSpace (str ''  '') \<and> str ''key'' \<noteq> [] \<and> list_all (\<lambda>c. \<not> isSpace c) (str ''key'') \<and>
    str '' '' \<noteq> [] \<and> list_all isSpace (str '' '') \<and>
    (str ''5  # keep me'' = [] \<or> \<not> isSpace (hd (str ''5  # keep me''))) \<and>
    \<not> list_ex isLineTerm (str ''5  # keep me'')"
    by code_simp
  have r: "replaceLineValue patchDoc 1 (VNum 7) = Inr [str ''a:'', str ''  key: 7  # keep me'', str ''  other: x'']"
    by code_simp
  from replaceLineValue_single_line[of 1 patchDoc "str ''  ''" "str ''key''" "str '' ''" "str ''5  # keep me''" "VNum 7"
      "[str ''a:'', str ''  key: 7  # keep me'', str ''  other: x'']"] h r
  have "length [str ''a:'', str ''  key: 7  # keep me'', str ''  other: x''] = length patchDoc"
    by blast
  with r show ?thesis by simp
qed

text \<open>
  C10. For every line sequence and every index into it, \<open>replaceLineValue\<close> returns
  without throwing, keeps the length and changes at most the targeted line. When that
  line does not match the \<open>key:\<close> shape, in particular when its first token has no
  colon after its first character (a blank line, a comment, a list item), every line is
  left as it was.
\<close>

theorem replaceLineValue_no_key_noop:
  "0 \<le> idx \<and> idx < int (length lines) \<longrightarrow>
     (\<exists>lines'. replaceLineValue lines idx v = Inr lines' \<and>
        length lines' = length lines \<and>
        (\<forall>j < length lines. j \<noteq> nat idx \<longrightarrow> lines' ! j = lines ! j) \<and>
        (matchKeyValue (lines ! nat idx) = None \<longrightarrow> lines' = lines) \<and>
        (COLON \<notin> set (tl (takeWhile (\<lambda>c. \<not> isSpace c) (dropWhile isSpace (lines ! nat idx))))
           \<longrightarrow> lines' = lines))"
proof
  assume rng: "0 \<le> idx \<and> idx < int (length lines)"
  then obtain new where new: "replaceLineValue lines idx v = Inr (lines[nat idx := new])"
    using replaceLineValue_frame[of idx lines v] by blast
  have none: "matchKeyValue (lines ! nat idx) = None \<Longrightarrow> replaceLineValue lines idx v = Inr lines"
    using rng by (simp add: replaceLineValue_def getLine_def)
  have tok: "COLON \<notin> set (tl (takeWhile (\<lambda>c. \<not> isSpace c) (dropWhile isSpace (lines ! nat idx))))
      \<Longrightarrow> matchKeyValue (lines ! nat idx) = None"
    using keyCut_None[of "takeWhile (\<lambda>c. \<not> isSpace c) (dropWhile isSpace (lines ! nat idx))"]
    by (simp add: matchKeyValue_def Let_def)
  show "\<exists>lines'. replaceLineValue lines idx v = Inr lines' \<and>
        length lines' = length lines \<and>
        (\<forall>j < length lines. j \<noteq> nat idx \<longrightarrow> lines' ! j = lines ! j) \<and>
        (matchKeyValue (lines ! nat idx) = None \<longrightarrow> lines' = lines) \<and>
        (COLON \<notin> set (tl (takeWhile (\<lambda>c. \<not> isSpace c) (dropWhile isSpace (lines ! nat idx))))
           \<longrightarrow> lines' = lines)"
    using new none tok by (intro exI[of _ "lines[nat idx := new]"]) auto
qed

theorem replaceLineValue_no_key_noop_witness:
  "replaceLineValue shapelessDoc 0 (VStr (str ''x'')) = Inr shapelessDoc \<and>
   replaceLineValue shapelessDoc 1 (VBool True) = Inr shapelessDoc \<and>
   replaceLineValue shapelessDoc 2 (VNum 3) = Inr shapelessDoc"
proof -
  have h: "0 \<le> (0::int) \<and> 0 < int (length shapelessDoc)" "0 \<le> (1::int) \<and> 1 < int (length shapelessDoc)"
          "0 \<le> (2::int) \<and> 2 < int (length shapelessDoc)"
    by code_simp+
  have c: "COLON \<notin> set (tl (takeWhile (\<lambda>c. \<not> isSpace c) (dropWhile isSpace (shapelessDoc ! nat 0))))"
          "COLON \<notin> set (tl (takeWhile (\<lambda>c. \<not> isSpace c) (dropWhile isSpace (shapelessDoc ! nat 1))))"
          "COLON \<notin> set (tl (takeWhile (\<lambda>c. \<not> isSpace c) (dropWhile isSpace (shapelessDoc ! nat 2))))"
    by code_simp+
  from replaceLineValue_no_key_noop[of 0 shapelessDoc "VStr (str ''x'')"]
       replaceLineValue_no_key_noop[of 1 shapelessDoc "VBool True"]
       replaceLineValue_no_key_noop[of 2 shapelessDoc "VNum 3"] h c
  show ?thesis by auto
qed

text \<open>
  C2 (as amended). On a line \<open>key: value\<close> (optional white space, a key of non-space
  characters, a colon, at least one white-space character, then the rest of the line,
  which holds no line terminator) \<open>replaceLineValue\<close> renders a boolean
  as bare \<open>true\<close> or \<open>false\<close>; it wraps a string in double quotes if and only if the
  previous value was quoted or the new value contains a colon, a hash or a space, and
  emits it bare otherwise. The previous value \<open>ov\<close> is the rest of the line up to the
  white space before its first hash, or the whole rest when it holds no hash; what
  follows is the trailing comment \<open>cmt\<close>, which stays, as does the key prefix. The
  previous value is quoted when it starts and ends with a double quote, or starts and
  ends with a single quote. A line whose rest holds a line terminator is left as it
  is. Replacing the value of \<^verbatim>\<open>name: "Alice"\<close> with Bob gives \<^verbatim>\<open>name: "Bob"\<close>, and
  replacing the value of \<^verbatim>\<open>name: Alice\<close> with A:B gives \<^verbatim>\<open>name: "A:B"\<close>.
\<close>

theorem replaceLineValue_quoting:
  \<open>(0 \<le> idx \<and> idx < int (length lines) \<and>
    lines ! nat idx = ind @ key @ [COLON] @ ws @ ov @ cmt \<and>
    list_all isSpace ind \<and> key \<noteq> [] \<and> list_all (\<lambda>c. \<not> isSpace c) key \<and>
    ws \<noteq> [] \<and> list_all isSpace ws \<and>
    HASH \<notin> set ov \<and> (ov = [] \<or> \<not> isSpace (hd ov)) \<and> \<not> list_ex isLineTerm (ov @ cmt) \<and>
    (cmt = [] \<or> (\<exists>w c. cmt = w @ HASH # c \<and> list_all isSpace w \<and>
                (if ov = [] then w = [] else \<not> isSpace (last ov)))) \<longrightarrow>
    replaceLineValue lines idx (VBool b) =
      Inr (lines[nat idx := ind @ key @ [COLON] @ ws @
            (if b then str ''true'' else str ''false'') @ cmt]) \<and>
    replaceLineValue lines idx (VStr s) =
      Inr (lines[nat idx := ind @ key @ [COLON] @ ws @
            (if (startsWith (trim ov) [DQUOTE] \<and> endsWith (trim ov) [DQUOTE]) \<or>
                (startsWith (trim ov) [SQUOTE] \<and> endsWith (trim ov) [SQUOTE]) \<or>
                COLON \<in> set s \<or> HASH \<in> set s \<or> SPACE \<in> set s
             then [DQUOTE] @ s @ [DQUOTE] else s) @ cmt])) \<and>
   (0 \<le> idx \<and> idx < int (length lines) \<and>
    lines ! nat idx = ind @ key @ [COLON] @ ws @ rest \<and>
    list_all isSpace ind \<and> key \<noteq> [] \<and> list_all (\<lambda>c. \<not> isSpace c) key \<and>
    ws \<noteq> [] \<and> list_all isSpace ws \<and>
    (rest = [] \<or> \<not> isSpace (hd rest)) \<and> list_ex isLineTerm rest \<longrightarrow>
    replaceLineValue lines idx v = Inr lines) \<and>
   replaceLineValue [str ''name: "Alice"''] 0 (VStr (str ''Bob'')) = Inr [str ''name: "Bob"''] \<and>
   replaceLineValue [str ''name: Alice''] 0 (VStr (str ''A:B'')) = Inr [str ''name: "A:B"'']\<close>
proof (intro conjI impI)
  assume a: "0 \<le> idx \<and> idx < int (length lines) \<and>
    lines ! nat idx = ind @ key @ [COLON] @ ws @ ov @ cmt \<and>
    list_all isSpace ind \<and> key \<noteq> [] \<and> list_all (\<lambda>c. \<not> isSpace c) key \<and>
    ws \<noteq> [] \<and> list_all isSpace ws \<and>
    HASH \<notin> set ov \<and> (ov = [] \<or> \<not> isSpace (hd ov)) \<and> \<not> list_ex isLineTerm (ov @ cmt) \<and>
    (cmt = [] \<or> (\<exists>w c. cmt = w @ HASH # c \<and> list_all isSpace w \<and>
                (if ov = [] then w = [] else \<not> isSpace (last ov))))"
  have s: "replaceLineValue lines idx v =
           Inr (lines[nat idx := ind @ key @ [COLON] @ ws @ formatValue (ov @ cmt) cmt v @ cmt])
         \<and> take (length (ov @ cmt) - length cmt) (ov @ cmt) = ov" for v
    by (rule replaceLineValue_shape) (use a in blast)+
  show "replaceLineValue lines idx (VBool b) =
      Inr (lines[nat idx := ind @ key @ [COLON] @ ws @
            (if b then str ''true'' else str ''false'') @ cmt])"
    using s[of "VBool b"] by (simp add: formatValue_def)
  have f: "formatValue (ov @ cmt) cmt (VStr s) =
            (if (startsWith (trim ov) [DQUOTE] \<and> endsWith (trim ov) [DQUOTE]) \<or>
                (startsWith (trim ov) [SQUOTE] \<and> endsWith (trim ov) [SQUOTE]) \<or>
                COLON \<in> set s \<or> HASH \<in> set s \<or> SPACE \<in> set s
             then [DQUOTE] @ s @ [DQUOTE] else s)"
    using s[of "VStr s"] by (auto simp: formatValue_def Let_def)
  show "replaceLineValue lines idx (VStr s) =
      Inr (lines[nat idx := ind @ key @ [COLON] @ ws @
            (if (startsWith (trim ov) [DQUOTE] \<and> endsWith (trim ov) [DQUOTE]) \<or>
                (startsWith (trim ov) [SQUOTE] \<and> endsWith (trim ov) [SQUOTE]) \<or>
                COLON \<in> set s \<or> HASH \<in> set s \<or> SPACE \<in> set s
             then [DQUOTE] @ s @ [DQUOTE] else s) @ cmt])"
    using s[of "VStr s"] unfolding f by blast
next
  assume a: "0 \<le> idx \<and> idx < int (length lines) \<and>
    lines ! nat idx = ind @ key @ [COLON] @ ws @ rest \<and>
    list_all isSpace ind \<and> key \<noteq> [] \<and> list_all (\<lambda>c. \<not> isSpace c) key \<and>
    ws \<noteq> [] \<and> list_all isSpace ws \<and>
    (rest = [] \<or> \<not> isSpace (hd rest)) \<and> list_ex isLineTerm rest"
  then have "matchKeyValue (lines ! nat idx) = None"
    using matchKeyValue_line_terminator[of ind key ws rest] by simp
  with a show "replaceLineValue lines idx v = Inr lines"
    by (simp add: replaceLineValue_def getLine_def)
next
  show \<open>replaceLineValue [str ''name: "Alice"''] 0 (VStr (str ''Bob'')) = Inr [str ''name: "Bob"'']\<close>
    by code_simp
  show \<open>replaceLineValue [str ''name: Alice''] 0 (VStr (str ''A:B'')) = Inr [str ''name: "A:B"'']\<close>
    by code_simp
qed


theorem replaceLineValue_quoting_witness:
  \<open>replaceLineValue [str ''  name: "Al"  # who''] 0 (VStr (str ''Bob'')) = Inr [str ''  name: "Bob"  # who''] \<and>
   replaceLineValue [str ''  name: "Al"  # who''] 0 (VBool True) = Inr [str ''  name: true  # who''] \<and>
   replaceLineValue [str ''name: "Morning #1"''] 0 (VStr (str ''Evening'')) = Inr [str ''name: Evening #1"''] \<and>
   replaceLineValue [str ''name: "Alice"'' @ [13]] 0 (VStr (str ''Bob'')) = Inr [str ''name: "Alice"'' @ [13]]\<close>
proof -
  have h: \<open>0 \<le> (0::int) \<and> 0 < int (length [str ''  name: "Al"  # who'']) \<and>
    [str ''  name: "Al"  # who''] ! nat 0 = str ''  '' @ str ''name'' @ [COLON] @ str '' '' @ str ''"Al"'' @ str ''  # who'' \<and>
    list_all isSpace (str ''  '') \<and> str ''name'' \<noteq> [] \<and> list_all (\<lambda>c. \<not> isSpace c) (str ''name'') \<and>
    str '' '' \<noteq> [] \<and> list_all isSpace (str '' '') \<and>
    HASH \<notin> set (str ''"Al"'') \<and> (str ''"Al"'' = [] \<or> \<not> isSpace (hd (str ''"Al"''))) \<and>
    \<not> list_ex isLineTerm (str ''"Al"'' @ str ''  # who'')\<close>
    by code_simp
  have c: \<open>str ''  # who'' = str ''  '' @ HASH # str '' who'' \<and> list_all isSpace (str ''  '') \<and>
                (if str ''"Al"'' = [] then str ''  '' = [] else \<not> isSpace (last (str ''"Al"'')))\<close>
    by code_simp
  then have c': \<open>str ''  # who'' = [] \<or> (\<exists>w c. str ''  # who'' = w @ HASH # c \<and> list_all isSpace w \<and>
                (if str ''"Al"'' = [] then w = [] else \<not> isSpace (last (str ''"Al"''))))\<close>
    by blast
  have e: \<open>[str ''  name: "Al"  # who''][nat 0 := str ''  '' @ str ''name'' @ [COLON] @ str '' '' @
            (if (startsWith (trim (str ''"Al"'')) [DQUOTE] \<and> endsWith (trim (str ''"Al"'')) [DQUOTE]) \<or>
                (startsWith (trim (str ''"Al"'')) [SQUOTE] \<and> endsWith (trim (str ''"Al"'')) [SQUOTE]) \<or>
                COLON \<in> set (str ''Bob'') \<or> HASH \<in> set (str ''Bob'') \<or> SPACE \<in> set (str ''Bob'')
             then [DQUOTE] @ str ''Bob'' @ [DQUOTE] else str ''Bob'') @ str ''  # who''] = [str ''  name: "Bob"  # who'']\<close>
       \<open>[str ''  name: "Al"  # who''][nat 0 := str ''  '' @ str ''name'' @ [COLON] @ str '' '' @
            (if True then str ''true'' else str ''false'') @ str ''  # who''] = [str ''  name: true  # who'']\<close>
    by code_simp+
  have h2: \<open>0 \<le> (0::int) \<and> 0 < int (length [str ''name: "Morning #1"'']) \<and>
    [str ''name: "Morning #1"''] ! nat 0 = [] @ str ''name'' @ [COLON] @ str '' '' @ str ''"Morning'' @ str '' #1"'' \<and>
    list_all isSpace [] \<and> str ''name'' \<noteq> [] \<and> list_all (\<lambda>c. \<not> isSpace c) (str ''name'') \<and>
    str '' '' \<noteq> [] \<and> list_all isSpace (str '' '') \<and>
    HASH \<notin> set (str ''"Morning'') \<and> (str ''"Morning'' = [] \<or> \<not> isSpace (hd (str ''"Morning''))) \<and>
    \<not> list_ex isLineTerm (str ''"Morning'' @ str '' #1"'')\<close>
    by code_simp
  have c2: \<open>str '' #1"'' = str '' '' @ HASH # str ''1"'' \<and> list_all isSpace (str '' '') \<and>
                (if str ''"Morning'' = [] then str '' '' = [] else \<not> isSpace (last (str ''"Morning'')))\<close>
    by code_simp
  then have c2': \<open>str '' #1"'' = [] \<or> (\<exists>w c. str '' #1"'' = w @ HASH # c \<and> list_all isSpace w \<and>
                (if str ''"Morning'' = [] then w = [] else \<not> isSpace (last (str ''"Morning''))))\<close>
    by blast
  have e2: \<open>[str ''name: "Morning #1"''][nat 0 := [] @ str ''name'' @ [COLON] @ str '' '' @
            (if (startsWith (trim (str ''"Morning'')) [DQUOTE] \<and> endsWith (trim (str ''"Morning'')) [DQUOTE]) \<or>
                (startsWith (trim (str ''"Morning'')) [SQUOTE] \<and> endsWith (trim (str ''"Morning'')) [SQUOTE]) \<or>
                COLON \<in> set (str ''Evening'') \<or> HASH \<in> set (str ''Evening'') \<or> SPACE \<in> set (str ''Evening'')
             then [DQUOTE] @ str ''Evening'' @ [DQUOTE] else str ''Evening'') @ str '' #1"''] = [str ''name: Evening #1"'']\<close>
    by code_simp
  have h3: \<open>0 \<le> (0::int) \<and> 0 < int (length [str ''name: "Alice"'' @ [13]]) \<and>
    [str ''name: "Alice"'' @ [13]] ! nat 0 = [] @ str ''name'' @ [COLON] @ str '' '' @ (str ''"Alice"'' @ [13]) \<and>
    list_all isSpace [] \<and> str ''name'' \<noteq> [] \<and> list_all (\<lambda>c. \<not> isSpace c) (str ''name'') \<and>
    str '' '' \<noteq> [] \<and> list_all isSpace (str '' '') \<and>
    (str ''"Alice"'' @ [13] = [] \<or> \<not> isSpace (hd (str ''"Alice"'' @ [13]))) \<and>
    list_ex isLineTerm (str ''"Alice"'' @ [13])\<close>
    by code_simp
  note t1 = replaceLineValue_quoting[of 0 \<open>[str ''  name: "Al"  # who'']\<close> \<open>str ''  ''\<close> \<open>str ''name''\<close>
      \<open>str '' ''\<close> \<open>str ''"Al"''\<close> \<open>str ''  # who''\<close> True \<open>str ''Bob''\<close> \<open>[]\<close> \<open>VBool True\<close>,
      THEN conjunct1, rule_format]
  note t2 = replaceLineValue_quoting[of 0 \<open>[str ''name: "Morning #1"'']\<close> \<open>[]\<close> \<open>str ''name''\<close>
      \<open>str '' ''\<close> \<open>str ''"Morning''\<close> \<open>str '' #1"''\<close> True \<open>str ''Evening''\<close> \<open>[]\<close> \<open>VBool True\<close>,
      THEN conjunct1, rule_format]
  note t3 = replaceLineValue_quoting[of 0 \<open>[str ''name: "Alice"'' @ [13]]\<close> \<open>[]\<close> \<open>str ''name''\<close>
      \<open>str '' ''\<close> \<open>[]\<close> \<open>[]\<close> True \<open>[]\<close> \<open>str ''"Alice"'' @ [13]\<close> \<open>VStr (str ''Bob'')\<close>,
      THEN conjunct2, THEN conjunct1, rule_format]
  from h c' have a1: \<open>0 \<le> (0::int) \<and> 0 < int (length [str ''  name: "Al"  # who'']) \<and>
    [str ''  name: "Al"  # who''] ! nat 0 = str ''  '' @ str ''name'' @ [COLON] @ str '' '' @ str ''"Al"'' @ str ''  # who'' \<and>
    list_all isSpace (str ''  '') \<and> str ''name'' \<noteq> [] \<and> list_all (\<lambda>c. \<not> isSpace c) (str ''name'') \<and>
    str '' '' \<noteq> [] \<and> list_all isSpace (str '' '') \<and>
    HASH \<notin> set (str ''"Al"'') \<and> (str ''"Al"'' = [] \<or> \<not> isSpace (hd (str ''"Al"''))) \<and>
    \<not> list_ex isLineTerm (str ''"Al"'' @ str ''  # who'') \<and>
    (str ''  # who'' = [] \<or> (\<exists>w c. str ''  # who'' = w @ HASH # c \<and> list_all isSpace w \<and>
                (if str ''"Al"'' = [] then w = [] else \<not> isSpace (last (str ''"Al"'')))))\<close>
    by blast
  from h2 c2' have a2: \<open>0 \<le> (0::int) \<and> 0 < int (length [str ''name: "Morning #1"'']) \<and>
    [str ''name: "Morning #1"''] ! nat 0 = [] @ str ''name'' @ [COLON] @ str '' '' @ str ''"Morning'' @ str '' #1"'' \<and>
    list_all isSpace [] \<and> str ''name'' \<noteq> [] \<and> list_all (\<lambda>c. \<not> isSpace c) (str ''name'') \<and>
    str '' '' \<noteq> [] \<and> list_all isSpace (str '' '') \<and>
    HASH \<notin> set (str ''"Morning'') \<and> (str ''"Morning'' = [] \<or> \<not> isSpace (hd (str ''"Morning''))) \<and>
    \<not> list_ex isLineTerm (str ''"Morning'' @ str '' #1"'') \<and>
    (str '' #1"'' = [] \<or> (\<exists>w c. str '' #1"'' = w @ HASH # c \<and> list_all isSpace w \<and>
                (if str ''"Morning'' = [] then w = [] else \<not> isSpace (last (str ''"Morning'')))))\<close>
    by blast
  from t1[OF a1] t2[OF a2] t3[OF h3] show ?thesis unfolding e e2 by blast
qed


text \<open>
  C2 as stated fails: on an unquoted line an empty new value, and a new value that
  contains a double quote, are both emitted bare. A hash inside a quoted previous value
  starts the trailing comment, so that value does not count as quoted: the line
  \<^verbatim>\<open>name: "Morning #1"\<close>, which the patcher itself writes, comes back with an
  unquoted new value in front of the rest of the old one. A quoted value followed by a
  carriage return is not replaced at all.
\<close>

theorem replaceLineValue_quoting_counterexample:
  \<open>replaceLineValue [str ''name: Alice''] 0 (VStr (str '''')) = Inr [str ''name: ''] \<and>
   replaceLineValue [str ''name: Alice''] 0 (VStr (str ''say"hi'')) = Inr [str ''name: say"hi''] \<and>
   replaceLineValue [str ''name: "Morning #1"''] 0 (VStr (str ''Evening'')) = Inr [str ''name: Evening #1"''] \<and>
   replaceLineValue [str ''name: Morning''] 0 (VStr (str ''Morning #1'')) = Inr [str ''name: "Morning #1"''] \<and>
   replaceLineValue [str ''name: "Alice"'' @ [13]] 0 (VStr (str ''Bob'')) = Inr [str ''name: "Alice"'' @ [13]]\<close>
  by code_simp


section \<open>Facts about the field update\<close>

lemma findCustomLine_bounds:
  "findCustomLine ls i = - 1 \<or> (i \<le> findCustomLine ls i \<and> findCustomLine ls i < i + int (length ls))"
proof (induction ls arbitrary: i)
  case Nil
  then show ?case by simp
next
  case (Cons l ls)
  from Cons[of "i + 1"] show ?case by auto
qed

lemma findCustomLine_absent:
  "\<forall>l\<in>set ls. \<not> startsWith l (str ''custom:'') \<Longrightarrow> findCustomLine ls i = - 1"
  by (induction ls arbitrary: i) auto

lemma matchIndentedKey_matchKey:
  "matchIndentedKey l = Some (ws, k) \<Longrightarrow> matchKey l = Some k"
  by (auto simp: matchIndentedKey_def matchKey_def Let_def split: if_splits option.splits)

lemma findPresetLine_bounds:
  "fst (findPresetLine n ls i b) = - 1 \<or>
   (i \<le> fst (findPresetLine n ls i b) \<and> fst (findPresetLine n ls i b) < i + int (length ls))"
proof (induction ls arbitrary: i b)
  case Nil
  then show ?case by simp
next
  case (Cons l ls)
  from Cons[of "i + 1" True] Cons[of "i + 1" b] show ?case
    by (auto split: option.splits)
qed

lemma findPresetLine_absent:
  "\<forall>l\<in>set ls. matchKey l \<noteq> Some n \<Longrightarrow> fst (findPresetLine n ls i b) = - 1"
proof (induction ls arbitrary: i b)
  case Nil
  then show ?case by simp
next
  case (Cons l ls)
  then have rest: "\<And>j c. fst (findPresetLine n ls j c) = - 1" by simp
  from Cons.prems have "matchKey l \<noteq> Some n" by simp
  then have "\<And>ws. matchIndentedKey l \<noteq> Some (ws, n)"
    using matchIndentedKey_matchKey by blast
  with rest show ?case by (auto split: option.splits)
qed

lemma locateSectionStart_bounds:
  "fst (locateSectionStart n lines) = - 1 \<or>
   (0 \<le> fst (locateSectionStart n lines) \<and> fst (locateSectionStart n lines) < int (length lines))"
  using findCustomLine_bounds[of lines 0] findPresetLine_bounds[of n lines 0 False]
  by (auto simp: locateSectionStart_def)

lemma findBlockEndFrom_total:
  "0 \<le> i \<Longrightarrow> m \<le> int (length lines) \<Longrightarrow>
   \<exists>r. findBlockEndFrom lines i ind m = Inr r \<and> r \<le> m \<and> (i \<le> m \<longrightarrow> i \<le> r)"
proof (induction lines i ind m rule: findBlockEndFrom.induct)
  case (1 lines i ind m)
  show ?case
  proof (cases "i < m")
    case False
    then show ?thesis by (simp add: findBlockEndFrom.simps[of lines i])
  next
    case True
    with "1.prems" have g: "getLine lines i = Inr (lines ! nat i)" by (simp add: getLine_def)
    have nx: "0 \<le> i + 1" using "1.prems" by simp
    show ?thesis
    proof (cases "skipLine (lines ! nat i)")
      case sk: True
      from "1.IH"(1)[OF True g sk nx "1.prems"(2)] True g sk show ?thesis
        by (auto simp add: findBlockEndFrom.simps[of lines i])
    next
      case sk: False
      show ?thesis
      proof (cases "searchNonSpace (lines ! nat i) \<le> ind")
        case True
        with \<open>i < m\<close> g sk show ?thesis by (simp add: findBlockEndFrom.simps[of lines i])
      next
        case st: False
        from "1.IH"(2)[OF True g sk st nx "1.prems"(2)] True g sk st show ?thesis
          by (auto simp add: findBlockEndFrom.simps[of lines i])
      qed
    qed
  qed
qed

lemma findBlockEnd_total:
  "- 1 \<le> s \<Longrightarrow> m \<le> int (length lines) \<Longrightarrow>
   \<exists>r. findBlockEnd lines s ind m = Inr r \<and> r \<le> m \<and> (s < m \<longrightarrow> s < r)"
  using findBlockEndFrom_total[of "s + 1" m lines ind] by (auto simp: findBlockEnd_def)

lemma findChildKey_cases:
  assumes "- 1 \<le> s" "e \<le> int (length lines)"
  shows "findChildKey lines s e p k = Inr (- 1) \<or>
         (\<exists>r. findChildKey lines s e p k = Inr r \<and> s < r \<and> r < e \<and> 0 \<le> r \<and>
              r < int (length lines) \<and> matchKey (lines ! nat r) = Some k)"
proof -
  from assms have "0 \<le> s + 1" by simp
  from findChildKeyFrom_total[OF this assms(2), of p k] obtain r where
    r: "findChildKeyFrom lines (s + 1) e p k = Inr r" by blast
  from findChildKeyFrom_result[OF r] r show ?thesis
    by (auto simp: findChildKey_def)
qed

lemma joinWith_Cons_Cons: "joinWith sep ((c # l) # ls) = c # joinWith sep (l # ls)"
  by (cases ls) auto

lemma joinWith_splitOn: "joinWith [d] (splitOn d s) = s"
proof (induction s)
  case Nil
  then show ?case by simp
next
  case (Cons c cs)
  obtain l ls where sp: "splitOn d cs = l # ls"
    using splitOn_nonempty[of d cs] by (cases "splitOn d cs") auto
  show ?case
  proof (cases "c = d")
    case True
    with Cons sp show ?thesis by simp
  next
    case False
    with Cons sp show ?thesis by (simp add: joinWith_Cons_Cons)
  qed
qed

lemma length_joinWith:
  "length (joinWith sep xs) = sum_list (map length xs) + (length xs - 1) * length sep"
  by (induction sep xs rule: joinWith.induct) auto

lemma joinWith_insert_longer:
  assumes "n \<le> length xs" "newItems \<noteq> []" "xs \<noteq> []"
  shows "length (joinWith [LF] xs) < length (joinWith [LF] (take n xs @ newItems @ drop n xs))"
proof -
  have "sum_list (map length (take n xs)) + sum_list (map length (drop n xs)) = sum_list (map length xs)"
    by (metis append_take_drop_id map_append sum_list.append)
  then have s: "sum_list (map length (take n xs @ newItems @ drop n xs)) =
             sum_list (map length xs) + sum_list (map length newItems)" by simp
  have l: "length (take n xs @ newItems @ drop n xs) = length xs + length newItems" using assms(1) by simp
  show ?thesis unfolding length_joinWith s l using assms(2,3)
    by (cases xs; cases newItems) auto
qed

lemma findChildKey_range:
  assumes "findChildKey lines s e p k = Inr r" "0 \<le> r"
  shows "s < r \<and> r < e \<and> r < int (length lines) \<and> \<not> skipLine (lines ! nat r) \<and>
         searchNonSpace (lines ! nat r) = p + 2 \<and> matchKey (lines ! nat r) = Some k"
proof -
  from assms(1) have "findChildKeyFrom lines (s + 1) e p k = Inr r" by (simp add: findChildKey_def)
  from findChildKeyFrom_result[OF this] assms(2) show ?thesis by auto
qed

lemma findChildKey_no_child:
  assumes "- 1 \<le> s" "e \<le> int (length lines)"
    and "\<forall>j. s < j \<and> j < e \<longrightarrow>
           \<not> (\<not> skipLine (lines ! nat j) \<and> searchNonSpace (lines ! nat j) = p + 2 \<and>
              matchKey (lines ! nat j) = Some k)"
  shows "findChildKey lines s e p k = Inr (- 1)"
proof -
  from assms have "0 \<le> s + 1" by simp
  from findChildKeyFrom_total[OF this assms(2), of p k] obtain r where
    r: "findChildKeyFrom lines (s + 1) e p k = Inr r" by blast
  then have fr: "findChildKey lines s e p k = Inr r" by (simp add: findChildKey_def)
  show ?thesis
  proof (cases "0 \<le> r")
    case True
    from findChildKey_range[OF fr True] assms(3) show ?thesis by blast
  next
    case False
    with findChildKeyFrom_result[OF r] fr show ?thesis by auto
  qed
qed

lemma insertTimelineField_shape:
  assumes "- 1 \<le> ts" "0 \<le> te" "te \<le> int (length lines)"
  shows "\<exists>n newItems. n \<le> length lines \<and> newItems \<noteq> [] \<and>
           insertTimelineField lines ts te ti field v parts = Inr (take n lines @ newItems @ drop n lines) \<and>
           (length parts = 1 \<longrightarrow> n = nat te \<and>
              newItems = [spaces (ti + 2) @ field @ str '': '' @ formatInserted v])"
proof (cases "length parts = 1")
  case True
  have "insertTimelineField lines ts te ti field v parts =
        Inr (take (nat te) lines @ [spaces (ti + 2) @ field @ str '': '' @ formatInserted v] @ drop (nat te) lines)"
    using True splice_insert[OF assms(2,3)] by (simp add: insertTimelineField_def Let_def)
  with assms True show ?thesis
    by (intro exI[of _ "nat te"] exI[of _ "[spaces (ti + 2) @ field @ str '': '' @ formatInserted v]"]) simp
next
  case False
  show ?thesis
  proof (cases "findChildKey lines ts te ti (parts ! 0) = Inr (- 1)")
    case True
    have "insertTimelineField lines ts te ti field v parts =
        Inr (take (nat te) lines @
             [spaces (ti + 2) @ (parts ! 0) @ str '':'',
              spaces (ti + 2) @ str ''  '' @ (parts ! 1) @ str '': '' @ formatInserted v] @
             drop (nat te) lines)"
      using True False splice_insert[OF assms(2,3)]
      by (simp add: insertTimelineField_def Let_def ebind_def)
    with assms False show ?thesis
      by (intro exI[of _ "nat te"] exI[of _ "[spaces (ti + 2) @ (parts ! 0) @ str '':'',
              spaces (ti + 2) @ str ''  '' @ (parts ! 1) @ str '': '' @ formatInserted v]"]) simp
  next
    case nf: False
    with findChildKey_cases[OF assms(1,3), of ti "parts ! 0"] obtain r where
      r: "findChildKey lines ts te ti (parts ! 0) = Inr r" "ts < r" "r < te" "0 \<le> r"
         "r < int (length lines)" by blast
    from r have r1: "- 1 \<le> r" by simp
    from findBlockEnd_total[OF r1 assms(3), of "searchNonSpace (lines ! nat r)"] r(3) obtain pe where
      pe: "findBlockEnd lines r (searchNonSpace (lines ! nat r)) te = Inr pe" "pe \<le> te" "r < pe"
      by blast
    then have b: "0 \<le> pe" "pe \<le> int (length lines)" using r assms by simp_all
    have "insertTimelineField lines ts te ti field v parts =
        Inr (take (nat pe) lines @
             [spaces (searchNonSpace (lines ! nat r) + 2) @ (parts ! 1) @ str '': '' @ formatInserted v] @
             drop (nat pe) lines)"
      using False r pe splice_insert[OF b]
      by (simp add: insertTimelineField_def Let_def ebind_def getLine_def)
    with b False show ?thesis
      by (intro exI[of _ "nat pe"]
            exI[of _ "[spaces (searchNonSpace (lines ! nat r) + 2) @ (parts ! 1) @ str '': '' @ formatInserted v]"])
         simp
  qed
qed

lemma updateTimelineField_located:
  assumes "locateSectionStart presetName (splitOn LF yaml) = (ss, si)" "0 \<le> ss"
    and "findBlockEndFrom (splitOn LF yaml) (ss + 1) si (int (length (splitOn LF yaml))) = Inr se"
    and "locateTarget (splitOn LF yaml) ss se si periodKey = Inr (Some ts)" "0 \<le> ts"
        "ts < int (length (splitOn LF yaml))"
    and "findBlockEnd (splitOn LF yaml) ts (searchNonSpace (splitOn LF yaml ! nat ts)) se = Inr te"
    and "locateField (splitOn LF yaml) ts te (searchNonSpace (splitOn LF yaml ! nat ts))
           (splitOn DOT field) = Inr lineIdx"
  shows "updateTimelineField presetName periodKey field v yaml =
           ebind (if lineIdx < 0
                  then insertTimelineField (splitOn LF yaml) ts te
                         (searchNonSpace (splitOn LF yaml ! nat ts)) field v (splitOn DOT field)
                  else replaceLineValue (splitOn LF yaml) lineIdx v)
             (\<lambda>lines'. Inr (joinWith [LF] lines'))"
  using assms by (simp add: updateTimelineField_def Let_def ebind_def getLine_def)

lemma updateTimelineField_section_absent:
  assumes "fst (locateSectionStart presetName (splitOn LF yaml)) < 0"
  shows "updateTimelineField presetName periodKey field v yaml = Inr yaml"
  using assms by (auto simp: updateTimelineField_def Let_def split: prod.splits)

lemma locateTarget_default:
  "locateTarget lines ss se si (str ''default'') =
     ebind (findChildKey lines ss se si (str ''default'')) (\<lambda>t. Inr (Some t))"
  by (simp add: locateTarget_def)

lemma locateTarget_period:
  assumes "periodKey \<noteq> str ''default''"
    "findChildKey lines ss se si (str ''periods'') = Inr pl" "0 \<le> pl"
    "findBlockEnd lines pl (searchNonSpace (lines ! nat pl)) se = Inr pe"
  shows "locateTarget lines ss se si periodKey =
         ebind (findChildKey lines pl pe (searchNonSpace (lines ! nat pl)) periodKey) (\<lambda>t. Inr (Some t))"
proof -
  from findChildKey_range[OF assms(2,3)] have "pl < int (length lines)" by simp
  with assms show ?thesis by (simp add: locateTarget_def ebind_def getLine_def Let_def)
qed


lemma updateTimelineField_absent:
  assumes "locateSectionStart presetName (splitOn LF yaml) = (ss, si)"
    and "(presetName = str ''custom'' \<and> (\<forall>l\<in>set (splitOn LF yaml). \<not> startsWith l (str ''custom:''))) \<or>
    (presetName \<noteq> str ''custom'' \<and> (\<forall>l\<in>set (splitOn LF yaml). matchKey l \<noteq> Some presetName)) \<or>
    ss < 0"
  shows "updateTimelineField presetName periodKey field v yaml = Inr yaml"
proof -
  let ?lines = "splitOn LF yaml"
  have "ss < 0"
  proof (rule ccontr)
    assume n: "\<not> ss < 0"
    from assms(2) n consider
      (c) "presetName = str ''custom''" "\<forall>l\<in>set ?lines. \<not> startsWith l (str ''custom:'')"
      | (p) "presetName \<noteq> str ''custom''" "\<forall>l\<in>set ?lines. matchKey l \<noteq> Some presetName"
      by blast
    then show False
    proof cases
      case c
      then have "findCustomLine ?lines 0 = - 1" using findCustomLine_absent by blast
      with c assms(1) n show False by (simp add: locateSectionStart_def)
    next
      case p
      then have "fst (findPresetLine presetName ?lines 0 False) = - 1"
        using findPresetLine_absent by blast
      with p assms(1) n show False by (simp add: locateSectionStart_def)
    qed
  qed
  with assms(1) show ?thesis using updateTimelineField_section_absent[of presetName yaml] by simp
qed

lemma updateTimelineField_section_end:
  assumes "locateSectionStart presetName (splitOn LF yaml) = (ss, si)" "0 \<le> ss"
  shows "(\<exists>e. findBlockEndFrom (splitOn LF yaml) (ss + 1) si (int (length (splitOn LF yaml))) = Inr e \<and> ss < e \<and> e \<le> int (length (splitOn LF yaml)))"
proof -
  from locateSectionStart_bounds[of presetName "splitOn LF yaml"] assms
  have ss: "ss < int (length (splitOn LF yaml))" by simp
  from assms(2) have s1: "0 \<le> ss + 1" by simp
  from findBlockEndFrom_total[OF s1 order_refl, where lines = "splitOn LF yaml" and ind = si] ss
  show ?thesis by auto
qed

lemma section_end_bound:
  assumes "0 \<le> ss" "findBlockEndFrom lines (ss + 1) si (int (length lines)) = Inr se"
  shows "se \<le> int (length lines)"
proof -
  from assms(1) have s1: "0 \<le> ss + 1" by simp
  from findBlockEndFrom_total[OF s1 order_refl, where lines = lines and ind = si] assms(2)
  show ?thesis by auto
qed

lemma updateTimelineField_skip:
  assumes "locateSectionStart presetName (splitOn LF yaml) = (ss, si)" "0 \<le> ss"
    and "findBlockEndFrom (splitOn LF yaml) (ss + 1) si (int (length (splitOn LF yaml))) = Inr se"
    and "locateTarget (splitOn LF yaml) ss se si periodKey = Inr None \<or>
         locateTarget (splitOn LF yaml) ss se si periodKey = Inr (Some (- 1))"
  shows "updateTimelineField presetName periodKey field v yaml = Inr yaml"
  using assms by (auto simp: updateTimelineField_def Let_def ebind_def)

lemma updateTimelineField_no_default:
  assumes "locateSectionStart presetName (splitOn LF yaml) = (ss, si)" "0 \<le> ss \<and> findBlockEndFrom (splitOn LF yaml) (ss + 1) si (int (length (splitOn LF yaml))) = Inr se"
    and "periodKey = str ''default'' \<and>
       (findChildKey (splitOn LF yaml) ss se si (str ''default'') = Inr (- 1) \<or>
        (\<forall>j. ss < j \<and> j < se \<longrightarrow>
           \<not> (\<not> skipLine ((splitOn LF yaml) ! nat j) \<and> searchNonSpace ((splitOn LF yaml) ! nat j) = si + 2 \<and>
              matchKey ((splitOn LF yaml) ! nat j) = Some (str ''default''))))"
  shows "updateTimelineField presetName periodKey field v yaml = Inr yaml"
proof -
  from assms(2) have se: "se \<le> int (length (splitOn LF yaml))" using section_end_bound by blast
  from assms(2) have s: "- 1 \<le> ss" by simp
  from assms(3) have "findChildKey (splitOn LF yaml) ss se si (str ''default'') = Inr (- 1)"
    using findChildKey_no_child[OF s se, of si "str ''default''"] by blast
  with assms(3) have "locateTarget (splitOn LF yaml) ss se si periodKey = Inr (Some (- 1))"
    by (simp add: locateTarget_default ebind_def)
  with assms show ?thesis using updateTimelineField_skip by blast
qed

lemma updateTimelineField_no_periods:
  assumes "locateSectionStart presetName (splitOn LF yaml) = (ss, si)" "0 \<le> ss \<and> findBlockEndFrom (splitOn LF yaml) (ss + 1) si (int (length (splitOn LF yaml))) = Inr se"
    and "periodKey \<noteq> str ''default'' \<and>
       (findChildKey (splitOn LF yaml) ss se si (str ''periods'') = Inr (- 1) \<or>
        (\<forall>j. ss < j \<and> j < se \<longrightarrow>
           \<not> (\<not> skipLine ((splitOn LF yaml) ! nat j) \<and> searchNonSpace ((splitOn LF yaml) ! nat j) = si + 2 \<and>
              matchKey ((splitOn LF yaml) ! nat j) = Some (str ''periods''))))"
  shows "updateTimelineField presetName periodKey field v yaml = Inr yaml"
proof -
  from assms(2) have se: "se \<le> int (length (splitOn LF yaml))" using section_end_bound by blast
  from assms(2) have s: "- 1 \<le> ss" by simp
  from assms(3) have "findChildKey (splitOn LF yaml) ss se si (str ''periods'') = Inr (- 1)"
    using findChildKey_no_child[OF s se, of si "str ''periods''"] by blast
  with assms(3) have "locateTarget (splitOn LF yaml) ss se si periodKey = Inr None"
    by (simp add: locateTarget_def ebind_def)
  with assms show ?thesis using updateTimelineField_skip by blast
qed

lemma updateTimelineField_no_period:
  assumes "locateSectionStart presetName (splitOn LF yaml) = (ss, si)" "0 \<le> ss \<and> findBlockEndFrom (splitOn LF yaml) (ss + 1) si (int (length (splitOn LF yaml))) = Inr se"
    and "periodKey \<noteq> str ''default'' \<and> findChildKey (splitOn LF yaml) ss se si (str ''periods'') = Inr pl \<and> 0 \<le> pl \<and>
       findBlockEnd (splitOn LF yaml) pl (searchNonSpace ((splitOn LF yaml) ! nat pl)) se = Inr pe \<and>
       (findChildKey (splitOn LF yaml) pl pe (searchNonSpace ((splitOn LF yaml) ! nat pl)) periodKey = Inr (- 1) \<or>
        (\<forall>j. pl < j \<and> j < pe \<longrightarrow>
           \<not> (\<not> skipLine ((splitOn LF yaml) ! nat j) \<and> searchNonSpace ((splitOn LF yaml) ! nat j) = (searchNonSpace ((splitOn LF yaml) ! nat pl)) + 2 \<and>
              matchKey ((splitOn LF yaml) ! nat j) = Some periodKey)))"
  shows "updateTimelineField presetName periodKey field v yaml = Inr yaml"
proof -
  let ?lines = "splitOn LF yaml"
  from assms(2) have se: "se \<le> int (length ?lines)" using section_end_bound by blast
  from assms(3) have pl: "periodKey \<noteq> str ''default''"
    "findChildKey ?lines ss se si (str ''periods'') = Inr pl" "0 \<le> pl"
    "findBlockEnd ?lines pl (searchNonSpace (?lines ! nat pl)) se = Inr pe" by blast+
  from pl(3) have s: "- 1 \<le> pl" by simp
  from findBlockEnd_total[OF s se, of "searchNonSpace (?lines ! nat pl)"] pl(4) se
  have pe: "pe \<le> int (length ?lines)" by auto
  from assms(3) have "findChildKey ?lines pl pe (searchNonSpace (?lines ! nat pl)) periodKey = Inr (- 1)"
    using findChildKey_no_child[OF s pe, of "searchNonSpace (?lines ! nat pl)" periodKey] by blast
  then have "locateTarget ?lines ss se si periodKey = Inr (Some (- 1))"
    unfolding locateTarget_period[OF pl] by (simp add: ebind_def)
  with assms show ?thesis using updateTimelineField_skip by blast
qed

lemma updateTimelineField_inserts:
  assumes "locateSectionStart presetName (splitOn LF yaml) = (ss, si)" "0 \<le> ss \<and> findBlockEndFrom (splitOn LF yaml) (ss + 1) si (int (length (splitOn LF yaml))) = Inr se"
    and "((periodKey = str ''default'' \<and> findChildKey (splitOn LF yaml) ss se si (str ''default'') = Inr ts) \<or>
        (periodKey \<noteq> str ''default'' \<and> findChildKey (splitOn LF yaml) ss se si (str ''periods'') = Inr pl \<and> 0 \<le> pl \<and>
         findBlockEnd (splitOn LF yaml) pl (searchNonSpace ((splitOn LF yaml) ! nat pl)) se = Inr pe \<and>
         findChildKey (splitOn LF yaml) pl pe (searchNonSpace ((splitOn LF yaml) ! nat pl)) periodKey = Inr ts)) \<and>
       0 \<le> ts \<and> findBlockEnd (splitOn LF yaml) ts (searchNonSpace ((splitOn LF yaml) ! nat ts)) se = Inr te \<and>
       locateField (splitOn LF yaml) ts te (searchNonSpace ((splitOn LF yaml) ! nat ts)) (splitOn DOT field) = Inr lineIdx \<and> lineIdx < 0"
  shows "(\<exists>lines'. insertTimelineField (splitOn LF yaml) ts te (searchNonSpace ((splitOn LF yaml) ! nat ts)) field v (splitOn DOT field) = Inr lines' \<and>
            length (splitOn LF yaml) < length lines' \<and>
            updateTimelineField presetName periodKey field v yaml = Inr (joinWith [LF] lines') \<and>
            updateTimelineField presetName periodKey field v yaml \<noteq> Inr yaml \<and>
            (DOT \<notin> set field \<longrightarrow>
               lines' = take (nat te) (splitOn LF yaml) @
                        [spaces (searchNonSpace ((splitOn LF yaml) ! nat ts) + 2) @ field @ str '': '' @ formatInserted v] @
                        drop (nat te) (splitOn LF yaml)))"
proof -
  let ?lines = "splitOn LF yaml"
  let ?ti = "searchNonSpace (?lines ! nat ts)"
  from assms(1) have ls: "locateSectionStart presetName ?lines = (ss, si)" .
  from assms(2) have ss: "0 \<le> ss" and fbe: "findBlockEndFrom ?lines (ss + 1) si (int (length ?lines)) = Inr se"
    by blast+
  from assms(2) have se: "se \<le> int (length ?lines)" using section_end_bound by blast
  from assms(3) have ts: "0 \<le> ts" and te: "findBlockEnd ?lines ts ?ti se = Inr te"
    and lf: "locateField ?lines ts te ?ti (splitOn DOT field) = Inr lineIdx" and neg: "lineIdx < 0"
    by blast+
  from assms(3) consider
    (d) "periodKey = str ''default''" "findChildKey ?lines ss se si (str ''default'') = Inr ts"
    | (p) "periodKey \<noteq> str ''default''" "findChildKey ?lines ss se si (str ''periods'') = Inr pl" "0 \<le> pl"
          "findBlockEnd ?lines pl (searchNonSpace (?lines ! nat pl)) se = Inr pe"
          "findChildKey ?lines pl pe (searchNonSpace (?lines ! nat pl)) periodKey = Inr ts"
    by blast
  then have loc: "locateTarget ?lines ss se si periodKey = Inr (Some ts) \<and> ts < se \<and> ts < int (length ?lines)"
  proof cases
    case d
    from findChildKey_range[OF d(2) ts] d show ?thesis
      by (simp add: locateTarget_default ebind_def)
  next
    case p
    from p(3) have s: "- 1 \<le> pl" by simp
    from findBlockEnd_total[OF s se, of "searchNonSpace (?lines ! nat pl)"] p(4)
    have pe: "pe \<le> se" by auto
    from findChildKey_range[OF p(5) ts] pe show ?thesis
      unfolding locateTarget_period[OF p(1,2,3,4)] using p(5) by (simp add: ebind_def)
  qed
  from ts have t1: "- 1 \<le> ts" by simp
  from findBlockEnd_total[OF t1 se, of ?ti] te loc se
  have teb: "ts < te" "te \<le> int (length ?lines)" by auto
  with ts have te0: "0 \<le> te" by simp
  from insertTimelineField_shape[OF t1 te0 teb(2), of ?ti field v "splitOn DOT field"]
  obtain n new where n: "n \<le> length ?lines" "new \<noteq> []"
    "insertTimelineField ?lines ts te ?ti field v (splitOn DOT field) =
       Inr (take n ?lines @ new @ drop n ?lines)"
    "length (splitOn DOT field) = 1 \<longrightarrow> n = nat te \<and>
       new = [spaces (?ti + 2) @ field @ str '': '' @ formatInserted v]" by blast
  let ?new = "take n ?lines @ new @ drop n ?lines"
  have upd: "updateTimelineField presetName periodKey field v yaml = Inr (joinWith [LF] ?new)"
    using updateTimelineField_located[where v = v, OF ls ss fbe _ ts _ te lf] loc neg n(3)
    by (simp add: ebind_def)
  have len: "length ?lines < length ?new" using n(1,2) by (cases new) auto
  have "length (joinWith [LF] ?lines) < length (joinWith [LF] ?new)"
    using joinWith_insert_longer[OF n(1,2) splitOn_nonempty] .
  then have "joinWith [LF] ?new \<noteq> yaml" by (auto simp: joinWith_splitOn)
  with upd have ne: "updateTimelineField presetName periodKey field v yaml \<noteq> Inr yaml" by simp
  have one: "DOT \<notin> set field \<longrightarrow>
      ?new = take (nat te) ?lines @ [spaces (?ti + 2) @ field @ str '': '' @ formatInserted v] @
             drop (nat te) ?lines"
    using n(4) by (auto simp: splitOn_single)
  from n(3) len upd ne one show ?thesis by blast
qed

section \<open>Claims about the field update\<close>

text \<open>
  C3 (as amended). Let \<open>lines\<close> be the lines of the editor and \<open>(ss, si)\<close> the line and
  the indentation of the section that \<open>updateTimelineField\<close> finds for the preset. The
  call returns without throwing and leaves the text of the editor as it was

  \<^item> when the section is absent: no line starts with \<^verbatim>\<open>custom:\<close>, no line carries the
    preset's key, or the search ends with \<open>ss < 0\<close>;

  \<^item> when the period is \<^verbatim>\<open>default\<close> and the section, which ends at \<open>se\<close>, has no child
    line \<^verbatim>\<open>default:\<close>;

  \<^item> when the section has no child line \<^verbatim>\<open>periods:\<close>;

  \<^item> when the block of the line \<^verbatim>\<open>periods:\<close>, which runs from \<open>pl\<close> to \<open>pe\<close>, has no
    child line that carries the period's key.

  A child line of a block is a line, neither blank nor comment, indented by two more than
  the head of the block; the navigator returns \<open>-1\<close> exactly in these cases. The end of
  a located section always exists. When the section and the period are located, at \<open>ts\<close>
  with the block end \<open>te\<close>, and only the field is missing, the call is not a no-op: it
  hands over to \<open>insertTimelineField\<close>, the line sequence grows and the text of the
  editor changes. For a field without a dot the new line is the field, a colon, a space
  and the value, indented by two more than the target, and it is inserted at the end
  of the target block.
\<close>

theorem updateTimelineField_noop:
  "lines = splitOn LF yaml \<and> locateSectionStart presetName lines = (ss, si) \<longrightarrow>
   ((presetName = str ''custom'' \<and> (\<forall>l\<in>set lines. \<not> startsWith l (str ''custom:''))) \<or>
    (presetName \<noteq> str ''custom'' \<and> (\<forall>l\<in>set lines. matchKey l \<noteq> Some presetName)) \<or>
    ss < 0 \<longrightarrow>
      updateTimelineField presetName periodKey field v yaml = Inr yaml) \<and>
   (0 \<le> ss \<longrightarrow>
      (\<exists>e. findBlockEndFrom lines (ss + 1) si (int (length lines)) = Inr e \<and> ss < e \<and> e \<le> int (length lines))) \<and>
   (0 \<le> ss \<and> findBlockEndFrom lines (ss + 1) si (int (length lines)) = Inr se \<longrightarrow>
      (periodKey = str ''default'' \<and>
       (findChildKey lines ss se si (str ''default'') = Inr (- 1) \<or>
        (\<forall>j. ss < j \<and> j < se \<longrightarrow>
           \<not> (\<not> skipLine (lines ! nat j) \<and> searchNonSpace (lines ! nat j) = si + 2 \<and>
              matchKey (lines ! nat j) = Some (str ''default'')))) \<longrightarrow>
         updateTimelineField presetName periodKey field v yaml = Inr yaml) \<and>
      (periodKey \<noteq> str ''default'' \<and>
       (findChildKey lines ss se si (str ''periods'') = Inr (- 1) \<or>
        (\<forall>j. ss < j \<and> j < se \<longrightarrow>
           \<not> (\<not> skipLine (lines ! nat j) \<and> searchNonSpace (lines ! nat j) = si + 2 \<and>
              matchKey (lines ! nat j) = Some (str ''periods'')))) \<longrightarrow>
         updateTimelineField presetName periodKey field v yaml = Inr yaml) \<and>
      (periodKey \<noteq> str ''default'' \<and> findChildKey lines ss se si (str ''periods'') = Inr pl \<and> 0 \<le> pl \<and>
       findBlockEnd lines pl (searchNonSpace (lines ! nat pl)) se = Inr pe \<and>
       (findChildKey lines pl pe (searchNonSpace (lines ! nat pl)) periodKey = Inr (- 1) \<or>
        (\<forall>j. pl < j \<and> j < pe \<longrightarrow>
           \<not> (\<not> skipLine (lines ! nat j) \<and> searchNonSpace (lines ! nat j) = (searchNonSpace (lines ! nat pl)) + 2 \<and>
              matchKey (lines ! nat j) = Some periodKey))) \<longrightarrow>
         updateTimelineField presetName periodKey field v yaml = Inr yaml) \<and>
      (((periodKey = str ''default'' \<and> findChildKey lines ss se si (str ''default'') = Inr ts) \<or>
        (periodKey \<noteq> str ''default'' \<and> findChildKey lines ss se si (str ''periods'') = Inr pl \<and> 0 \<le> pl \<and>
         findBlockEnd lines pl (searchNonSpace (lines ! nat pl)) se = Inr pe \<and>
         findChildKey lines pl pe (searchNonSpace (lines ! nat pl)) periodKey = Inr ts)) \<and>
       0 \<le> ts \<and> findBlockEnd lines ts (searchNonSpace (lines ! nat ts)) se = Inr te \<and>
       locateField lines ts te (searchNonSpace (lines ! nat ts)) (splitOn DOT field) = Inr lineIdx \<and> lineIdx < 0 \<longrightarrow>
         (\<exists>lines'. insertTimelineField lines ts te (searchNonSpace (lines ! nat ts)) field v (splitOn DOT field) = Inr lines' \<and>
            length lines < length lines' \<and>
            updateTimelineField presetName periodKey field v yaml = Inr (joinWith [LF] lines') \<and>
            updateTimelineField presetName periodKey field v yaml \<noteq> Inr yaml \<and>
            (DOT \<notin> set field \<longrightarrow>
               lines' = take (nat te) lines @
                        [spaces (searchNonSpace (lines ! nat ts) + 2) @ field @ str '': '' @ formatInserted v] @
                        drop (nat te) lines))))"
proof (intro impI conjI)
  assume h: "lines = splitOn LF yaml \<and> locateSectionStart presetName lines = (ss, si)"
  assume a: "(presetName = str ''custom'' \<and> (\<forall>l\<in>set lines. \<not> startsWith l (str ''custom:''))) \<or>
    (presetName \<noteq> str ''custom'' \<and> (\<forall>l\<in>set lines. matchKey l \<noteq> Some presetName)) \<or>
    ss < 0"
  from h a show "updateTimelineField presetName periodKey field v yaml = Inr yaml"
    using updateTimelineField_absent[of presetName yaml ss si periodKey field v] by blast
next
  assume h: "lines = splitOn LF yaml \<and> locateSectionStart presetName lines = (ss, si)"
  assume "0 \<le> ss"
  with h show "(\<exists>e. findBlockEndFrom lines (ss + 1) si (int (length lines)) = Inr e \<and> ss < e \<and> e \<le> int (length lines))"
    using updateTimelineField_section_end[of presetName yaml ss si] by blast
next
  assume h: "lines = splitOn LF yaml \<and> locateSectionStart presetName lines = (ss, si)"
  assume s: "0 \<le> ss \<and> findBlockEndFrom lines (ss + 1) si (int (length lines)) = Inr se"
  assume a: "periodKey = str ''default'' \<and>
       (findChildKey lines ss se si (str ''default'') = Inr (- 1) \<or>
        (\<forall>j. ss < j \<and> j < se \<longrightarrow>
           \<not> (\<not> skipLine (lines ! nat j) \<and> searchNonSpace (lines ! nat j) = si + 2 \<and>
              matchKey (lines ! nat j) = Some (str ''default''))))"
  from h s a show "updateTimelineField presetName periodKey field v yaml = Inr yaml"
    using updateTimelineField_no_default[of presetName yaml ss si se periodKey field v] by blast
next
  assume h: "lines = splitOn LF yaml \<and> locateSectionStart presetName lines = (ss, si)"
  assume s: "0 \<le> ss \<and> findBlockEndFrom lines (ss + 1) si (int (length lines)) = Inr se"
  assume a: "periodKey \<noteq> str ''default'' \<and>
       (findChildKey lines ss se si (str ''periods'') = Inr (- 1) \<or>
        (\<forall>j. ss < j \<and> j < se \<longrightarrow>
           \<not> (\<not> skipLine (lines ! nat j) \<and> searchNonSpace (lines ! nat j) = si + 2 \<and>
              matchKey (lines ! nat j) = Some (str ''periods''))))"
  from h s a show "updateTimelineField presetName periodKey field v yaml = Inr yaml"
    using updateTimelineField_no_periods[of presetName yaml ss si se periodKey field v] by blast
next
  assume h: "lines = splitOn LF yaml \<and> locateSectionStart presetName lines = (ss, si)"
  assume s: "0 \<le> ss \<and> findBlockEndFrom lines (ss + 1) si (int (length lines)) = Inr se"
  assume a: "periodKey \<noteq> str ''default'' \<and> findChildKey lines ss se si (str ''periods'') = Inr pl \<and> 0 \<le> pl \<and>
       findBlockEnd lines pl (searchNonSpace (lines ! nat pl)) se = Inr pe \<and>
       (findChildKey lines pl pe (searchNonSpace (lines ! nat pl)) periodKey = Inr (- 1) \<or>
        (\<forall>j. pl < j \<and> j < pe \<longrightarrow>
           \<not> (\<not> skipLine (lines ! nat j) \<and> searchNonSpace (lines ! nat j) = (searchNonSpace (lines ! nat pl)) + 2 \<and>
              matchKey (lines ! nat j) = Some periodKey)))"
  from h s a show "updateTimelineField presetName periodKey field v yaml = Inr yaml"
    using updateTimelineField_no_period[of presetName yaml ss si se periodKey pl pe field v] by blast
next
  assume h: "lines = splitOn LF yaml \<and> locateSectionStart presetName lines = (ss, si)"
  assume s: "0 \<le> ss \<and> findBlockEndFrom lines (ss + 1) si (int (length lines)) = Inr se"
  assume a: "((periodKey = str ''default'' \<and> findChildKey lines ss se si (str ''default'') = Inr ts) \<or>
        (periodKey \<noteq> str ''default'' \<and> findChildKey lines ss se si (str ''periods'') = Inr pl \<and> 0 \<le> pl \<and>
         findBlockEnd lines pl (searchNonSpace (lines ! nat pl)) se = Inr pe \<and>
         findChildKey lines pl pe (searchNonSpace (lines ! nat pl)) periodKey = Inr ts)) \<and>
       0 \<le> ts \<and> findBlockEnd lines ts (searchNonSpace (lines ! nat ts)) se = Inr te \<and>
       locateField lines ts te (searchNonSpace (lines ! nat ts)) (splitOn DOT field) = Inr lineIdx \<and> lineIdx < 0"
  from h s a show "(\<exists>lines'. insertTimelineField lines ts te (searchNonSpace (lines ! nat ts)) field v (splitOn DOT field) = Inr lines' \<and>
            length lines < length lines' \<and>
            updateTimelineField presetName periodKey field v yaml = Inr (joinWith [LF] lines') \<and>
            updateTimelineField presetName periodKey field v yaml \<noteq> Inr yaml \<and>
            (DOT \<notin> set field \<longrightarrow>
               lines' = take (nat te) lines @
                        [spaces (searchNonSpace (lines ! nat ts) + 2) @ field @ str '': '' @ formatInserted v] @
                        drop (nat te) lines))"
    using updateTimelineField_inserts[of presetName yaml ss si se periodKey ts pl pe te field lineIdx v] by blast
qed



theorem updateTimelineField_noop_witness:
  \<open>updateTimelineField (str ''custom'') (str ''morning'') (str ''start'') (VStr (str ''09:30'')) tlNoCustom = Inr tlNoCustom \<and>
   updateTimelineField (str ''home'') (str ''morning'') (str ''start'') (VStr (str ''09:30'')) tlNoCustom = Inr tlNoCustom \<and>
   updateTimelineField (str ''custom'') (str ''workday'') (str ''start'') (VStr (str ''09:30'')) tlDayPlan = Inr tlDayPlan \<and>
   updateTimelineField (str ''custom'') (str ''morning'') (str ''start'') (VStr (str ''09:30'')) tlNoPeriods = Inr tlNoPeriods \<and>
   updateTimelineField (str ''custom'') (str ''default'') (str ''mode'') (VStr (str ''09:30'')) tlCustom = Inr tlCustom \<and>
   updateTimelineField (str ''custom'') (str ''morning'') (str ''end'') (VStr (str ''09:30'')) tlCustom =
     Inr (str ''custom:\<newline>  periods:\<newline>    morning:\<newline>      start: "08:00"\<newline>      end: "09:30"\<newline>  day_plans: {}'') \<and>
   updateTimelineField (str ''custom'') (str ''morning'') (str ''end'') (VStr (str ''09:30'')) tlCustom \<noteq> Inr tlCustom\<close>
proof -
  have h1: \<open>(splitOn LF tlNoCustom) = splitOn LF tlNoCustom \<and> locateSectionStart (str ''custom'') (splitOn LF tlNoCustom) = ((- 1::int), (0::int))\<close> by code_simp
  have a1: \<open>(str ''custom'') = str ''custom'' \<and> (\<forall>l\<in>set (splitOn LF tlNoCustom). \<not> startsWith l (str ''custom:''))\<close> by code_simp
  then have d1: \<open>((str ''custom'') = str ''custom'' \<and> (\<forall>l\<in>set (splitOn LF tlNoCustom). \<not> startsWith l (str ''custom:''))) \<or>
    ((str ''custom'') \<noteq> str ''custom'' \<and> (\<forall>l\<in>set (splitOn LF tlNoCustom). matchKey l \<noteq> Some (str ''custom''))) \<or>
    (- 1::int) < 0\<close> by blast
  note r1 = updateTimelineField_noop[where lines = \<open>(splitOn LF tlNoCustom)\<close> and yaml = \<open>tlNoCustom\<close> and presetName = \<open>(str ''custom'')\<close> and periodKey = \<open>(str ''morning'')\<close> and field = \<open>(str ''start'')\<close> and v = \<open>(VStr (str ''09:30''))\<close> and ss = \<open>(- 1::int)\<close> and si = \<open>(0::int)\<close> and se = 0 and pl = 0 and pe = 0 and ts = 0 and te = 0 and lineIdx = 0,
      THEN mp, OF h1, THEN conjunct1, THEN mp, OF d1]
  have h2: \<open>(splitOn LF tlNoCustom) = splitOn LF tlNoCustom \<and> locateSectionStart (str ''home'') (splitOn LF tlNoCustom) = ((- 1::int), (0::int))\<close> by code_simp
  have a2: \<open>(str ''home'') \<noteq> str ''custom'' \<and> (\<forall>l\<in>set (splitOn LF tlNoCustom). matchKey l \<noteq> Some (str ''home''))\<close> by code_simp
  then have d2: \<open>((str ''home'') = str ''custom'' \<and> (\<forall>l\<in>set (splitOn LF tlNoCustom). \<not> startsWith l (str ''custom:''))) \<or>
    ((str ''home'') \<noteq> str ''custom'' \<and> (\<forall>l\<in>set (splitOn LF tlNoCustom). matchKey l \<noteq> Some (str ''home''))) \<or>
    (- 1::int) < 0\<close> by blast
  note r2 = updateTimelineField_noop[where lines = \<open>(splitOn LF tlNoCustom)\<close> and yaml = \<open>tlNoCustom\<close> and presetName = \<open>(str ''home'')\<close> and periodKey = \<open>(str ''morning'')\<close> and field = \<open>(str ''start'')\<close> and v = \<open>(VStr (str ''09:30''))\<close> and ss = \<open>(- 1::int)\<close> and si = \<open>(0::int)\<close> and se = 0 and pl = 0 and pe = 0 and ts = 0 and te = 0 and lineIdx = 0,
      THEN mp, OF h2, THEN conjunct1, THEN mp, OF d2]
  have h3: \<open>(splitOn LF tlDayPlan) = splitOn LF tlDayPlan \<and> locateSectionStart (str ''custom'') (splitOn LF tlDayPlan) = ((0::int), (0::int))\<close> by code_simp
  have s3: \<open>0 \<le> (0::int) \<and> findBlockEndFrom (splitOn LF tlDayPlan) ((0::int) + 1) (0::int) (int (length (splitOn LF tlDayPlan))) = Inr (7::int)\<close> by code_simp
  have b3: \<open>(str ''workday'') \<noteq> str ''default'' \<and> findChildKey (splitOn LF tlDayPlan) (0::int) (7::int) (0::int) (str ''periods'') = Inr (1::int) \<and> 0 \<le> (1::int) \<and>
       findBlockEnd (splitOn LF tlDayPlan) (1::int) (searchNonSpace ((splitOn LF tlDayPlan) ! nat (1::int))) (7::int) = Inr (4::int)\<close> by code_simp
  have n3: \<open>\<forall>n \<in> set (map nat [(1::int) + 1..(4::int) - 1]).
           \<not> (\<not> skipLine ((splitOn LF tlDayPlan) ! n) \<and> searchNonSpace ((splitOn LF tlDayPlan) ! n) = (searchNonSpace ((splitOn LF tlDayPlan) ! nat (1::int))) + 2 \<and>
              matchKey ((splitOn LF tlDayPlan) ! n) = Some (str ''workday''))\<close> by code_simp
  have q3: \<open>(\<forall>j. (1::int) < j \<and> j < (4::int) \<longrightarrow>
           \<not> (\<not> skipLine ((splitOn LF tlDayPlan) ! nat j) \<and> searchNonSpace ((splitOn LF tlDayPlan) ! nat j) = (searchNonSpace ((splitOn LF tlDayPlan) ! nat (1::int))) + 2 \<and>
              matchKey ((splitOn LF tlDayPlan) ! nat j) = Some (str ''workday'')))\<close>
    using n3 int_range_cases[of 1 _ 4] by blast
  from b3 q3 have c3: \<open>(str ''workday'') \<noteq> str ''default'' \<and> findChildKey (splitOn LF tlDayPlan) (0::int) (7::int) (0::int) (str ''periods'') = Inr (1::int) \<and> 0 \<le> (1::int) \<and>
       findBlockEnd (splitOn LF tlDayPlan) (1::int) (searchNonSpace ((splitOn LF tlDayPlan) ! nat (1::int))) (7::int) = Inr (4::int) \<and>
       (findChildKey (splitOn LF tlDayPlan) (1::int) (4::int) (searchNonSpace ((splitOn LF tlDayPlan) ! nat (1::int))) (str ''workday'') = Inr (- 1) \<or>
        (\<forall>j. (1::int) < j \<and> j < (4::int) \<longrightarrow>
           \<not> (\<not> skipLine ((splitOn LF tlDayPlan) ! nat j) \<and> searchNonSpace ((splitOn LF tlDayPlan) ! nat j) = (searchNonSpace ((splitOn LF tlDayPlan) ! nat (1::int))) + 2 \<and>
              matchKey ((splitOn LF tlDayPlan) ! nat j) = Some (str ''workday''))))\<close> by blast
  note r3 = updateTimelineField_noop[where lines = \<open>(splitOn LF tlDayPlan)\<close> and yaml = \<open>tlDayPlan\<close> and presetName = \<open>(str ''custom'')\<close> and periodKey = \<open>(str ''workday'')\<close> and field = \<open>(str ''start'')\<close> and v = \<open>(VStr (str ''09:30''))\<close> and ss = \<open>(0::int)\<close> and si = \<open>(0::int)\<close> and se = \<open>(7::int)\<close> and pl = \<open>(1::int)\<close> and pe = \<open>(4::int)\<close> and ts = 0 and te = 0 and lineIdx = 0,
      THEN mp, OF h3, THEN conjunct2, THEN conjunct2, THEN mp, OF s3,
      THEN conjunct2, THEN conjunct2, THEN conjunct1, THEN mp, OF c3]
  have h4: \<open>(splitOn LF tlNoPeriods) = splitOn LF tlNoPeriods \<and> locateSectionStart (str ''custom'') (splitOn LF tlNoPeriods) = ((0::int), (0::int))\<close> by code_simp
  have s4: \<open>0 \<le> (0::int) \<and> findBlockEndFrom (splitOn LF tlNoPeriods) ((0::int) + 1) (0::int) (int (length (splitOn LF tlNoPeriods))) = Inr (3::int)\<close> by code_simp
  have b4: \<open>(str ''morning'') \<noteq> str ''default'' \<and> findChildKey (splitOn LF tlNoPeriods) (0::int) (3::int) (0::int) (str ''periods'') = Inr (- 1)\<close> by code_simp
  then have c4: \<open>(str ''morning'') \<noteq> str ''default'' \<and>
       (findChildKey (splitOn LF tlNoPeriods) (0::int) (3::int) (0::int) (str ''periods'') = Inr (- 1) \<or>
        (\<forall>j. (0::int) < j \<and> j < (3::int) \<longrightarrow>
           \<not> (\<not> skipLine ((splitOn LF tlNoPeriods) ! nat j) \<and> searchNonSpace ((splitOn LF tlNoPeriods) ! nat j) = (0::int) + 2 \<and>
              matchKey ((splitOn LF tlNoPeriods) ! nat j) = Some (str ''periods''))))\<close> by blast
  note r4 = updateTimelineField_noop[where lines = \<open>(splitOn LF tlNoPeriods)\<close> and yaml = \<open>tlNoPeriods\<close> and presetName = \<open>(str ''custom'')\<close> and periodKey = \<open>(str ''morning'')\<close> and field = \<open>(str ''start'')\<close> and v = \<open>(VStr (str ''09:30''))\<close> and ss = \<open>(0::int)\<close> and si = \<open>(0::int)\<close> and se = \<open>(3::int)\<close> and pl = 0 and pe = 0 and ts = 0 and te = 0 and lineIdx = 0,
      THEN mp, OF h4, THEN conjunct2, THEN conjunct2, THEN mp, OF s4,
      THEN conjunct2, THEN conjunct1, THEN mp, OF c4]
  have h5: \<open>(splitOn LF tlCustom) = splitOn LF tlCustom \<and> locateSectionStart (str ''custom'') (splitOn LF tlCustom) = ((0::int), (0::int))\<close> by code_simp
  have s5: \<open>0 \<le> (0::int) \<and> findBlockEndFrom (splitOn LF tlCustom) ((0::int) + 1) (0::int) (int (length (splitOn LF tlCustom))) = Inr (5::int)\<close> by code_simp
  have b5: \<open>(str ''default'') = str ''default'' \<and> findChildKey (splitOn LF tlCustom) (0::int) (5::int) (0::int) (str ''default'') = Inr (- 1)\<close> by code_simp
  then have c5: \<open>(str ''default'') = str ''default'' \<and>
       (findChildKey (splitOn LF tlCustom) (0::int) (5::int) (0::int) (str ''default'') = Inr (- 1) \<or>
        (\<forall>j. (0::int) < j \<and> j < (5::int) \<longrightarrow>
           \<not> (\<not> skipLine ((splitOn LF tlCustom) ! nat j) \<and> searchNonSpace ((splitOn LF tlCustom) ! nat j) = (0::int) + 2 \<and>
              matchKey ((splitOn LF tlCustom) ! nat j) = Some (str ''default''))))\<close> by blast
  note r5 = updateTimelineField_noop[where lines = \<open>(splitOn LF tlCustom)\<close> and yaml = \<open>tlCustom\<close> and presetName = \<open>(str ''custom'')\<close> and periodKey = \<open>(str ''default'')\<close> and field = \<open>(str ''mode'')\<close> and v = \<open>(VStr (str ''09:30''))\<close> and ss = \<open>(0::int)\<close> and si = \<open>(0::int)\<close> and se = \<open>(5::int)\<close> and pl = 0 and pe = 0 and ts = 0 and te = 0 and lineIdx = 0,
      THEN mp, OF h5, THEN conjunct2, THEN conjunct2, THEN mp, OF s5,
      THEN conjunct1, THEN mp, OF c5]
  have h6: \<open>(splitOn LF tlCustom) = splitOn LF tlCustom \<and> locateSectionStart (str ''custom'') (splitOn LF tlCustom) = ((0::int), (0::int))\<close> by code_simp
  have s6: \<open>0 \<le> (0::int) \<and> findBlockEndFrom (splitOn LF tlCustom) ((0::int) + 1) (0::int) (int (length (splitOn LF tlCustom))) = Inr (5::int)\<close> by code_simp
  have c6: \<open>(((str ''morning'') = str ''default'' \<and> findChildKey (splitOn LF tlCustom) (0::int) (5::int) (0::int) (str ''default'') = Inr (2::int)) \<or>
        ((str ''morning'') \<noteq> str ''default'' \<and> findChildKey (splitOn LF tlCustom) (0::int) (5::int) (0::int) (str ''periods'') = Inr (1::int) \<and> 0 \<le> (1::int) \<and>
         findBlockEnd (splitOn LF tlCustom) (1::int) (searchNonSpace ((splitOn LF tlCustom) ! nat (1::int))) (5::int) = Inr (4::int) \<and>
         findChildKey (splitOn LF tlCustom) (1::int) (4::int) (searchNonSpace ((splitOn LF tlCustom) ! nat (1::int))) (str ''morning'') = Inr (2::int))) \<and>
       0 \<le> (2::int) \<and> findBlockEnd (splitOn LF tlCustom) (2::int) (searchNonSpace ((splitOn LF tlCustom) ! nat (2::int))) (5::int) = Inr (4::int) \<and>
       locateField (splitOn LF tlCustom) (2::int) (4::int) (searchNonSpace ((splitOn LF tlCustom) ! nat (2::int))) (splitOn DOT (str ''end'')) = Inr (- 1::int) \<and> (- 1::int) < 0\<close> by code_simp
  note r6 = updateTimelineField_noop[where lines = \<open>(splitOn LF tlCustom)\<close> and yaml = \<open>tlCustom\<close> and presetName = \<open>(str ''custom'')\<close> and periodKey = \<open>(str ''morning'')\<close> and field = \<open>(str ''end'')\<close> and v = \<open>(VStr (str ''09:30''))\<close> and ss = \<open>(0::int)\<close> and si = \<open>(0::int)\<close> and se = \<open>(5::int)\<close> and pl = \<open>(1::int)\<close> and pe = \<open>(4::int)\<close> and ts = \<open>(2::int)\<close> and te = \<open>(4::int)\<close> and lineIdx = \<open>(- 1::int)\<close>,
      THEN mp, OF h6, THEN conjunct2, THEN conjunct2, THEN mp, OF s6,
      THEN conjunct2, THEN conjunct2, THEN conjunct2, THEN mp, OF c6]
  have d6: \<open>DOT \<notin> set (str ''end'')\<close> by code_simp
  have e6: \<open>joinWith [LF] (take (nat (4::int)) (splitOn LF tlCustom) @
                        [spaces (searchNonSpace ((splitOn LF tlCustom) ! nat (2::int)) + 2) @ (str ''end'') @ str '': '' @ formatInserted (VStr (str ''09:30''))] @
                        drop (nat (4::int)) (splitOn LF tlCustom)) =
     str ''custom:\<newline>  periods:\<newline>    morning:\<newline>      start: "08:00"\<newline>      end: "09:30"\<newline>  day_plans: {}''\<close> by code_simp
  from r6 d6 e6 have f6: \<open>updateTimelineField (str ''custom'') (str ''morning'') (str ''end'') (VStr (str ''09:30'')) tlCustom =
     Inr (str ''custom:\<newline>  periods:\<newline>    morning:\<newline>      start: "08:00"\<newline>      end: "09:30"\<newline>  day_plans: {}'')\<close>
    \<open>updateTimelineField (str ''custom'') (str ''morning'') (str ''end'') (VStr (str ''09:30'')) tlCustom \<noteq> Inr tlCustom\<close> by auto
  from r1 r2 r3 r4 r5 f6 show ?thesis by blast
qed


text \<open>
  C3 as stated fails in its third case: when the section and the period are found and
  only the field is missing, the field is inserted and the document changes.
\<close>

theorem updateTimelineField_noop_counterexample:
  \<open>updateTimelineField (str ''custom'') (str ''morning'') (str ''end'') (VStr (str ''09:30'')) tlCustom =
     Inr (str ''custom:\<newline>  periods:\<newline>    morning:\<newline>      start: "08:00"\<newline>      end: "09:30"\<newline>  day_plans: {}'') \<and>
   updateTimelineField (str ''custom'') (str ''morning'') (str ''end'') (VStr (str ''09:30'')) tlCustom \<noteq> Inr tlCustom \<and>
   findChildKey (splitOn LF tlCustom) 2 4 4 (str ''end'') = Inr (- 1)\<close>
  by code_simp


section \<open>Facts about the rule parser\<close>

lemma wellMarked_Nil: "wellMarked []"
  unfolding wellMarked_def by (rule exI[of _ "[]"]) simp

lemma wellMarked_append_single:
  assumes "wellMarked gs" "unflagged g"
  shows "wellMarked (gs @ [g])"
proof -
  from assms(1) obtain runs where r: "gs = concat runs"
    "\<forall>run \<in> set runs. (\<exists>g. run = [g] \<and> unflagged g) \<or> relatedRun run"
    unfolding wellMarked_def by blast
  show ?thesis unfolding wellMarked_def
    by (rule exI[of _ "runs @ [[g]]"]) (use r assms(2) in auto)
qed

lemma wellMarked_append_run:
  assumes "wellMarked gs" "relatedRun run"
  shows "wellMarked (gs @ run)"
proof -
  from assms(1) obtain runs where r: "gs = concat runs"
    "\<forall>run \<in> set runs. (\<exists>g. run = [g] \<and> unflagged g) \<or> relatedRun run"
    unfolding wellMarked_def by blast
  show ?thesis unfolding wellMarked_def
    by (rule exI[of _ "runs @ [run]"]) (use r assms(2) in auto)
qed

lemma marked_relatedRun:
  assumes "2 \<le> length buf"
  shows "relatedRun (map (\<lambda>(idx, g). g\<lparr>isRelatedGroup := True, relatedGroupIndex := Some idx,
                                        relatedGroupTotal := Some (length buf)\<rparr>) (enumerate 0 buf))"
  using assms by (simp add: relatedRun_def nth_enumerate_eq)

lemma flushRelatedGroups_wordGroups:
  "wordGroups (result (flushRelatedGroups st)) =
     wordGroups (result st) @
     (if 2 \<le> length (relatedGroupsBuffer st)
      then map (\<lambda>(idx, g). g\<lparr>isRelatedGroup := True, relatedGroupIndex := Some idx,
                              relatedGroupTotal := Some (length (relatedGroupsBuffer st))\<rparr>)
               (enumerate 0 (relatedGroupsBuffer st))
      else relatedGroupsBuffer st)"
  by (auto simp: flushRelatedGroups_def Let_def)

lemma flushRelatedGroups_other:
  "relatedGroupsBuffer (flushRelatedGroups st) = []"
  "currentGroup (flushRelatedGroups st) = currentGroup st"
  "currentSection (flushRelatedGroups st) = currentSection st"
  "pendingComments (flushRelatedGroups st) = pendingComments st"
  "lastLineWasAlias (flushRelatedGroups st) = lastLineWasAlias st"
  by (auto simp: flushRelatedGroups_def Let_def)

lemma flush_inv:
  assumes "parseInv st"
  shows "parseInv (flushRelatedGroups st)"
proof -
  let ?buf = "relatedGroupsBuffer st"
  have wm: "wellMarked (wordGroups (result (flushRelatedGroups st)))"
  proof (cases "2 \<le> length ?buf")
    case True
    from wellMarked_append_run[OF _ marked_relatedRun[OF True]] assms True show ?thesis
      by (simp add: flushRelatedGroups_wordGroups parseInv_def)
  next
    case False
    show ?thesis
    proof (cases ?buf)
      case Nil
      with assms show ?thesis by (simp add: flushRelatedGroups_wordGroups parseInv_def)
    next
      case (Cons g rest)
      with False have b: "?buf = [g]" by (cases rest) auto
      with assms have "unflagged g" by (simp add: parseInv_def)
      from wellMarked_append_single[OF _ this] assms b show ?thesis
        by (simp add: flushRelatedGroups_wordGroups parseInv_def)
    qed
  qed
  with assms show ?thesis by (simp add: parseInv_def flushRelatedGroups_other)
qed

lemma push_inv: "parseInv st \<Longrightarrow> parseInv (pushCurrentGroup st)"
  by (auto simp: parseInv_def pushCurrentGroup_def split: option.splits)

lemma unflagged_newGroup: "unflagged (newGroup t i p)"
  by (simp add: unflagged_def newGroup_def)

lemma unflagged_updates:
  "unflagged g \<Longrightarrow> unflagged (g\<lparr>name := n\<rparr>)"
  "unflagged g \<Longrightarrow> unflagged (g\<lparr>items := its\<rparr>)"
  "unflagged g \<Longrightarrow> unflagged (g\<lparr>keywords := ks\<rparr>)"
  "unflagged g \<Longrightarrow> unflagged (g\<lparr>gtype := t\<rparr>)"
  by (simp_all add: unflagged_def)

lemma startGroupName_inv: "parseInv st \<Longrightarrow> parseInv (startGroupName i nm st)"
proof -
  assume "parseInv st"
  then have "parseInv (flushRelatedGroups (pushCurrentGroup st))"
    by (intro flush_inv push_inv)
  then show ?thesis
    by (simp add: startGroupName_def Let_def parseInv_def unflagged_newGroup unflagged_updates)
qed

lemma parseAliasLine_inv: "parseInv st \<Longrightarrow> parseInv (parseAliasLine i k a st)"
proof -
  assume inv: "parseInv st"
  from push_inv[OF inv] have p: "parseInv (pushCurrentGroup st)" .
  show ?thesis
  proof (cases "currentGroup st")
    case None
    with inv show ?thesis
      by (simp add: parseAliasLine_def Let_def parseInv_def unflagged_newGroup unflagged_updates)
  next
    case (Some g)
    with inv have ug: "unflagged g" by (simp add: parseInv_def)
    show ?thesis
    proof (cases "lastLineWasAlias st \<and> (gtype g = Alias \<or> gtype g = AliasGroup)")
      case True
      with Some inv ug show ?thesis
        by (simp add: parseAliasLine_def Let_def parseInv_def unflagged_updates)
    next
      case False
      with Some p show ?thesis
        by (auto simp add: parseAliasLine_def Let_def parseInv_def unflagged_newGroup unflagged_updates)
    qed
  qed
qed

lemma parseKeywordLine_inv: "parseInv st \<Longrightarrow> parseInv (parseKeywordLine i t st)"
proof -
  assume inv: "parseInv st"
  from push_inv[OF inv] have p: "parseInv (pushCurrentGroup st)" .
  show ?thesis
  proof (cases "currentGroup st = None \<or>
            (case currentGroup st of Some g \<Rightarrow> gtype g = Alias \<or> gtype g = AliasGroup | None \<Rightarrow> False)")
    case True
    with p show ?thesis
      by (simp add: parseKeywordLine_def Let_def parseInv_def unflagged_newGroup unflagged_updates)
  next
    case False
    then obtain g where g: "currentGroup st = Some g" by auto
    with inv have "unflagged g" by (simp add: parseInv_def)
    with False g inv show ?thesis
      by (simp add: parseKeywordLine_def Let_def parseInv_def unflagged_updates)
  qed
qed

lemma blank_inv:
  assumes "parseInv st"
  shows "parseInv (flushRelatedGroups
           (case currentGroup st of
              Some g \<Rightarrow> st\<lparr>relatedGroupsBuffer := relatedGroupsBuffer st @ [g], currentGroup := None\<rparr>
            | None \<Rightarrow> st))"
  by (rule flush_inv) (use assms in \<open>auto simp: parseInv_def split: option.splits\<close>)

lemma parseInv_fields:
  "parseInv (st\<lparr>pendingComments := pc\<rparr>) = parseInv st"
  "parseInv (st\<lparr>lastLineWasAlias := b\<rparr>) = parseInv st"
  "parseInv (st\<lparr>currentSection := cs\<rparr>) = parseInv st"
  "parseInv (st\<lparr>result := (result st)\<lparr>globalFilter := gf\<rparr>\<rparr>) = parseInv st"
  by (simp_all add: parseInv_def)

lemma parseLine_inv: "parseInv st \<Longrightarrow> parseInv (parseLine i line st)"
  using blank_inv[of st] startGroupName_inv[of st i] parseAliasLine_inv[of st i] parseKeywordLine_inv[of st i]
  by (auto simp: parseLine_def Let_def parseInv_fields split: option.splits)

lemma parseLines_inv: "parseInv st \<Longrightarrow> parseInv (parseLines i ls st)"
  by (induction ls arbitrary: i st) (auto intro: parseLine_inv)

lemma initialState_inv: "parseInv (initialState t)"
  by (simp add: parseInv_def initialState_def wellMarked_Nil)

lemma splitOn_two_lines:
  assumes "LF \<notin> set l1" "LF \<notin> set l2"
  shows "splitOn LF (rulePrefix @ l1 @ LF # l2) =
           [str ''[GLOBAL_FILTER]'', str ''[WORD_GROUPS]'', l1, l2]"
proof -
  have g: "LF \<notin> set (str ''[GLOBAL_FILTER]'')" and w: "LF \<notin> set (str ''[WORD_GROUPS]'')"
    by (simp_all add: str_def)
  have "splitOn LF (rulePrefix @ l1 @ LF # l2) =
        splitOn LF (str ''[GLOBAL_FILTER]'' @ LF # (str ''[WORD_GROUPS]'' @ LF # (l1 @ LF # l2)))"
    by (simp add: rulePrefix_def)
  also have "\<dots> = str ''[GLOBAL_FILTER]'' # splitOn LF (str ''[WORD_GROUPS]'' @ LF # (l1 @ LF # l2))"
    by (rule splitOn_append[OF g])
  also have "\<dots> = str ''[GLOBAL_FILTER]'' # str ''[WORD_GROUPS]'' # splitOn LF (l1 @ LF # l2)"
    by (simp only: splitOn_append[OF w])
  also have "\<dots> = [str ''[GLOBAL_FILTER]'', str ''[WORD_GROUPS]'', l1, l2]"
    by (simp only: splitOn_append[OF assms(1)] splitOn_single[OF assms(2)])
  finally show ?thesis .
qed

lemma trim_markers:
  "trim (str ''[GLOBAL_FILTER]'') = str ''[GLOBAL_FILTER]''"
  "trim (str ''[WORD_GROUPS]'') = str ''[WORD_GROUPS]''"
  "\<not> startsWith (str ''[GLOBAL_FILTER]'') [HASH]"
  "\<not> startsWith (str ''[WORD_GROUPS]'') [HASH]"
  "str ''[GLOBAL_FILTER]'' \<noteq> []" "str ''[WORD_GROUPS]'' \<noteq> []"
  "str ''[WORD_GROUPS]'' \<noteq> str ''[GLOBAL_FILTER]''"
  by code_simp+

lemma parseLine_global_marker:
  "parseLine i (str ''[GLOBAL_FILTER]'') st = st\<lparr>currentSection := Some Global\<rparr>"
  by (simp add: parseLine_def trim_markers)

lemma parseLine_groups_marker:
  "parseLine i (str ''[WORD_GROUPS]'') st = st\<lparr>currentSection := Some Groups\<rparr>"
  by (simp add: parseLine_def trim_markers)

lemma parseLine_alias:
  "isAliasLine l k a \<Longrightarrow> currentSection st = Some Groups \<Longrightarrow>
   parseLine i l st = parseAliasLine i (trim k) (trim a) st"
  by (simp add: parseLine_def isAliasLine_def)

lemma parseLine_keyword:
  "isKeywordLine l \<Longrightarrow> currentSection st = Some Groups \<Longrightarrow>
   parseLine i l st = parseKeywordLine i (trim l) st"
  by (simp add: parseLine_def isKeywordLine_def)

lemma parse_two_lines:
  assumes "LF \<notin> set l1" "LF \<notin> set l2"
  shows "parseFrequencyText (rulePrefix @ l1 @ LF # l2) =
         result (flushRelatedGroups (pushCurrentGroup
           (parseLine 3 l2 (parseLine 2 l1 (groupsState (rulePrefix @ l1 @ LF # l2))))))"
  by (simp add: parseFrequencyText_def splitOn_two_lines[OF assms] parseLine_global_marker
        parseLine_groups_marker groupsState_def initialState_def numeral_3_eq_3 numeral_2_eq_2)

lemma two_alias_lines:
  assumes "isAliasLine l1 k1 a1" "isAliasLine l2 k2 a2"
  shows "parseFrequencyText (rulePrefix @ l1 @ LF # l2) =
           \<lparr>globalFilter = [],
            wordGroups = [(newGroup AliasGroup 2 [])\<lparr>items := [(trim k1, trim a1), (trim k2, trim a2)]\<rparr>],
            originalText = rulePrefix @ l1 @ LF # l2\<rparr>"
proof -
  from assms have lf: "LF \<notin> set l1" "LF \<notin> set l2" by (simp_all add: isAliasLine_def)
  show ?thesis
    unfolding parse_two_lines[OF lf]
    by (simp add: parseLine_alias[OF assms(1)] parseLine_alias[OF assms(2)] groupsState_def
          initialState_def parseAliasLine_def pushCurrentGroup_def flushRelatedGroups_def
          newGroup_def Let_def)
qed

lemma alias_then_keyword:
  assumes "isAliasLine l1 k1 a1" "isKeywordLine l2"
  shows "parseFrequencyText (rulePrefix @ l1 @ LF # l2) =
           \<lparr>globalFilter = [],
            wordGroups =
              [(newGroup Alias 2 [])\<lparr>items := [(trim k1, trim a1)], isRelatedGroup := True,
                  relatedGroupIndex := Some 0, relatedGroupTotal := Some 2\<rparr>,
               (newGroup Plain 3 [])\<lparr>keywords := [trim l2], isRelatedGroup := True,
                  relatedGroupIndex := Some 1, relatedGroupTotal := Some 2\<rparr>],
            originalText = rulePrefix @ l1 @ LF # l2\<rparr>"
proof -
  from assms have lf: "LF \<notin> set l1" "LF \<notin> set l2" by (simp_all add: isAliasLine_def isKeywordLine_def)
  show ?thesis
    unfolding parse_two_lines[OF lf]
    by (simp add: parseLine_alias[OF assms(1)] parseLine_keyword[OF assms(2)] groupsState_def
          initialState_def parseAliasLine_def parseKeywordLine_def pushCurrentGroup_def
          flushRelatedGroups_def newGroup_def Let_def)
qed

lemma keyword_then_alias:
  assumes "isKeywordLine l1" "isAliasLine l2 k2 a2"
  shows "parseFrequencyText (rulePrefix @ l1 @ LF # l2) =
           \<lparr>globalFilter = [],
            wordGroups =
              [(newGroup Plain 2 [])\<lparr>keywords := [trim l1], isRelatedGroup := True,
                  relatedGroupIndex := Some 0, relatedGroupTotal := Some 2\<rparr>,
               (newGroup Alias 3 [])\<lparr>items := [(trim k2, trim a2)], isRelatedGroup := True,
                  relatedGroupIndex := Some 1, relatedGroupTotal := Some 2\<rparr>],
            originalText = rulePrefix @ l1 @ LF # l2\<rparr>"
proof -
  from assms have lf: "LF \<notin> set l1" "LF \<notin> set l2" by (simp_all add: isAliasLine_def isKeywordLine_def)
  show ?thesis
    unfolding parse_two_lines[OF lf]
    by (simp add: parseLine_keyword[OF assms(1)] parseLine_alias[OF assms(2)] groupsState_def
          initialState_def parseAliasLine_def parseKeywordLine_def pushCurrentGroup_def
          flushRelatedGroups_def newGroup_def Let_def)
qed


lemma build_two_lines:
  assumes "LF \<notin> set l1" "LF \<notin> set l2"
  shows "buildFrequencyText \<lparr>globalFilter = [], wordGroups = gs,
                             originalText = rulePrefix @ l1 @ LF # l2\<rparr> =
         joinWith [LF] ([str ''[GLOBAL_FILTER]'', str ''[WORD_GROUPS]''] @ emitGroups gs)"
proof -
  have ne: "rulePrefix @ l1 @ LF # l2 \<noteq> []" by simp
  have a: "\<not> isCommentOrBlank (str ''[WORD_GROUPS]'')"
    by (simp add: isCommentOrBlank_def trim_markers)
  show ?thesis
    by (simp add: buildFrequencyText_def splitOn_two_lines[OF assms] trim_markers a Let_def
          del: append_is_Nil_conv)
qed

lemma build_alias_then_keyword:
  assumes "isAliasLine l1 k1 a1" "isKeywordLine l2"
  shows "buildFrequencyText (parseFrequencyText (rulePrefix @ l1 @ LF # l2)) =
         rulePrefix @ (trim k1 @ str '' => '' @ trim a1) @ LF # trim l2 @ [LF]"
proof -
  from assms have lf: "LF \<notin> set l1" "LF \<notin> set l2" by (simp_all add: isAliasLine_def isKeywordLine_def)
  show ?thesis
    unfolding alias_then_keyword[OF assms] build_two_lines[OF lf]
    by (simp add: emitGroup_def separator_def newGroup_def rulePrefix_def)
qed

lemma build_keyword_then_alias:
  assumes "isKeywordLine l1" "isAliasLine l2 k2 a2"
  shows "buildFrequencyText (parseFrequencyText (rulePrefix @ l1 @ LF # l2)) =
         rulePrefix @ trim l1 @ LF # (trim k2 @ str '' => '' @ trim a2) @ [LF]"
proof -
  from assms have lf: "LF \<notin> set l1" "LF \<notin> set l2" by (simp_all add: isAliasLine_def isKeywordLine_def)
  show ?thesis
    unfolding keyword_then_alias[OF assms] build_two_lines[OF lf]
    by (simp add: emitGroup_def separator_def newGroup_def rulePrefix_def)
qed

lemma parseLine_label:
  "isLabelLine l nm \<Longrightarrow> currentSection st = Some Groups \<Longrightarrow>
   parseLine i l st = startGroupName i nm st"
  by (simp add: parseLine_def isLabelLine_def)

lemma splitOn_three_lines:
  assumes "LF \<notin> set l0" "LF \<notin> set l1" "LF \<notin> set l2"
  shows "splitOn LF (rulePrefix @ l0 @ LF # l1 @ LF # l2) =
           [str ''[GLOBAL_FILTER]'', str ''[WORD_GROUPS]'', l0, l1, l2]"
proof -
  have g: "LF \<notin> set (str ''[GLOBAL_FILTER]'')" and w: "LF \<notin> set (str ''[WORD_GROUPS]'')"
    by (simp_all add: str_def)
  have "splitOn LF (rulePrefix @ l0 @ LF # l1 @ LF # l2) =
        splitOn LF (str ''[GLOBAL_FILTER]'' @ LF # (str ''[WORD_GROUPS]'' @ LF # (l0 @ LF # (l1 @ LF # l2))))"
    by (simp add: rulePrefix_def)
  also have "\<dots> = str ''[GLOBAL_FILTER]'' # splitOn LF (str ''[WORD_GROUPS]'' @ LF # (l0 @ LF # (l1 @ LF # l2)))"
    by (rule splitOn_append[OF g])
  also have "\<dots> = str ''[GLOBAL_FILTER]'' # str ''[WORD_GROUPS]'' # splitOn LF (l0 @ LF # (l1 @ LF # l2))"
    by (simp only: splitOn_append[OF w])
  also have "\<dots> = [str ''[GLOBAL_FILTER]'', str ''[WORD_GROUPS]'', l0, l1, l2]"
    by (simp only: splitOn_append[OF assms(1)] splitOn_append[OF assms(2)] splitOn_single[OF assms(3)])
  finally show ?thesis .
qed

lemma parse_three_lines:
  assumes "LF \<notin> set l0" "LF \<notin> set l1" "LF \<notin> set l2"
  shows "parseFrequencyText (rulePrefix @ l0 @ LF # l1 @ LF # l2) =
         result (flushRelatedGroups (pushCurrentGroup
           (parseLine 4 l2 (parseLine 3 l1 (parseLine 2 l0
              (groupsState (rulePrefix @ l0 @ LF # l1 @ LF # l2)))))))"
  by (simp add: parseFrequencyText_def splitOn_three_lines[OF assms] parseLine_global_marker
        parseLine_groups_marker groupsState_def initialState_def numeral_3_eq_3 numeral_2_eq_2
        eval_nat_numeral)

lemma two_keyword_lines:
  assumes "isKeywordLine l1" "isKeywordLine l2"
  shows "parseFrequencyText (rulePrefix @ l1 @ LF # l2) =
           \<lparr>globalFilter = [],
            wordGroups = [(newGroup Plain 2 [])\<lparr>keywords := [trim l1, trim l2]\<rparr>],
            originalText = rulePrefix @ l1 @ LF # l2\<rparr>"
proof -
  from assms have lf: "LF \<notin> set l1" "LF \<notin> set l2" by (simp_all add: isKeywordLine_def)
  show ?thesis
    unfolding parse_two_lines[OF lf]
    by (simp add: parseLine_keyword[OF assms(1)] parseLine_keyword[OF assms(2)] groupsState_def
          initialState_def parseKeywordLine_def pushCurrentGroup_def flushRelatedGroups_def
          newGroup_def Let_def)
qed

lemma label_keyword_alias:
  assumes "isLabelLine l0 nm" "isKeywordLine l1" "isAliasLine l2 k2 a2"
  shows "parseFrequencyText (rulePrefix @ l0 @ LF # l1 @ LF # l2) =
           \<lparr>globalFilter = [],
            wordGroups =
              [(newGroup GroupName 2 [])\<lparr>name := Some nm, keywords := [trim l1], isRelatedGroup := True,
                  relatedGroupIndex := Some 0, relatedGroupTotal := Some 2\<rparr>,
               (newGroup Alias 4 [])\<lparr>items := [(trim k2, trim a2)], isRelatedGroup := True,
                  relatedGroupIndex := Some 1, relatedGroupTotal := Some 2\<rparr>],
            originalText = rulePrefix @ l0 @ LF # l1 @ LF # l2\<rparr>"
proof -
  from assms have lf: "LF \<notin> set l0" "LF \<notin> set l1" "LF \<notin> set l2"
    by (simp_all add: isLabelLine_def isAliasLine_def isKeywordLine_def)
  show ?thesis
    unfolding parse_three_lines[OF lf]
    by (simp add: parseLine_label[OF assms(1)] parseLine_keyword[OF assms(2)]
          parseLine_alias[OF assms(3)] groupsState_def initialState_def startGroupName_def
          parseAliasLine_def parseKeywordLine_def pushCurrentGroup_def
          flushRelatedGroups_def newGroup_def Let_def)
qed

lemma build_three_lines:
  assumes "LF \<notin> set l0" "LF \<notin> set l1" "LF \<notin> set l2"
  shows "buildFrequencyText \<lparr>globalFilter = [], wordGroups = gs,
                             originalText = rulePrefix @ l0 @ LF # l1 @ LF # l2\<rparr> =
         joinWith [LF] ([str ''[GLOBAL_FILTER]'', str ''[WORD_GROUPS]''] @ emitGroups gs)"
proof -
  have a: "\<not> isCommentOrBlank (str ''[WORD_GROUPS]'')"
    by (simp add: isCommentOrBlank_def trim_markers)
  show ?thesis
    by (simp add: buildFrequencyText_def splitOn_three_lines[OF assms] trim_markers a Let_def
          del: append_is_Nil_conv)
qed

lemma matchGroupName_nonempty: "matchGroupName t = Some nm \<Longrightarrow> nm \<noteq> []"
  by (auto simp: matchGroupName_def split: list.splits if_splits)

lemma build_label_keyword_alias:
  assumes "isLabelLine l0 nm" "isKeywordLine l1" "isAliasLine l2 k2 a2"
  shows "buildFrequencyText (parseFrequencyText (rulePrefix @ l0 @ LF # l1 @ LF # l2)) =
         rulePrefix @ ([LBRACKET] @ nm @ [RBRACKET]) @ LF # trim l1 @ LF #
           (trim k2 @ str '' => '' @ trim a2) @ [LF]"
proof -
  from assms have lf: "LF \<notin> set l0" "LF \<notin> set l1" "LF \<notin> set l2"
    by (simp_all add: isLabelLine_def isAliasLine_def isKeywordLine_def)
  from assms(1) have ne: "nm \<noteq> []" using matchGroupName_nonempty by (auto simp: isLabelLine_def)
  show ?thesis
    unfolding label_keyword_alias[OF assms] build_three_lines[OF lf]
    using ne by (simp add: emitGroup_def separator_def newGroup_def rulePrefix_def)
qed

section \<open>Claims about the rule parser and builder\<close>

text \<open>
  C9. The group list that \<open>parseFrequencyText\<close> returns is a sequence of single groups
  that carry neither the flag nor an index nor a total, and of runs of at least two
  groups in which every group carries \<open>isRelatedGroup\<close>, its position in the run as
  \<open>relatedGroupIndex\<close> and the length of the run as \<open>relatedGroupTotal\<close>. A flush
  appends the buffer marked in this way when it holds two or more groups, and unmarked
  otherwise.
\<close>

theorem parseFrequencyText_wellMarked:
  "wellMarked (wordGroups (parseFrequencyText t)) \<and>
   wordGroups (result (flushRelatedGroups st)) =
     wordGroups (result st) @
     (if 2 \<le> length (relatedGroupsBuffer st)
      then map (\<lambda>(idx, g). g\<lparr>isRelatedGroup := True, relatedGroupIndex := Some idx,
                              relatedGroupTotal := Some (length (relatedGroupsBuffer st))\<rparr>)
               (enumerate 0 (relatedGroupsBuffer st))
      else relatedGroupsBuffer st)"
proof
  have "parseInv (flushRelatedGroups (pushCurrentGroup (parseLines 0 (splitOn LF t) (initialState t))))"
    by (intro flush_inv push_inv parseLines_inv initialState_inv)
  then show "wellMarked (wordGroups (parseFrequencyText t))"
    by (simp add: parseInv_def parseFrequencyText_def)
  show "wordGroups (result (flushRelatedGroups st)) =
     wordGroups (result st) @
     (if 2 \<le> length (relatedGroupsBuffer st)
      then map (\<lambda>(idx, g). g\<lparr>isRelatedGroup := True, relatedGroupIndex := Some idx,
                              relatedGroupTotal := Some (length (relatedGroupsBuffer st))\<rparr>)
               (enumerate 0 (relatedGroupsBuffer st))
      else relatedGroupsBuffer st)"
    by (rule flushRelatedGroups_wordGroups)
qed

theorem parseFrequencyText_wellMarked_witness:
  \<open>wellMarked (wordGroups (parseFrequencyText (str ''[WORD_GROUPS]\<newline>ai => AI\<newline>robot\<newline>\<newline>chip''))) \<and>
   map (\<lambda>g. (isRelatedGroup g, relatedGroupIndex g, relatedGroupTotal g))
     (wordGroups (parseFrequencyText (str ''[WORD_GROUPS]\<newline>ai => AI\<newline>robot\<newline>\<newline>chip''))) =
     [(True, Some 0, Some 2), (True, Some 1, Some 2), (False, None, None)]\<close>
proof -
  have e: \<open>map (\<lambda>g. (isRelatedGroup g, relatedGroupIndex g, relatedGroupTotal g))
     (wordGroups (parseFrequencyText (str ''[WORD_GROUPS]\<newline>ai => AI\<newline>robot\<newline>\<newline>chip''))) =
     [(True, Some 0, Some 2), (True, Some 1, Some 2), (False, None, None)]\<close>
    by code_simp
  from parseFrequencyText_wellMarked[of \<open>str ''[WORD_GROUPS]\<newline>ai => AI\<newline>robot\<newline>\<newline>chip''\<close> "initialState []"] e
  show ?thesis by blast
qed

text \<open>
  C5 (as amended). Two lines \<^verbatim>\<open>keyword => alias\<close> with no blank line between them
  parse to one alias-group with two items and no related-group flag. Two single-keyword
  groups with no blank line and no comment between them, in one of three arrangements
  (a line \<^verbatim>\<open>keyword => alias\<close> followed by a bare keyword line, a bare keyword line
  followed by a line \<^verbatim>\<open>keyword => alias\<close>, or a bracketed label with one keyword line
  followed by a line \<^verbatim>\<open>keyword => alias\<close>), parse to two groups, both flagged, with
  index 0 and 1 and total 2; rebuilding that parse emits the two groups on consecutive
  lines, with no blank line between them. Two bare keyword lines with no blank line
  between them parse to one plain group with two keywords and no flag.
\<close>

theorem related_group_contiguity:
  "(isAliasLine l1 k1 a1 \<and> isAliasLine l2 k2 a2 \<longrightarrow>
      wordGroups (parseFrequencyText (rulePrefix @ l1 @ LF # l2)) =
        [(newGroup AliasGroup 2 [])\<lparr>items := [(trim k1, trim a1), (trim k2, trim a2)]\<rparr>]) \<and>
   (isAliasLine l1 k1 a1 \<and> isKeywordLine l2 \<longrightarrow>
      wordGroups (parseFrequencyText (rulePrefix @ l1 @ LF # l2)) =
        [(newGroup Alias 2 [])\<lparr>items := [(trim k1, trim a1)], isRelatedGroup := True,
            relatedGroupIndex := Some 0, relatedGroupTotal := Some 2\<rparr>,
         (newGroup Plain 3 [])\<lparr>keywords := [trim l2], isRelatedGroup := True,
            relatedGroupIndex := Some 1, relatedGroupTotal := Some 2\<rparr>] \<and>
      buildFrequencyText (parseFrequencyText (rulePrefix @ l1 @ LF # l2)) =
        rulePrefix @ (trim k1 @ str '' => '' @ trim a1) @ LF # trim l2 @ [LF]) \<and>
   (isKeywordLine l1 \<and> isAliasLine l2 k2 a2 \<longrightarrow>
      wordGroups (parseFrequencyText (rulePrefix @ l1 @ LF # l2)) =
        [(newGroup Plain 2 [])\<lparr>keywords := [trim l1], isRelatedGroup := True,
            relatedGroupIndex := Some 0, relatedGroupTotal := Some 2\<rparr>,
         (newGroup Alias 3 [])\<lparr>items := [(trim k2, trim a2)], isRelatedGroup := True,
            relatedGroupIndex := Some 1, relatedGroupTotal := Some 2\<rparr>] \<and>
      buildFrequencyText (parseFrequencyText (rulePrefix @ l1 @ LF # l2)) =
        rulePrefix @ trim l1 @ LF # (trim k2 @ str '' => '' @ trim a2) @ [LF]) \<and>
   (isLabelLine l0 nm \<and> isKeywordLine l1 \<and> isAliasLine l2 k2 a2 \<longrightarrow>
      wordGroups (parseFrequencyText (rulePrefix @ l0 @ LF # l1 @ LF # l2)) =
        [(newGroup GroupName 2 [])\<lparr>name := Some nm, keywords := [trim l1], isRelatedGroup := True,
            relatedGroupIndex := Some 0, relatedGroupTotal := Some 2\<rparr>,
         (newGroup Alias 4 [])\<lparr>items := [(trim k2, trim a2)], isRelatedGroup := True,
            relatedGroupIndex := Some 1, relatedGroupTotal := Some 2\<rparr>] \<and>
      buildFrequencyText (parseFrequencyText (rulePrefix @ l0 @ LF # l1 @ LF # l2)) =
        rulePrefix @ ([LBRACKET] @ nm @ [RBRACKET]) @ LF # trim l1 @ LF #
          (trim k2 @ str '' => '' @ trim a2) @ [LF]) \<and>
   (isKeywordLine l1 \<and> isKeywordLine l2 \<longrightarrow>
      wordGroups (parseFrequencyText (rulePrefix @ l1 @ LF # l2)) =
        [(newGroup Plain 2 [])\<lparr>keywords := [trim l1, trim l2]\<rparr>])"
  using two_alias_lines[of l1 k1 a1 l2 k2 a2] alias_then_keyword[of l1 k1 a1 l2]
    keyword_then_alias[of l1 l2 k2 a2] build_alias_then_keyword[of l1 k1 a1 l2]
    build_keyword_then_alias[of l1 l2 k2 a2] label_keyword_alias[of l0 nm l1 l2 k2 a2]
    build_label_keyword_alias[of l0 nm l1 l2 k2 a2] two_keyword_lines[of l1 l2]
  by simp


theorem related_group_contiguity_witness:
  \<open>map groupShape (wordGroups (parseFrequencyText (str ''[GLOBAL_FILTER]\<newline>[WORD_GROUPS]\<newline>ai => AI\<newline>gpu => GPU''))) =
     [(AliasGroup, None, [], [(str ''ai'', str ''AI''), (str ''gpu'', str ''GPU'')], False)] \<and>
   map groupShape (wordGroups (parseFrequencyText (str ''[GLOBAL_FILTER]\<newline>[WORD_GROUPS]\<newline>ai => AI\<newline>robot''))) =
     [(Alias, None, [], [(str ''ai'', str ''AI'')], True), (Plain, None, [str ''robot''], [], True)] \<and>
   buildFrequencyText (parseFrequencyText (str ''[GLOBAL_FILTER]\<newline>[WORD_GROUPS]\<newline>ai => AI\<newline>robot'')) =
     str ''[GLOBAL_FILTER]\<newline>[WORD_GROUPS]\<newline>ai => AI\<newline>robot\<newline>'' \<and>
   buildFrequencyText (parseFrequencyText (str ''[GLOBAL_FILTER]\<newline>[WORD_GROUPS]\<newline>robot\<newline>ai => AI'')) =
     str ''[GLOBAL_FILTER]\<newline>[WORD_GROUPS]\<newline>robot\<newline>ai => AI\<newline>'' \<and>
   map groupShape (wordGroups (parseFrequencyText (str ''[GLOBAL_FILTER]\<newline>[WORD_GROUPS]\<newline>[Chips]\<newline>robot\<newline>ai => AI''))) =
     [(GroupName, Some (str ''Chips''), [str ''robot''], [], True), (Alias, None, [], [(str ''ai'', str ''AI'')], True)] \<and>
   buildFrequencyText (parseFrequencyText (str ''[GLOBAL_FILTER]\<newline>[WORD_GROUPS]\<newline>[Chips]\<newline>robot\<newline>ai => AI'')) =
     str ''[GLOBAL_FILTER]\<newline>[WORD_GROUPS]\<newline>[Chips]\<newline>robot\<newline>ai => AI\<newline>'' \<and>
   map groupShape (wordGroups (parseFrequencyText (str ''[GLOBAL_FILTER]\<newline>[WORD_GROUPS]\<newline>robot\<newline>chip''))) =
     [(Plain, None, [str ''robot'', str ''chip''], [], False)]\<close>
proof -
  have h: "isAliasLine (str ''ai => AI'') (str ''ai'') (str ''AI'')"
          "isAliasLine (str ''gpu => GPU'') (str ''gpu'') (str ''GPU'')"
          "isKeywordLine (str ''robot'')"
          "isLabelLine (str ''[Chips]'') (str ''Chips'')"
          "isKeywordLine (str ''chip'')"
    unfolding isAliasLine_def isKeywordLine_def isLabelLine_def by code_simp+
  have t: \<open>rulePrefix @ str ''ai => AI'' @ LF # str ''gpu => GPU'' = str ''[GLOBAL_FILTER]\<newline>[WORD_GROUPS]\<newline>ai => AI\<newline>gpu => GPU''\<close>
          \<open>rulePrefix @ str ''ai => AI'' @ LF # str ''robot'' = str ''[GLOBAL_FILTER]\<newline>[WORD_GROUPS]\<newline>ai => AI\<newline>robot''\<close>
          \<open>rulePrefix @ str ''robot'' @ LF # str ''ai => AI'' = str ''[GLOBAL_FILTER]\<newline>[WORD_GROUPS]\<newline>robot\<newline>ai => AI''\<close>
          \<open>rulePrefix @ (trim (str ''ai'') @ str '' => '' @ trim (str ''AI'')) @ LF # trim (str ''robot'') @ [LF] = str ''[GLOBAL_FILTER]\<newline>[WORD_GROUPS]\<newline>ai => AI\<newline>robot\<newline>''\<close>
          \<open>rulePrefix @ trim (str ''robot'') @ LF # (trim (str ''ai'') @ str '' => '' @ trim (str ''AI'')) @ [LF] = str ''[GLOBAL_FILTER]\<newline>[WORD_GROUPS]\<newline>robot\<newline>ai => AI\<newline>''\<close>
          \<open>rulePrefix @ str ''[Chips]'' @ LF # str ''robot'' @ LF # str ''ai => AI'' = str ''[GLOBAL_FILTER]\<newline>[WORD_GROUPS]\<newline>[Chips]\<newline>robot\<newline>ai => AI''\<close>
          \<open>rulePrefix @ ([LBRACKET] @ str ''Chips'' @ [RBRACKET]) @ LF # trim (str ''robot'') @ LF # (trim (str ''ai'') @ str '' => '' @ trim (str ''AI'')) @ [LF] = str ''[GLOBAL_FILTER]\<newline>[WORD_GROUPS]\<newline>[Chips]\<newline>robot\<newline>ai => AI\<newline>''\<close>
          \<open>rulePrefix @ str ''robot'' @ LF # str ''chip'' = str ''[GLOBAL_FILTER]\<newline>[WORD_GROUPS]\<newline>robot\<newline>chip''\<close>
          \<open>trim (str ''ai'') = str ''ai''\<close> \<open>trim (str ''AI'') = str ''AI''\<close>
          \<open>trim (str ''gpu'') = str ''gpu''\<close> \<open>trim (str ''GPU'') = str ''GPU''\<close>
          \<open>trim (str ''robot'') = str ''robot''\<close> \<open>trim (str ''chip'') = str ''chip''\<close>
    by code_simp+
  note c1 = related_group_contiguity[where ?l1.0 = "str ''ai => AI''" and ?k1.0 = "str ''ai''" and ?a1.0 = "str ''AI''"
              and ?l2.0 = "str ''gpu => GPU''" and ?k2.0 = "str ''gpu''" and ?a2.0 = "str ''GPU''",
              THEN conjunct1, rule_format, OF conjI[OF h(1) h(2)]]
  note c2 = related_group_contiguity[where ?l1.0 = "str ''ai => AI''" and ?k1.0 = "str ''ai''" and ?a1.0 = "str ''AI''"
              and ?l2.0 = "str ''robot''",
              THEN conjunct2, THEN conjunct1, rule_format, OF conjI[OF h(1) h(3)]]
  note c3 = related_group_contiguity[where ?l1.0 = "str ''robot''" and ?l2.0 = "str ''ai => AI''"
              and ?k2.0 = "str ''ai''" and ?a2.0 = "str ''AI''",
              THEN conjunct2, THEN conjunct2, THEN conjunct1, rule_format, OF conjI[OF h(3) h(1)]]
  note c4 = related_group_contiguity[where ?l0.0 = "str ''[Chips]''" and nm = "str ''Chips''"
              and ?l1.0 = "str ''robot''" and ?l2.0 = "str ''ai => AI''"
              and ?k2.0 = "str ''ai''" and ?a2.0 = "str ''AI''",
              THEN conjunct2, THEN conjunct2, THEN conjunct2, THEN conjunct1, rule_format,
              OF conjI[OF h(4) conjI[OF h(3) h(1)]]]
  note c5 = related_group_contiguity[where ?l1.0 = "str ''robot''" and ?l2.0 = "str ''chip''",
              THEN conjunct2, THEN conjunct2, THEN conjunct2, THEN conjunct2, rule_format,
              OF conjI[OF h(3) h(5)]]
  from c1 c2 c3 c4 c5 show ?thesis
    unfolding t by (simp add: groupShape_def newGroup_def rulePrefix_def str_def)
qed


text \<open>
  C5 as stated fails in the other arrangements of two single-keyword groups with no
  blank line between them. Two bare keyword lines, also under a label, are one group
  with two keywords; and when the second group starts with a bracketed label, whether
  the first is a bare keyword, a line \<^verbatim>\<open>keyword => alias\<close> or a labelled keyword, the
  two groups come out without the flag.
\<close>

theorem related_group_contiguity_counterexample:
  \<open>map groupShape (wordGroups (parseFrequencyText (str ''[GLOBAL_FILTER]\<newline>[WORD_GROUPS]\<newline>foo\<newline>bar''))) =
     [(Plain, None, [str ''foo'', str ''bar''], [], False)] \<and>
   map groupShape (wordGroups (parseFrequencyText (str ''[GLOBAL_FILTER]\<newline>[WORD_GROUPS]\<newline>[L]\<newline>foo\<newline>bar''))) =
     [(GroupName, Some (str ''L''), [str ''foo'', str ''bar''], [], False)] \<and>
   map groupShape (wordGroups (parseFrequencyText (str ''[GLOBAL_FILTER]\<newline>[WORD_GROUPS]\<newline>foo\<newline>[L]\<newline>bar''))) =
     [(Plain, None, [str ''foo''], [], False), (GroupName, Some (str ''L''), [str ''bar''], [], False)] \<and>
   map groupShape (wordGroups (parseFrequencyText (str ''[GLOBAL_FILTER]\<newline>[WORD_GROUPS]\<newline>a => A\<newline>[L]\<newline>bar''))) =
     [(Alias, None, [], [(str ''a'', str ''A'')], False), (GroupName, Some (str ''L''), [str ''bar''], [], False)] \<and>
   map groupShape (wordGroups (parseFrequencyText (str ''[GLOBAL_FILTER]\<newline>[WORD_GROUPS]\<newline>[K]\<newline>foo\<newline>[L]\<newline>bar''))) =
     [(GroupName, Some (str ''K''), [str ''foo''], [], False), (GroupName, Some (str ''L''), [str ''bar''], [], False)]\<close>
  by code_simp

text \<open>
  The rule text of the end-to-end scenario of the specification parses to a plain group
  and an alias group, and the builder gives the text back byte for byte.
\<close>

lemma buildFrequencyText_scenario:
  \<open>map groupShape (wordGroups (parseFrequencyText ruleDoc)) =
     [(Plain, None, [str ''foo'', str ''bar''], [], False),
      (Alias, None, [], [(str ''/x|y/'', str ''Z'')], False)] \<and>
   map precedingComments (wordGroups (parseFrequencyText ruleDoc)) = [[str ''# comment A''], [str '''']] \<and>
   globalFilter (parseFrequencyText ruleDoc) = [str ''spam''] \<and>
   buildFrequencyText (parseFrequencyText ruleDoc) = ruleDoc\<close>
  by code_simp

text \<open>
  A carriage return inside an alias line is white space for the separator and a stop for
  the dot: the line \<^verbatim>\<open>a=>x\r=> b\<close> reads as the keyword \<^verbatim>\<open>a=>x\<close> with the alias
  \<^verbatim>\<open>b\<close>, and the line the builder writes for that item reads as the keyword \<^verbatim>\<open>a\<close>.
\<close>

lemma buildFrequencyText_stray_cr:
  \<open>map groupShape (wordGroups (parseFrequencyText
       (str ''[GLOBAL_FILTER]\<newline>[WORD_GROUPS]\<newline>a=>x'' @ [13] @ str ''=> b''))) =
     [(Alias, None, [], [(str ''a=>x'', str ''b'')], False)] \<and>
   buildFrequencyText (parseFrequencyText
       (str ''[GLOBAL_FILTER]\<newline>[WORD_GROUPS]\<newline>a=>x'' @ [13] @ str ''=> b'')) =
     str ''[GLOBAL_FILTER]\<newline>[WORD_GROUPS]\<newline>a=>x => b\<newline>'' \<and>
   map groupShape (wordGroups (parseFrequencyText (buildFrequencyText (parseFrequencyText
       (str ''[GLOBAL_FILTER]\<newline>[WORD_GROUPS]\<newline>a=>x'' @ [13] @ str ''=> b''))))) =
     [(Alias, None, [], [(str ''a'', str ''x => b'')], False)]\<close>
  by code_simp

text \<open>
  C1 fails on a rule file that has a word-groups marker and no global-filter marker: the
  builder copies the whole file as the head that precedes the global-filter marker and
  then emits the groups again, so the rebuilt text parses to two groups where the
  original parses to one.
\<close>

theorem buildFrequencyText_roundtrip_breaks:
  \<open>buildFrequencyText (parseFrequencyText (str ''[WORD_GROUPS]\<newline>foo\<newline>'')) =
     str ''[WORD_GROUPS]\<newline>foo\<newline>\<newline>[GLOBAL_FILTER]\<newline>[WORD_GROUPS]\<newline>foo\<newline>'' \<and>
   map groupShape (wordGroups (parseFrequencyText (str ''[WORD_GROUPS]\<newline>foo\<newline>''))) =
     [(Plain, None, [str ''foo''], [], False)] \<and>
   map groupShape (wordGroups (parseFrequencyText
       (buildFrequencyText (parseFrequencyText (str ''[WORD_GROUPS]\<newline>foo\<newline>''))))) =
     [(Plain, None, [str ''foo''], [], False), (Plain, None, [str ''foo''], [], False)]\<close>
  by code_simp


section \<open>Facts about the list mutations\<close>

declare removePeriodLoop.simps [simp del]














section \<open>Claims about the section operations\<close>





text \<open>
  C6 fails on a day plan whose block list quotes its items: the inline branch strips
  quotes before it compares, the block branch compares the raw token, so the reference
  stays in the block list after the period's block is gone. The loop also keeps its
  bound when it removes a line: when the day plans end the document, the read after the
  last line throws and the deletion is lost.
\<close>

theorem deleteTlPeriod_leaves_reference:
  \<open>deleteTlPeriod (str ''custom'') (str ''morning'') True [str ''workday'', str ''weekend''] True dpQuoted =
     Inr (str ''custom:\<newline>  periods:\<newline>    evening:\<newline>      name: "Evening"\<newline>  day_plans:\<newline>    workday:\<newline>      periods:\<newline>        - "morning"\<newline>        - "evening"\<newline>    weekend:\<newline>      periods: []\<newline>  week_map:\<newline>    1: workday\<newline>'') \<and>
   deleteTlPeriod (str ''custom'') (str ''morning'') True [str ''workday''] True dpLast = Inl TypeError\<close>
  by code_simp

end
